(* ===== verification/Go_Prelude.thy ===== *)
theory Go_Prelude
  imports Main "HOL-Library.Word" "HOL-Library.Signed_Division"
begin

text \<open>
  The prelude of the development: the Go run-time notions that every component of the
  logger uses.  Go strings are byte strings, so a Go \<open>string\<close> is an Isabelle
  \<^typ>\<open>string\<close> (a list of 8-bit \<^typ>\<open>char\<close>s).  The interface value \<open>any\<close> of the
  \<open>FileLog\<close> setting is the datatype \<open>go_any\<close>; Go errors are the datatype
  \<open>go_error\<close>, rendered by \<open>error_string\<close> as \<open>err.Error()\<close> renders them; a
  sequence of calls that may return an error early is a function of type
  \<open>('s, 'a) go_m\<close>, threading the state and stopping at the first error, with the
  state effects made before the error kept.  The collection \<open>go_simps\<close> gathers the
  equations the component proofs unfold; \<open>go_preserves P m\<close> says that a call keeps a
  state predicate on every outcome.
\<close>

named_theorems go_simps "equations of the Go run-time model unfolded by the component proofs"

section \<open>Values of interface type\<close>

text \<open>
  \<open>FileLog any\<close> holds \<open>nil\<close>, a \<open>bool\<close>, a \<open>string\<close> or a value of any other
  dynamic type, of which only the type name printed by \<open>%T\<close> matters to the logger.
\<close>

datatype go_any = AnyNil | AnyBool bool | AnyString string | AnyOther string

section \<open>Errors\<close>

text \<open>
  The system-call errors the file operations of the model can return (\<open>syscall.Errno\<close>),
  and the Go error values built from them: \<open>*os.PathError\<close> (operation, path, errno),
  an error wrapped by \<open>fmt.Errorf("<prefix>%v", err)\<close>, and a plain error made by
  \<open>fmt.Errorf\<close> from a message.
\<close>

datatype errno = ENOENT | ENOTDIR | EISDIR | EACCES | ENOSPC | EINVAL | EEXIST

primrec errno_Error :: "errno \<Rightarrow> string" where
  "errno_Error ENOENT = ''no such file or directory''"
| "errno_Error ENOTDIR = ''not a directory''"
| "errno_Error EISDIR = ''is a directory''"
| "errno_Error EACCES = ''permission denied''"
| "errno_Error ENOSPC = ''no space left on device''"
| "errno_Error EINVAL = ''invalid argument''"
| "errno_Error EEXIST = ''file exists''"

datatype go_error =
    PathError string string errno
  | Wrapped string go_error
  | Errorf string

primrec error_string :: "go_error \<Rightarrow> string" where
  "error_string (PathError op p e) = op @ '' '' @ p @ '': '' @ errno_Error e"
| "error_string (Wrapped pre e) = pre @ error_string e"
| "error_string (Errorf msg) = msg"

section \<open>Calls that return early on error\<close>

text \<open>
  \<open>if err != nil { return err }\<close> after each call: \<open>go_bind\<close> runs the first call and
  hands its result to the rest, or stops with the error and the state reached so far.
\<close>

type_synonym ('s, 'a) go_m = "'s \<Rightarrow> (go_error + 'a) \<times> 's"

definition go_return :: "'a \<Rightarrow> ('s, 'a) go_m" where
  "go_return a s = (Inr a, s)"

definition go_fail :: "go_error \<Rightarrow> ('s, 'a) go_m" where
  "go_fail e s = (Inl e, s)"

definition go_bind :: "('s, 'a) go_m \<Rightarrow> ('a \<Rightarrow> ('s, 'b) go_m) \<Rightarrow> ('s, 'b) go_m" where
  "go_bind m f s = (case m s of (Inl e, s') \<Rightarrow> (Inl e, s') | (Inr a, s') \<Rightarrow> f a s')"

text \<open>\<open>return fmt.Errorf("<prefix>%v", err)\<close> around a call.\<close>

definition go_wrap :: "string \<Rightarrow> ('s, 'a) go_m \<Rightarrow> ('s, 'a) go_m" where
  "go_wrap pre m s = (case m s of (Inl e, s') \<Rightarrow> (Inl (Wrapped pre e), s') | r \<Rightarrow> r)"

lemma go_bind_return [simp, go_simps]: "go_bind (go_return a) f = f a"
  by (simp add: go_bind_def go_return_def fun_eq_iff)

lemma go_bind_fail [simp, go_simps]: "go_bind (go_fail e) f = go_fail e"
  by (simp add: go_bind_def go_fail_def fun_eq_iff)

lemma go_bind_Inr [go_simps]: "m s = (Inr a, s') \<Longrightarrow> go_bind m f s = f a s'"
  by (simp add: go_bind_def)

lemma go_bind_Inl [go_simps]: "m s = (Inl e, s') \<Longrightarrow> go_bind m f s = (Inl e, s')"
  by (simp add: go_bind_def)

lemma go_wrap_Inr [go_simps]: "m s = (Inr a, s') \<Longrightarrow> go_wrap pre m s = (Inr a, s')"
  by (simp add: go_wrap_def)

lemma go_wrap_Inl [go_simps]: "m s = (Inl e, s') \<Longrightarrow> go_wrap pre m s = (Inl (Wrapped pre e), s')"
  by (simp add: go_wrap_def)

lemma go_bind_assoc: "go_bind (go_bind m f) g = go_bind m (\<lambda>a. go_bind (f a) g)"
  by (auto simp: go_bind_def fun_eq_iff split: prod.splits sum.splits)

text \<open>A call keeps a predicate of the state when, from every state satisfying it, the
  state it leaves (whatever it returns, errors included) satisfies it too.\<close>

definition go_preserves :: "('s \<Rightarrow> bool) \<Rightarrow> ('s, 'a) go_m \<Rightarrow> bool" where
  "go_preserves P m \<longleftrightarrow> (\<forall>s. P s \<longrightarrow> P (snd (m s)))"

lemma go_preserves_apply: "go_preserves P m \<Longrightarrow> P s \<Longrightarrow> P (snd (m s))"
  by (simp add: go_preserves_def)

section \<open>Variadic options\<close>

text \<open>\<open>var opts T; if len(options) > 0 { opts = options[0] }\<close>: the first argument, or the zero value.\<close>

definition first_or :: "'a \<Rightarrow> 'a list \<Rightarrow> 'a" where
  "first_or z xs = (case xs of [] \<Rightarrow> z | x # _ \<Rightarrow> x)"

lemma first_or_simps [simp, go_simps]: "first_or z [] = z" "first_or z (x # xs) = x"
  by (simp_all add: first_or_def)

section \<open>strings.Join\<close>

fun strings_Join :: "string list \<Rightarrow> string \<Rightarrow> string" where
  "strings_Join [] sep = []"
| "strings_Join [x] sep = x"
| "strings_Join (x # y # zs) sep = x @ sep @ strings_Join (y # zs) sep"

lemma strings_Join_snoc [simp]:
  "strings_Join (xs @ [y]) sep = (if xs = [] then y else strings_Join xs sep @ sep @ y)"
proof (induction xs sep rule: strings_Join.induct)
  case (3 x y' zs sep)
  then show ?case by (cases zs) auto
qed auto

lemma strings_Join_Cons:
  "xs \<noteq> [] \<Longrightarrow> strings_Join (x # xs) sep = x @ sep @ strings_Join xs sep"
  by (cases xs) auto

lemma strings_Join_append:
  "xs \<noteq> [] \<Longrightarrow> ys \<noteq> [] \<Longrightarrow>
   strings_Join (xs @ ys) sep = strings_Join xs sep @ sep @ strings_Join ys sep"
proof (induction xs sep rule: strings_Join.induct)
  case (2 x sep)
  then show ?case by (simp add: strings_Join_Cons)
next
  case (3 x y zs sep)
  then show ?case by (simp add: strings_Join_Cons)
qed auto

section \<open>Bytes\<close>

text \<open>A byte given by its value, for the non-ASCII bytes of the output (UTF-8 of \<open>\<checkmark>\<close>).\<close>

abbreviation byte :: "nat \<Rightarrow> char" where
  "byte n \<equiv> char_of n"

end
