(* ===== verification/Go_Fmt.thy ===== *)
theory Go_Fmt
  imports Go_Prelude
begin

text \<open>
  Decimal formatting of integers as the Go standard library does it: \<open>fmt.Sprintf("%d", i)\<close>
  (which is \<open>strconv.FormatInt(i, 10)\<close>: a minus sign, then the digits of the absolute
  value) and the zero-padded \<open>appendInt(b, x, width)\<close> of package \<open>time\<close> that the layout
  \<open>"2006-01-02 15:04:05"\<close> uses for each field.  A decimal reader \<open>parse_int\<close> states
  what the digits mean: formatting then reading gives the integer back.
\<close>

section \<open>Digits\<close>

text \<open>The digit of a value below ten, read from the digit table as \<open>strconv\<close> does.\<close>

definition digit_char :: "nat \<Rightarrow> char" where
  "digit_char d = ''0123456789'' ! d"

definition is_dec_digit :: "char \<Rightarrow> bool" where
  "is_dec_digit c \<longleftrightarrow> (48::nat) \<le> of_char c \<and> of_char c \<le> (57::nat)"

definition digit_val :: "char \<Rightarrow> nat" where
  "digit_val c = of_char c - 48"

fun nat_digits :: "nat \<Rightarrow> string" where
  "nat_digits n = (if n < 10 then [digit_char n] else nat_digits (n div 10) @ [digit_char (n mod 10)])"

declare nat_digits.simps [simp del]

text \<open>\<open>fmt.Sprintf("%d", i)\<close> for an integer \<open>i\<close> (\<open>strconv.formatBits\<close> with base 10).\<close>

definition fmt_int :: "int \<Rightarrow> string" where
  "fmt_int i = (if i < 0 then CHR ''-'' # nat_digits (nat (- i)) else nat_digits (nat i))"

text \<open>\<open>appendInt(b, x, width)\<close> of \<open>time/format.go\<close>: sign, zero padding up to \<open>width\<close>, digits.\<close>

definition appendInt :: "int \<Rightarrow> nat \<Rightarrow> string" where
  "appendInt x width =
     (let ds = nat_digits (nat \<bar>x\<bar>)
      in (if x < 0 then ''-'' else []) @ replicate (width - length ds) CHR ''0'' @ ds)"

section \<open>Reading decimals back\<close>

definition parse_nat :: "string \<Rightarrow> nat option" where
  "parse_nat s = (if s \<noteq> [] \<and> list_all is_dec_digit s
                  then Some (foldl (\<lambda>a c. 10 * a + digit_val c) 0 s) else None)"

definition parse_int :: "string \<Rightarrow> int option" where
  "parse_int s = (case s of
                    c # ds \<Rightarrow> if c = CHR ''-'' then map_option (\<lambda>n. - int n) (parse_nat ds)
                              else map_option int (parse_nat s)
                  | [] \<Rightarrow> None)"

section \<open>Properties of the digits\<close>

lemma below_ten_cases: "(d::nat) < 10 \<Longrightarrow> d \<in> {0, 1, 2, 3, 4, 5, 6, 7, 8, 9}"
  by auto

lemma digit_char_is_dec_digit [simp]: "d < 10 \<Longrightarrow> is_dec_digit (digit_char d)"
  by (drule below_ten_cases) (auto simp: digit_char_def is_dec_digit_def)

lemma digit_val_digit_char [simp]: "d < 10 \<Longrightarrow> digit_val (digit_char d) = d"
  by (drule below_ten_cases) (auto simp: digit_char_def digit_val_def)

lemma nat_digits_nonempty [simp]: "nat_digits n \<noteq> []"
  by (subst nat_digits.simps) simp

lemma nat_digits_all_digits: "list_all is_dec_digit (nat_digits n)"
proof (induction n rule: nat_digits.induct)
  case (1 n)
  then show ?case by (subst nat_digits.simps) auto
qed

lemma nat_digits_value: "foldl (\<lambda>a c. 10 * a + digit_val c) 0 (nat_digits n) = n"
proof (induction n rule: nat_digits.induct)
  case (1 n)
  then show ?case by (subst nat_digits.simps) auto
qed

lemma nat_digits_hd_not_minus: "hd (nat_digits n) \<noteq> CHR ''-''"
proof -
  have "is_dec_digit (hd (nat_digits n))"
    using nat_digits_all_digits[of n] nat_digits_nonempty[of n]
    by (cases "nat_digits n") auto
  then show ?thesis by (auto simp: is_dec_digit_def)
qed

lemma parse_nat_digits: "parse_nat (nat_digits n) = Some n"
  by (simp add: parse_nat_def nat_digits_all_digits nat_digits_value)

lemma fmt_int_all_digits_or_minus: "list_all (\<lambda>c. is_dec_digit c \<or> c = CHR ''-'') (fmt_int i)"
  using nat_digits_all_digits by (auto simp: fmt_int_def list_all_iff)

lemma parse_int_fmt_int: "parse_int (fmt_int i) = Some i"
proof (cases "i < 0")
  case True
  then show ?thesis by (simp add: fmt_int_def parse_int_def parse_nat_digits)
next
  case False
  obtain c ds where cd: "nat_digits (nat i) = c # ds"
    using nat_digits_nonempty by (cases "nat_digits (nat i)") auto
  with nat_digits_hd_not_minus[of "nat i"] have "c \<noteq> CHR ''-''" by simp
  with False cd show ?thesis
    by (simp add: fmt_int_def parse_int_def parse_nat_digits[of "nat i", unfolded cd])
qed

lemma length_nat_digits_le: "n < 10 ^ k \<Longrightarrow> 0 < k \<Longrightarrow> length (nat_digits n) \<le> k"
proof (induction n arbitrary: k rule: nat_digits.induct)
  case (1 n)
  show ?case
  proof (cases "n < 10")
    case True
    with "1.prems" show ?thesis by (subst nat_digits.simps) simp
  next
    case False
    then obtain k' where k: "k = Suc k'" using "1.prems" by (cases k) auto
    with False "1.prems" have "0 < k'" by (cases k') auto
    moreover from k "1.prems" have "n div 10 < 10 ^ k'" by (simp add: div_less_iff_less_mult mult.commute)
    ultimately have "length (nat_digits (n div 10)) \<le> k'" using "1.IH" False by blast
    with False k show ?thesis by (subst nat_digits.simps) simp
  qed
qed

end
