(* ===== verification/Go_Time.thy ===== *)
theory Go_Time
  imports Go_Fmt
begin

text \<open>
  The parts of Go's package \<open>time\<close> the logger calls: the instant \<open>time.Time\<close>, the
  test \<open>IsZero\<close> (the \<open>StartTime\<close> option is absent when it holds), the difference
  \<open>t.Sub(u)\<close> as a \<open>Duration\<close> (a signed 64-bit count of nanoseconds, here a
  \<^typ>\<open>64 word\<close> read by \<^term>\<open>sint\<close>), \<open>Duration.Milliseconds\<close> (truncating
  division by \<open>1e6\<close>), and \<open>t.Format("2006-01-02 15:04:05")\<close>.

  A \<open>Time\<close> is its wall clock (seconds since 0001-01-01 00:00:00 UTC and nanoseconds,
  as \<open>t.sec()\<close> and \<open>t.nsec()\<close> return them), an optional monotonic clock reading
  (present on the values \<open>time.Now()\<close> returns) and the offset of its location in
  seconds east of UTC.  \<open>Sub\<close> uses the monotonic readings when both instants carry one
  (\<open>subMono\<close>, written on 64-bit words with its overflow checks) and otherwise the wall
  clocks, saturating at the bounds of \<open>Duration\<close> as the documentation of \<open>Sub\<close> states.
\<close>

type_synonym Duration = "64 word"

record Time =
  t_sec :: int
  t_nsec :: nat
  t_mono :: "64 word option"
  t_offset :: int

text \<open>The zero value \<open>time.Time{}\<close>, January 1 of year 1, 00:00:00 UTC.\<close>

definition zero_Time :: Time where
  "zero_Time = \<lparr>t_sec = 0, t_nsec = 0, t_mono = None, t_offset = 0\<rparr>"

definition Time_IsZero :: "Time \<Rightarrow> bool" where
  "Time_IsZero t \<longleftrightarrow> t_sec t = 0 \<and> t_nsec t = 0"

section \<open>Durations and Sub\<close>

definition minDuration :: Duration where
  "minDuration = word_of_int (- (2 ^ 63))"

definition maxDuration :: Duration where
  "maxDuration = word_of_int (2 ^ 63 - 1)"

definition clamp_dur :: "int \<Rightarrow> int" where
  "clamp_dur x = max (- (2 ^ 63)) (min (2 ^ 63 - 1) x)"

text \<open>\<open>subMono(t, u int64) Duration\<close>: the wrapped difference, replaced by the bound it
  overflowed when its sign disagrees with the order of the readings.\<close>

definition subMono :: "64 word \<Rightarrow> 64 word \<Rightarrow> Duration" where
  "subMono t u =
     (let d = t - u in
      if d <s 0 \<and> u <s t then maxDuration
      else if 0 <s d \<and> t <s u then minDuration
      else d)"

definition Time_Sub :: "Time \<Rightarrow> Time \<Rightarrow> Duration" where
  "Time_Sub t u =
     (case (t_mono t, t_mono u) of
        (Some mt, Some mu) \<Rightarrow> subMono mt mu
      | _ \<Rightarrow> word_of_int (clamp_dur ((t_sec t - t_sec u) * 1000000000
                                      + (int (t_nsec t) - int (t_nsec u)))))"

text \<open>\<open>func (d Duration) Milliseconds() int64 { return int64(d) / 1e6 }\<close>: Go's division
  truncates toward zero, which is \<open>sdiv\<close> on \<^typ>\<open>int\<close>.\<close>

definition Duration_Milliseconds :: "Duration \<Rightarrow> 64 word" where
  "Duration_Milliseconds d = word_of_int (sint d sdiv 1000000)"

text \<open>What \<open>Sub\<close> promises: the elapsed nanoseconds (on the monotonic clock when both
  instants have a reading, on the wall clock otherwise), saturated to \<open>Duration\<close>; and
  the order of instants the same comparison uses.\<close>

definition elapsed_ns :: "Time \<Rightarrow> Time \<Rightarrow> int" where
  "elapsed_ns t u =
     clamp_dur (case (t_mono t, t_mono u) of
                  (Some mt, Some mu) \<Rightarrow> sint mt - sint mu
                | _ \<Rightarrow> (t_sec t - t_sec u) * 1000000000 + (int (t_nsec t) - int (t_nsec u)))"

definition Time_not_after :: "Time \<Rightarrow> Time \<Rightarrow> bool" where
  "Time_not_after u t \<longleftrightarrow>
     (case (t_mono t, t_mono u) of
        (Some mt, Some mu) \<Rightarrow> sint mu \<le> sint mt
      | _ \<Rightarrow> t_sec u < t_sec t \<or> (t_sec u = t_sec t \<and> t_nsec u \<le> t_nsec t))"

section \<open>Format with the layout "2006-01-02 15:04:05"\<close>

text \<open>
  The proleptic Gregorian date of a day number, counted from 1970-01-01 (the algorithm
  of H. Hinnant's \<open>civil_from_days\<close>, on unbounded integers with floor division, so that
  it covers days before the epoch and before year 1 as Go's \<open>absDate\<close> does).
\<close>

definition civil_from_days :: "int \<Rightarrow> int \<times> int \<times> int" where
  "civil_from_days z0 =
     (let z = z0 + 719468;
          era = z div 146097;
          doe = z - era * 146097;
          yoe = (doe - doe div 1460 + doe div 36524 - doe div 146096) div 365;
          doy = doe - (365 * yoe + yoe div 4 - yoe div 100);
          mp = (5 * doy + 2) div 153;
          d = doy - (153 * mp + 2) div 5 + 1;
          m = (if mp < 10 then mp + 3 else mp - 9)
      in (yoe + era * 400 + (if m \<le> 2 then 1 else 0), m, d))"

text \<open>Days from 0001-01-01 to 1970-01-01.\<close>

definition days_year1_to_1970 :: int where
  "days_year1_to_1970 = 719162"

definition Time_Format :: "Time \<Rightarrow> string" where
  "Time_Format t =
     (let local = t_sec t + t_offset t;
          secs = local mod 86400;
          (y, m, d) = civil_from_days (local div 86400 - days_year1_to_1970)
      in appendInt y 4 @ ''-'' @ appendInt m 2 @ ''-'' @ appendInt d 2 @ '' ''
         @ appendInt (secs div 3600) 2 @ '':'' @ appendInt (secs mod 3600 div 60) 2
         @ '':'' @ appendInt (secs mod 60) 2)"

section \<open>Signed 64-bit arithmetic\<close>

lemma sint64_range: "- (2 ^ 63) \<le> sint (x :: 64 word)" "sint (x :: 64 word) < 2 ^ 63"
  using sint_ge[of x] sint_lt[of x] by simp_all

lemma mod_wrap_once:
  fixes x m :: int
  assumes "0 < m" "- m \<le> x" "x < 2 * m"
  shows "x mod m = (if x < 0 then x + m else if m \<le> x then x - m else x)"
proof -
  consider "x < 0" | "0 \<le> x" "x < m" | "m \<le> x" by linarith
  then show ?thesis
  proof cases
    case 1
    have "x mod m = (x + m) mod m" by simp
    also have "\<dots> = x + m" using 1 assms by (intro mod_pos_pos_trivial) auto
    finally show ?thesis using 1 by simp
  next
    case 2
    then show ?thesis by (simp add: mod_pos_pos_trivial)
  next
    case 3
    have "x mod m = (x - m) mod m" by (simp add: mod_diff_right_eq)
    also have "\<dots> = x - m" using 3 assms by (intro mod_pos_pos_trivial) auto
    finally show ?thesis using 3 assms by simp
  qed
qed

text \<open>The wrapped difference of two signed 64-bit values.\<close>

lemma sint_sub64:
  fixes t u :: "64 word"
  defines "D \<equiv> sint t - sint u"
  shows "sint (t - u) = (if 2 ^ 63 \<le> D then D - 2 ^ 64 else if D < - (2 ^ 63) then D + 2 ^ 64 else D)"
proof -
  have r: "- (2 ^ 64) \<le> D + 2 ^ 63" "D + 2 ^ 63 < 2 * 2 ^ 64"
    using sint64_range[of t] sint64_range[of u] by (simp_all add: D_def)
  have m: "(D + 2 ^ 63) mod 2 ^ 64 = (if D + 2 ^ 63 < 0 then D + 2 ^ 63 + 2 ^ 64
             else if 2 ^ 64 \<le> D + 2 ^ 63 then D + 2 ^ 63 - 2 ^ 64 else D + 2 ^ 63)"
    using r by (intro mod_wrap_once) simp_all
  have "sint (t - u) = signed_take_bit 63 D"
    by (simp add: sint_word_ariths D_def)
  also have "\<dots> = (D + 2 ^ 63) mod 2 ^ 64 - 2 ^ 63"
    by (simp add: signed_take_bit_eq_take_bit_shift take_bit_eq_mod)
  finally have e: "sint (t - u) = (if D + 2 ^ 63 < 0 then D + 2 ^ 63 + 2 ^ 64
             else if 2 ^ 64 \<le> D + 2 ^ 63 then D + 2 ^ 63 - 2 ^ 64 else D + 2 ^ 63) - 2 ^ 63"
    by (simp only: m)
  consider "2 ^ 63 \<le> D" | "D < - (2 ^ 63)" | "- (2 ^ 63) \<le> D" "D < 2 ^ 63" by linarith
  then show ?thesis
  proof cases
    case 1
    then have "\<not> D + 2 ^ 63 < 0" "2 ^ 64 \<le> D + 2 ^ 63" by simp_all
    then show ?thesis unfolding e using 1 by simp
  next
    case 2
    then have "D + 2 ^ 63 < 0" "\<not> 2 ^ 63 \<le> D" by simp_all
    then show ?thesis unfolding e using 2 by simp
  next
    case 3
    then have "\<not> D + 2 ^ 63 < 0" "\<not> 2 ^ 64 \<le> D + 2 ^ 63" "\<not> 2 ^ 63 \<le> D" "\<not> D < - (2 ^ 63)"
      by simp_all
    then show ?thesis unfolding e using 3 by simp
  qed
qed

lemma sint_word_of_int_in_range:
  "- (2 ^ 63) \<le> x \<Longrightarrow> x < 2 ^ 63 \<Longrightarrow> sint (word_of_int x :: 64 word) = x"
  by (simp add: sint_sbintrunc' signed_take_bit_int_eq_self)

lemma sint_maxDuration [simp]: "sint maxDuration = 2 ^ 63 - 1"
  by (simp add: maxDuration_def sint_word_of_int_in_range)

lemma sint_minDuration [simp]: "sint minDuration = - (2 ^ 63)"
  by (simp add: minDuration_def sint_word_of_int_in_range)

lemma clamp_dur_range: "- (2 ^ 63) \<le> clamp_dur x" "clamp_dur x < 2 ^ 63"
  by (simp_all add: clamp_dur_def)

lemma sint_word_of_clamp [simp]: "sint (word_of_int (clamp_dur x) :: 64 word) = clamp_dur x"
  using clamp_dur_range[of x] by (simp add: sint_word_of_int_in_range)

section \<open>Properties of Sub and Milliseconds\<close>

text \<open>\<open>subMono\<close> computes the exact difference of the two readings whenever it fits in
  a \<open>Duration\<close>, and the nearest bound of \<open>Duration\<close> otherwise: the overflow checks
  on the wrapped 64-bit difference catch every overflow and no other case.\<close>

theorem subMono_saturates: "sint (subMono t u) = clamp_dur (sint t - sint u)"
proof -
  define D where "D = sint t - sint u"
  have sd: "sint (t - u) = (if 2 ^ 63 \<le> D then D - 2 ^ 64 else if D < - (2 ^ 63) then D + 2 ^ 64 else D)"
    unfolding D_def by (rule sint_sub64)
  have r: "- (2 ^ 63) \<le> sint t" "sint t < 2 ^ 63" "- (2 ^ 63) \<le> sint u" "sint u < 2 ^ 63"
    using sint64_range[of t] sint64_range[of u] by simp_all
  have lt: "(x <s y) = (sint x < sint y)" for x y :: "64 word" by (rule word_sless_alt)
  consider "2 ^ 63 \<le> D" | "D < - (2 ^ 63)" | "- (2 ^ 63) \<le> D" "D < 2 ^ 63" by linarith
  then show ?thesis
  proof cases
    case 1
    then have c: "t - u <s 0 \<and> u <s t" using r sd by (simp add: lt D_def)
    have "subMono t u = maxDuration"
      unfolding subMono_def Let_def by (simp only: if_P[OF c])
    moreover have "clamp_dur D = 2 ^ 63 - 1" using 1 by (simp add: clamp_dur_def)
    ultimately show ?thesis by (simp add: D_def)
  next
    case 2
    then have nc: "\<not> (t - u <s 0 \<and> u <s t)" and c: "0 <s t - u \<and> t <s u"
      using r sd by (simp_all add: lt D_def)
    have "subMono t u = minDuration"
      unfolding subMono_def Let_def by (simp only: if_not_P[OF nc] if_P[OF c])
    moreover have "clamp_dur D = - (2 ^ 63)" using 2 by (simp add: clamp_dur_def)
    ultimately show ?thesis by (simp add: D_def)
  next
    case 3
    then have nc1: "\<not> (t - u <s 0 \<and> u <s t)" and nc2: "\<not> (0 <s t - u \<and> t <s u)"
      using r sd by (simp_all add: lt D_def)
    have "subMono t u = t - u"
      unfolding subMono_def Let_def by (simp only: if_not_P[OF nc1] if_not_P[OF nc2])
    moreover have "clamp_dur D = D" using 3 by (simp add: clamp_dur_def)
    moreover have "sint (t - u) = D" using 3 sd by simp
    ultimately show ?thesis by (simp only: D_def)
  qed
qed

lemma Time_Sub_mono:
  "t_mono t = Some a \<Longrightarrow> t_mono u = Some b \<Longrightarrow> sint (Time_Sub t u) = clamp_dur (sint a - sint b)"
  by (simp add: Time_Sub_def subMono_saturates)

lemma Time_Sub_wall:
  "t_mono t = None \<or> t_mono u = None \<Longrightarrow>
   sint (Time_Sub t u) = clamp_dur ((t_sec t - t_sec u) * 1000000000 + (int (t_nsec t) - int (t_nsec u)))"
  by (auto simp: Time_Sub_def split: option.splits)

lemma Time_Sub_elapsed: "sint (Time_Sub t u) = elapsed_ns t u"
  by (auto simp: Time_Sub_def elapsed_ns_def subMono_saturates split: option.splits)

lemma elapsed_ns_nonneg:
  assumes "Time_not_after u t" "t_nsec t < 1000000000" "t_nsec u < 1000000000"
  shows "0 \<le> elapsed_ns t u"
proof (cases "\<exists>a b. t_mono t = Some a \<and> t_mono u = Some b")
  case True
  with assms(1) show ?thesis by (auto simp: elapsed_ns_def Time_not_after_def clamp_dur_def)
next
  case False
  then have w: "Time_not_after u t \<longleftrightarrow> t_sec u < t_sec t \<or> (t_sec u = t_sec t \<and> t_nsec u \<le> t_nsec t)"
    and e: "elapsed_ns t u = clamp_dur ((t_sec t - t_sec u) * 1000000000 + (int (t_nsec t) - int (t_nsec u)))"
    by (auto simp: Time_not_after_def elapsed_ns_def split: option.splits)
  from assms(1) w have le: "t_sec u < t_sec t \<or> (t_sec u = t_sec t \<and> t_nsec u \<le> t_nsec t)"
    by simp
  have "0 \<le> (t_sec t - t_sec u) * 1000000000 + (int (t_nsec t) - int (t_nsec u))"
  proof (cases "t_sec u < t_sec t")
    case True
    then have "1000000000 \<le> (t_sec t - t_sec u) * 1000000000" by simp
    with assms(3) show ?thesis by linarith
  next
    case False
    with le show ?thesis by simp
  qed
  with e show ?thesis by (simp add: clamp_dur_def)
qed

lemma sdiv_million_bound:
  fixes k :: int
  assumes "- (2 ^ 63) \<le> k" "k < 2 ^ 63"
  shows "\<bar>k sdiv 1000000\<bar> \<le> 9223372036854"
proof -
  have "\<bar>k\<bar> \<le> 2 ^ 63" using assms by simp
  then have "\<bar>k\<bar> div 1000000 \<le> 2 ^ 63 div 1000000" by (rule zdiv_mono1) simp
  then show ?thesis by (simp add: signed_divide_int_def abs_mult abs_sgn_eq)
qed

text \<open>\<open>Milliseconds\<close> never overflows: the truncated quotient is exact in 64 bits and
  at most 9223372036854 in absolute value.\<close>

theorem Duration_Milliseconds_exact:
  "sint (Duration_Milliseconds d) = sint d sdiv 1000000 \<and> \<bar>sint (Duration_Milliseconds d)\<bar> \<le> 9223372036854"
proof -
  have b: "\<bar>sint d sdiv 1000000\<bar> \<le> 9223372036854"
    using sint64_range[of d] by (intro sdiv_million_bound)
  then have "sint (Duration_Milliseconds d) = sint d sdiv 1000000"
    unfolding Duration_Milliseconds_def by (intro sint_word_of_int_in_range) auto
  with b show ?thesis by simp
qed

lemma Duration_Milliseconds_nonneg:
  "0 \<le> sint d \<Longrightarrow> sint (Duration_Milliseconds d) = sint d div 1000000"
  using Duration_Milliseconds_exact[of d] by (auto simp: signed_divide_int_def sgn_if)

end
