(* ===== verification/Formatter.thy ===== *)
theory Formatter
  imports Go_Time
begin

text \<open>
  The formatting half of \<open>logMessage\<close>, common to every spinner variant of the logger
  (\<open>src/unnamed/part_001\<close> lines 128--166, and its copies in \<open>src/main.go\<close>,
  \<open>part_002\<close>, \<open>part_003\<close>, \<open>part_004\<close>).  The Go code keeps three locals and updates them
  block by block: the display parts \<open>logParts\<close>, the spinner's \<open>s.Suffix\<close> (re-assigned
  after every block, so the user sees the line grow), and the JSON record \<open>jsoner\<close>.
  The record \<open>fmt_state\<close> holds them, with the sequence of values assigned to
  \<open>s.Suffix\<close> kept as a list; one definition per block of the source; \<open>format_log\<close>
  composes them in the source's order.  \<open>log_fields\<close> is the abstract view: the
  optional fields of a call, in order, which both the display line and the record show.
  The properties: the record and the display parts as functions of the call, the growth of
  the spinner's text, the duration as the elapsed milliseconds with its 64-bit bounds, and
  the specification's 250 ms scenario.
\<close>

section \<open>Levels, options, records\<close>

datatype level = INFO | WARN | FATAL | PANIC

primrec level_name :: "level \<Rightarrow> string" where
  "level_name INFO = ''INFO''"
| "level_name WARN = ''WARN''"
| "level_name FATAL = ''FATAL''"
| "level_name PANIC = ''PANIC''"

text \<open>\<open>LogOptions\<close>: the fields every variant has; the variants with file logging extend it.\<close>

record LogOptions =
  StartTime :: Time
  Process :: string
  User :: string

definition zero_LogOptions :: LogOptions where
  "zero_LogOptions = \<lparr>StartTime = zero_Time, Process = [], User = []\<rparr>"

text \<open>\<open>logToJSON\<close>, whose fields carry the JSON tags \<open>time\<close>, \<open>level\<close>,
  \<open>process,omitempty\<close>, \<open>duration,omitempty\<close>, \<open>user,omitempty\<close> and \<open>message\<close>.\<close>

record logToJSON =
  lj_ClosingTime :: string
  lj_Level :: string
  lj_Process :: string
  lj_Duration :: string
  lj_User :: string
  lj_Message :: string

definition zero_logToJSON :: logToJSON where
  "zero_logToJSON = \<lparr>lj_ClosingTime = [], lj_Level = [], lj_Process = [], lj_Duration = [],
                     lj_User = [], lj_Message = []\<rparr>"

text \<open>The members \<open>encoding/json\<close> emits for a \<open>logToJSON\<close>, in field order, an
  \<open>omitempty\<close> field left out when it is the empty string.\<close>

definition logToJSON_fields :: "logToJSON \<Rightarrow> (string \<times> string) list" where
  "logToJSON_fields j =
     [(''time'', lj_ClosingTime j), (''level'', lj_Level j)]
     @ (if lj_Process j = [] then [] else [(''process'', lj_Process j)])
     @ (if lj_Duration j = [] then [] else [(''duration'', lj_Duration j)])
     @ (if lj_User j = [] then [] else [(''user'', lj_User j)])
     @ [(''message'', lj_Message j)]"

section \<open>The clock\<close>

text \<open>
  \<open>logMessage\<close> reads \<open>time.Now()\<close> three times: \<open>startingTime\<close> (the spinner's
  prefix), \<open>currentTime\<close> (the end of the measured duration, read only when a start
  time is given) and \<open>closingTime\<close> (the record's time and the final line).  The model
  takes the three readings as the call's input.
\<close>

record clock =
  clk_starting :: Time
  clk_current :: Time
  clk_closing :: Time

section \<open>The formatting blocks\<close>

record fmt_state =
  logParts :: "string list"
  suffixes :: "string list"
  jsoner :: logToJSON

text \<open>\<open>fmt.Sprintf("%d ms", currentTime.Sub(opts.StartTime).Milliseconds())\<close>.\<close>

definition duration_text :: "Time \<Rightarrow> Time \<Rightarrow> string" where
  "duration_text now start = fmt_int (sint (Duration_Milliseconds (Time_Sub now start))) @ '' ms''"

definition level_part :: "level \<Rightarrow> string" where
  "level_part lv = '' ['' @ level_name lv @ '']''"

text \<open>Appending a part and re-assigning \<open>s.Suffix = strings.Join(logParts, " | ")\<close>.\<close>

definition add_part :: "string \<Rightarrow> fmt_state \<Rightarrow> fmt_state" where
  "add_part p st =
     (let ps = logParts st @ [p] in st\<lparr>logParts := ps, suffixes := suffixes st @ [strings_Join ps '' | '']\<rparr>)"

text \<open>\<open>logParts := []string{" [LEVEL]"}; s.Suffix = logParts[0]; jsoner.Level = level\<close>.\<close>

definition fmt_level :: "level \<Rightarrow> fmt_state" where
  "fmt_level lv = \<lparr>logParts = [level_part lv], suffixes = [level_part lv],
                   jsoner = zero_logToJSON\<lparr>lj_Level := level_name lv\<rparr>\<rparr>"

definition fmt_process :: "'a LogOptions_scheme \<Rightarrow> fmt_state \<Rightarrow> fmt_state" where
  "fmt_process opts st =
     (if Process opts \<noteq> [] then
        (add_part (Process opts) st)\<lparr>jsoner := (jsoner st)\<lparr>lj_Process := Process opts\<rparr>\<rparr>
      else st)"

definition fmt_duration :: "'a LogOptions_scheme \<Rightarrow> Time \<Rightarrow> fmt_state \<Rightarrow> fmt_state" where
  "fmt_duration opts now st =
     (if \<not> Time_IsZero (StartTime opts) then
        (let duration = duration_text now (StartTime opts)
         in (add_part duration st)\<lparr>jsoner := (jsoner st)\<lparr>lj_Duration := duration\<rparr>\<rparr>)
      else st)"

definition fmt_user :: "'a LogOptions_scheme \<Rightarrow> fmt_state \<Rightarrow> fmt_state" where
  "fmt_user opts st =
     (if User opts \<noteq> [] then
        (add_part (User opts) st)\<lparr>jsoner := (jsoner st)\<lparr>lj_User := User opts\<rparr>\<rparr>
      else st)"

definition fmt_message :: "string \<Rightarrow> fmt_state \<Rightarrow> fmt_state" where
  "fmt_message message st = (add_part message st)\<lparr>jsoner := (jsoner st)\<lparr>lj_Message := message\<rparr>\<rparr>"

definition fmt_closing :: "Time \<Rightarrow> fmt_state \<Rightarrow> fmt_state" where
  "fmt_closing closing st = st\<lparr>jsoner := (jsoner st)\<lparr>lj_ClosingTime := Time_Format closing\<rparr>\<rparr>"

definition format_log :: "level \<Rightarrow> string \<Rightarrow> 'a LogOptions_scheme \<Rightarrow> clock \<Rightarrow> fmt_state" where
  "format_log lv message opts clk =
     fmt_closing (clk_closing clk)
       (fmt_message message
         (fmt_user opts
           (fmt_duration opts (clk_current clk)
             (fmt_process opts (fmt_level lv)))))"

section \<open>The abstract view\<close>

text \<open>The optional fields of a call, in the order the code adds them.\<close>

definition log_fields :: "'a LogOptions_scheme \<Rightarrow> Time \<Rightarrow> (string \<times> string) list" where
  "log_fields opts now =
     (if Process opts \<noteq> [] then [(''process'', Process opts)] else [])
     @ (if \<not> Time_IsZero (StartTime opts) then [(''duration'', duration_text now (StartTime opts))] else [])
     @ (if User opts \<noteq> [] then [(''user'', User opts)] else [])"

text \<open>What the spinner shows: after each block, the join of the parts so far.\<close>

definition prefix_joins :: "string list \<Rightarrow> string list" where
  "prefix_joins ps = map (\<lambda>k. strings_Join (take k ps) '' | '') [1..<Suc (length ps)]"

definition suffix_inv :: "fmt_state \<Rightarrow> bool" where
  "suffix_inv st \<longleftrightarrow> logParts st \<noteq> [] \<and> suffixes st = prefix_joins (logParts st)"

section \<open>Lemmas on the blocks\<close>

lemmas fmt_block_defs = fmt_level_def fmt_process_def fmt_duration_def fmt_user_def
  fmt_message_def fmt_closing_def add_part_def

lemma duration_text_nonempty [simp]: "duration_text now start \<noteq> []"
  by (simp add: duration_text_def)

lemma prefix_joins_snoc:
  "prefix_joins (ps @ [p]) = prefix_joins ps @ [strings_Join (ps @ [p]) '' | '']"
proof -
  have "map (\<lambda>k. strings_Join (take k (ps @ [p])) '' | '') [1..<Suc (length ps)] = prefix_joins ps"
    by (auto simp: prefix_joins_def)
  then show ?thesis
    by (simp add: prefix_joins_def del: strings_Join_snoc)
qed

lemma add_part_suffix_inv: "suffix_inv st \<Longrightarrow> suffix_inv (add_part p st)"
  by (simp add: suffix_inv_def add_part_def prefix_joins_snoc Let_def del: strings_Join_snoc)

lemma fmt_blocks_suffix_inv:
  "suffix_inv (fmt_level lv)"
  "suffix_inv st \<Longrightarrow> suffix_inv (fmt_process opts st)"
  "suffix_inv st \<Longrightarrow> suffix_inv (fmt_duration opts now st)"
  "suffix_inv st \<Longrightarrow> suffix_inv (fmt_user opts st)"
  "suffix_inv st \<Longrightarrow> suffix_inv (fmt_message m st)"
  "suffix_inv st \<Longrightarrow> suffix_inv (fmt_closing c st)"
  using add_part_suffix_inv[of st]
  by (auto simp: fmt_level_def fmt_process_def fmt_duration_def fmt_user_def fmt_message_def
      fmt_closing_def Let_def suffix_inv_def prefix_joins_def add_part_def)

lemma fmt_blocks_logParts:
  "logParts (fmt_level lv) = [level_part lv]"
  "logParts (fmt_process opts st) = logParts st @ (if Process opts \<noteq> [] then [Process opts] else [])"
  "logParts (fmt_duration opts now st) = logParts st
     @ (if \<not> Time_IsZero (StartTime opts) then [duration_text now (StartTime opts)] else [])"
  "logParts (fmt_user opts st) = logParts st @ (if User opts \<noteq> [] then [User opts] else [])"
  "logParts (fmt_message m st) = logParts st @ [m]"
  "logParts (fmt_closing c st) = logParts st"
  by (simp_all add: fmt_block_defs Let_def)

lemma fmt_blocks_jsoner:
  "jsoner (fmt_level lv) = zero_logToJSON\<lparr>lj_Level := level_name lv\<rparr>"
  "jsoner (fmt_process opts st) =
     (if Process opts \<noteq> [] then (jsoner st)\<lparr>lj_Process := Process opts\<rparr> else jsoner st)"
  "jsoner (fmt_duration opts now st) =
     (if \<not> Time_IsZero (StartTime opts)
      then (jsoner st)\<lparr>lj_Duration := duration_text now (StartTime opts)\<rparr> else jsoner st)"
  "jsoner (fmt_user opts st) =
     (if User opts \<noteq> [] then (jsoner st)\<lparr>lj_User := User opts\<rparr> else jsoner st)"
  "jsoner (fmt_message m st) = (jsoner st)\<lparr>lj_Message := m\<rparr>"
  "jsoner (fmt_closing c st) = (jsoner st)\<lparr>lj_ClosingTime := Time_Format c\<rparr>"
  by (simp_all add: fmt_block_defs Let_def)

lemma format_log_level_part:
  "logParts (format_log lv msg opts clk) = level_part lv # tl (logParts (format_log lv msg opts clk))"
  by (simp add: format_log_def fmt_blocks_logParts)

lemma format_log_jsoner_level: "lj_Level (jsoner (format_log lv msg opts clk)) = level_name lv"
  by (simp add: format_log_def fmt_blocks_jsoner zero_logToJSON_def)

section \<open>Properties of the formatter\<close>

text \<open>C2: the display parts of \<open>logMessage\<close> are the level tag, then the optional fields
  (process, duration, user) in that order and only when set, then the message last.\<close>

theorem format_log_parts:
  "logParts (format_log lv msg opts clk) = level_part lv # map snd (log_fields opts (clk_current clk)) @ [msg]"
  by (simp add: format_log_def fmt_blocks_logParts log_fields_def)

text \<open>C1: the JSON record of \<open>logMessage\<close> has the closing time and the level, exactly
  the optional fields the display shows (a field is present iff its option is set, never as
  an empty member), and the message.\<close>

theorem format_log_record:
  "logToJSON_fields (jsoner (format_log lv msg opts clk)) =
     [(''time'', Time_Format (clk_closing clk)), (''level'', level_name lv)]
     @ log_fields opts (clk_current clk) @ [(''message'', msg)]"
  by (simp add: format_log_def fmt_blocks_jsoner logToJSON_fields_def log_fields_def zero_logToJSON_def)

text \<open>C3: the spinner's text grows part by part: the values assigned to \<open>s.Suffix\<close> are the
  joins of the successive prefixes of the final parts, the last one being the whole line.\<close>

theorem format_log_spinner:
  "suffixes (format_log lv msg opts clk) = prefix_joins (logParts (format_log lv msg opts clk))"
proof -
  have "suffix_inv (format_log lv msg opts clk)"
    unfolding format_log_def by (intro fmt_blocks_suffix_inv)+
  then show ?thesis by (simp add: suffix_inv_def)
qed

lemma last_prefix_joins: "ps \<noteq> [] \<Longrightarrow> last (prefix_joins ps) = strings_Join ps '' | ''"
  by (cases ps) (simp_all add: prefix_joins_def)

text \<open>C4: the duration text is the elapsed time between the two readings (monotonic when
  both have one, wall clock otherwise, saturated to the range of \<open>time.Duration\<close>) in
  whole milliseconds truncated toward zero, printed in decimal and followed by \<open>" ms"\<close>.\<close>

theorem duration_text_elapsed:
  "duration_text now start = fmt_int (elapsed_ns now start sdiv 1000000) @ '' ms''"
  by (simp add: duration_text_def Duration_Milliseconds_exact Time_Sub_elapsed)

text \<open>C18: the duration field is a decimal number of milliseconds that always fits
  \<open>int64\<close> (at most 9223372036854 in absolute value, since \<open>Milliseconds\<close> divides a saturated
  \<open>Duration\<close>), and it is never negative when the start reading is not after the current one
  (the specification's "non-negative when start_time <= now").\<close>

theorem duration_text_bounds:
  "\<exists>n. duration_text now start = fmt_int n @ '' ms'' \<and> \<bar>n\<bar> \<le> 9223372036854
      \<and> (Time_not_after start now \<and> t_nsec now < 1000000000 \<and> t_nsec start < 1000000000 \<longrightarrow> 0 \<le> n)"
proof (intro exI conjI impI)
  let ?d = "Time_Sub now start"
  show "duration_text now start = fmt_int (sint (Duration_Milliseconds ?d)) @ '' ms''"
    by (simp add: duration_text_def)
  show "\<bar>sint (Duration_Milliseconds ?d)\<bar> \<le> 9223372036854"
    using Duration_Milliseconds_exact by blast
  assume "Time_not_after start now \<and> t_nsec now < 1000000000 \<and> t_nsec start < 1000000000"
  then have "0 \<le> sint ?d" by (simp add: Time_Sub_elapsed elapsed_ns_nonneg)
  then show "0 \<le> sint (Duration_Milliseconds ?d)" by (simp add: Duration_Milliseconds_nonneg)
qed

text \<open>C19: the specification's scenario: a \<open>Warn("slow")\<close> call with process \<open>P\<close> and a
  start time 250 ms before the current reading records process \<open>P\<close>, duration
  \<open>"250 ms"\<close> and level \<open>WARN\<close>.\<close>

theorem format_log_scenario_250ms:
  assumes "\<not> Time_IsZero t0" and "elapsed_ns (clk_current clk) t0 = 250000000"
  shows "lj_Process (jsoner (format_log WARN ''slow'' (zero_LogOptions\<lparr>StartTime := t0, Process := ''P''\<rparr>) clk)) = ''P''
       \<and> lj_Duration (jsoner (format_log WARN ''slow'' (zero_LogOptions\<lparr>StartTime := t0, Process := ''P''\<rparr>) clk)) = ''250 ms''
       \<and> lj_Level (jsoner (format_log WARN ''slow'' (zero_LogOptions\<lparr>StartTime := t0, Process := ''P''\<rparr>) clk)) = ''WARN''"
proof -
  have "fmt_int 250 = ''250''" by code_simp
  then have "duration_text (clk_current clk) t0 = ''250 ms''"
    using assms(2) by (simp add: duration_text_def Duration_Milliseconds_exact Time_Sub_elapsed
                                 signed_divide_int_def)
  with assms(1) show ?thesis
    by (simp add: format_log_def fmt_blocks_jsoner zero_LogOptions_def zero_logToJSON_def)
qed

section \<open>Concrete instances\<close>

theorem duration_text_bounds_witness:
  "\<exists>n. duration_text \<lparr>t_sec = 5, t_nsec = 0, t_mono = None, t_offset = 0\<rparr> \<lparr>t_sec = 2, t_nsec = 0, t_mono = None, t_offset = 0\<rparr>
        = fmt_int n @ '' ms'' \<and> \<bar>n\<bar> \<le> 9223372036854 \<and> 0 \<le> n"
  using duration_text_bounds[of "\<lparr>t_sec = 5, t_nsec = 0, t_mono = None, t_offset = 0\<rparr>"
                                 "\<lparr>t_sec = 2, t_nsec = 0, t_mono = None, t_offset = 0\<rparr>"]
  by (simp add: Time_not_after_def)

theorem format_log_scenario_250ms_witness:
  "lj_Process (jsoner (format_log WARN ''slow'' (zero_LogOptions\<lparr>StartTime := \<lparr>t_sec = 1, t_nsec = 0, t_mono = None, t_offset = 0\<rparr>, Process := ''P''\<rparr>) \<lparr>clk_starting = \<lparr>t_sec = 1, t_nsec = 0, t_mono = None, t_offset = 0\<rparr>, clk_current = \<lparr>t_sec = 1, t_nsec = 250000000, t_mono = None, t_offset = 0\<rparr>, clk_closing = \<lparr>t_sec = 1, t_nsec = 250000000, t_mono = None, t_offset = 0\<rparr>\<rparr>)) = ''P''
   \<and> lj_Duration (jsoner (format_log WARN ''slow'' (zero_LogOptions\<lparr>StartTime := \<lparr>t_sec = 1, t_nsec = 0, t_mono = None, t_offset = 0\<rparr>, Process := ''P''\<rparr>) \<lparr>clk_starting = \<lparr>t_sec = 1, t_nsec = 0, t_mono = None, t_offset = 0\<rparr>, clk_current = \<lparr>t_sec = 1, t_nsec = 250000000, t_mono = None, t_offset = 0\<rparr>, clk_closing = \<lparr>t_sec = 1, t_nsec = 250000000, t_mono = None, t_offset = 0\<rparr>\<rparr>)) = ''250 ms''
   \<and> lj_Level (jsoner (format_log WARN ''slow'' (zero_LogOptions\<lparr>StartTime := \<lparr>t_sec = 1, t_nsec = 0, t_mono = None, t_offset = 0\<rparr>, Process := ''P''\<rparr>) \<lparr>clk_starting = \<lparr>t_sec = 1, t_nsec = 0, t_mono = None, t_offset = 0\<rparr>, clk_current = \<lparr>t_sec = 1, t_nsec = 250000000, t_mono = None, t_offset = 0\<rparr>, clk_closing = \<lparr>t_sec = 1, t_nsec = 250000000, t_mono = None, t_offset = 0\<rparr>\<rparr>)) = ''WARN''"
  by (rule format_log_scenario_250ms) (simp_all add: Time_IsZero_def elapsed_ns_def clamp_dur_def)

end
