(* ===== verification/Json.thy ===== *)
theory Json
  imports Go_Prelude
begin

text \<open>
  The part of Go's \<open>encoding/json\<close> the logger relies on, for a struct whose fields are
  all strings: \<open>json.Marshal\<close> writes a compact object, \<open>json.MarshalIndent(v, prefix,
  indent)\<close> the same members one per line.  Every string is quoted by \<open>appendString\<close>
  with HTML escaping on (Marshal's default): ASCII control bytes, \<open>"\<close>, \<open>\\\<close>, \<open><\<close>,
  \<open>>\<close> and \<open>&\<close> are escaped, a byte that does not start a valid UTF-8 sequence becomes
  the six bytes \<open>\ufffd\<close>, U+2028 and U+2029 become \<open>\u2028\<close> and \<open>\u2029\<close>, and every other valid
  sequence is copied.  The escapes \<open>\b\<close> and \<open>\f\<close> are those of Go 1.22 and later.

  The decoder (\<open>json_unquote_body\<close>, \<open>parse_object\<close>, \<open>parse_array\<close>) reads the
  JSON this encoder writes, with arbitrary white space; it is the reader a consumer of the
  log file runs, stated here to say what the written bytes mean.
\<close>

section \<open>Bytes and UTF-8\<close>

definition byte_in :: "char \<Rightarrow> nat \<Rightarrow> nat \<Rightarrow> bool" where
  "byte_in c lo hi \<longleftrightarrow> lo \<le> of_char c \<and> of_char c \<le> hi"

abbreviation cont :: "char \<Rightarrow> bool" where
  "cont c \<equiv> byte_in c 0x80 0xBF"

text \<open>The length of the valid UTF-8 sequence that starts the string, as accepted by
  \<open>utf8.DecodeRuneInString\<close>; \<open>0\<close> where it returns \<open>(RuneError, 1)\<close>.\<close>

fun utf8_len :: "string \<Rightarrow> nat" where
  "utf8_len [] = 0"
| "utf8_len (c # cs) =
     (let b = of_char c :: nat in
      if b < 0x80 then 1
      else if 0xC2 \<le> b \<and> b \<le> 0xDF then
        (case cs of c1 # _ \<Rightarrow> if cont c1 then 2 else 0 | _ \<Rightarrow> 0)
      else if 0xE0 \<le> b \<and> b \<le> 0xEF then
        (case cs of
           c1 # c2 # _ \<Rightarrow>
             if byte_in c1 (if b = 0xE0 then 0xA0 else 0x80) (if b = 0xED then 0x9F else 0xBF) \<and> cont c2
             then 3 else 0
         | _ \<Rightarrow> 0)
      else if 0xF0 \<le> b \<and> b \<le> 0xF4 then
        (case cs of
           c1 # c2 # c3 # _ \<Rightarrow>
             if byte_in c1 (if b = 0xF0 then 0x90 else 0x80) (if b = 0xF4 then 0x8F else 0xBF)
                \<and> cont c2 \<and> cont c3
             then 4 else 0
         | _ \<Rightarrow> 0)
      else 0)"

declare utf8_len.simps [simp del]

section \<open>Encoding\<close>

definition hex_digit :: "nat \<Rightarrow> char" where
  "hex_digit d = ''0123456789abcdef'' ! d"

text \<open>\<open>htmlSafeSet\<close>: the printable ASCII bytes but \<open>"\<close>, \<open>\\\<close>, \<open><\<close>, \<open>>\<close>, \<open>&\<close>.\<close>

definition html_safe :: "char \<Rightarrow> bool" where
  "html_safe c \<longleftrightarrow> byte_in c 0x20 0x7F \<and> c \<notin> {CHR 0x22, CHR 0x5C, CHR 0x3C, CHR 0x3E, CHR 0x26}"

text \<open>The escape of one ASCII byte (the \<open>b < utf8.RuneSelf\<close> branch of \<open>appendString\<close>).\<close>

definition escape_ascii :: "char \<Rightarrow> string" where
  "escape_ascii c =
     (if html_safe c then [c]
      else if c = CHR 0x5C \<or> c = CHR 0x22 then [CHR 0x5C, c]
      else if c = CHR 0x08 then [CHR 0x5C, CHR ''b'']
      else if c = CHR 0x0C then [CHR 0x5C, CHR ''f'']
      else if c = CHR 0x0A then [CHR 0x5C, CHR ''n'']
      else if c = CHR 0x0D then [CHR 0x5C, CHR ''r'']
      else if c = CHR 0x09 then [CHR 0x5C, CHR ''t'']
      else [CHR 0x5C, CHR ''u'', CHR ''0'', CHR ''0'',
            hex_digit (of_char c div 16), hex_digit (of_char c mod 16)])"

definition is_line_sep :: "string \<Rightarrow> bool" where
  "is_line_sep s \<longleftrightarrow> take 2 s = [CHR 0xE2, CHR 0x80] \<and> (s ! 2 = CHR 0xA8 \<or> s ! 2 = CHR 0xA9)"

text \<open>The loop of \<open>appendString\<close>, one ASCII byte or one UTF-8 sequence at a time.\<close>

function json_escape :: "string \<Rightarrow> string" where
  "json_escape [] = []"
| "json_escape (c # cs) =
     (if of_char c < (0x80::nat) then escape_ascii c @ json_escape cs
      else if utf8_len (c # cs) = 0 then [CHR 0x5C] @ ''ufffd'' @ json_escape cs
      else if utf8_len (c # cs) = 3 \<and> is_line_sep (c # cs)
      then [CHR 0x5C] @ ''u202'' @ [hex_digit (of_char (cs ! 1) mod 16)] @ json_escape (drop 2 cs)
      else c # take (utf8_len (c # cs) - 1) cs @ json_escape (drop (utf8_len (c # cs) - 1) cs))"
  by pat_completeness auto
termination
  by (relation "measure length") auto

definition json_quote :: "string \<Rightarrow> string" where
  "json_quote s = CHR 0x22 # json_escape s @ [CHR 0x22]"

text \<open>\<open>json.Marshal\<close> of a struct of strings: \<open>{"k1":"v1","k2":"v2"}\<close>.\<close>

definition json_member :: "string \<times> string \<Rightarrow> string" where
  "json_member kv = json_quote (fst kv) @ '':'' @ json_quote (snd kv)"

definition json_Marshal :: "(string \<times> string) list \<Rightarrow> string" where
  "json_Marshal fs = ''{'' @ strings_Join (map json_member fs) '','' @ ''}''"

text \<open>\<open>json.MarshalIndent(v, prefix, indent)\<close> of the same struct: each member on its own
  line after \<open>prefix\<close> and one \<open>indent\<close>, a space after each colon, the closing brace
  on a line of its own after \<open>prefix\<close>; the first line has no prefix.\<close>

definition json_member_indent :: "string \<Rightarrow> string \<times> string \<Rightarrow> string" where
  "json_member_indent lead kv = ''\<newline>'' @ lead @ json_quote (fst kv) @ '': '' @ json_quote (snd kv)"

definition json_MarshalIndent :: "string \<Rightarrow> string \<Rightarrow> (string \<times> string) list \<Rightarrow> string" where
  "json_MarshalIndent prefix indent fs =
     (if fs = [] then ''{}''
      else ''{'' @ strings_Join (map (json_member_indent (prefix @ indent)) fs) '','' @ ''\<newline>'' @ prefix @ ''}'')"

section \<open>What the bytes mean: sanitising and decoding\<close>

text \<open>The string the encoded bytes stand for: each byte that starts no valid UTF-8
  sequence replaced by U+FFFD (\<open>EF BF BD\<close>), every valid sequence kept.\<close>

definition replacement_char :: string where
  "replacement_char = [CHR 0xEF, CHR 0xBF, CHR 0xBD]"

function utf8_sanitize :: "string \<Rightarrow> string" where
  "utf8_sanitize [] = []"
| "utf8_sanitize (c # cs) =
     (if of_char c < (0x80::nat) then c # utf8_sanitize cs
      else if utf8_len (c # cs) = 0 then replacement_char @ utf8_sanitize cs
      else c # take (utf8_len (c # cs) - 1) cs @ utf8_sanitize (drop (utf8_len (c # cs) - 1) cs))"
  by pat_completeness auto
termination
  by (relation "measure length") auto

function utf8_valid :: "string \<Rightarrow> bool" where
  "utf8_valid [] = True"
| "utf8_valid (c # cs) = (utf8_len (c # cs) \<noteq> 0 \<and> utf8_valid (drop (utf8_len (c # cs) - 1) cs))"
  by pat_completeness auto
termination
  by (relation "measure length") auto

definition json_ws :: "char \<Rightarrow> bool" where
  "json_ws c \<longleftrightarrow> c \<in> {CHR 0x20, CHR 0x09, CHR 0x0A, CHR 0x0D}"

definition skip_ws :: "string \<Rightarrow> string" where
  "skip_ws s = dropWhile json_ws s"

definition hex_val :: "char \<Rightarrow> nat option" where
  "hex_val c =
     (let b = of_char c :: nat in
      if 48 \<le> b \<and> b \<le> 57 then Some (b - 48)
      else if 97 \<le> b \<and> b \<le> 102 then Some (b - 87)
      else if 65 \<le> b \<and> b \<le> 70 then Some (b - 55)
      else None)"

text \<open>UTF-8 of a code point of the Basic Multilingual Plane.\<close>

definition utf8_encode :: "nat \<Rightarrow> string" where
  "utf8_encode cp =
     (if cp < 0x80 then [char_of cp]
      else if cp < 0x800 then [char_of (0xC0 + cp div 64), char_of (0x80 + cp mod 64)]
      else [char_of (0xE0 + cp div 4096), char_of (0x80 + cp div 64 mod 64), char_of (0x80 + cp mod 64)])"

text \<open>\<open>\uXXXX\<close>: the UTF-8 of the code point; a lone surrogate reads as U+FFFD.\<close>

definition unicode_escape :: "char \<Rightarrow> char \<Rightarrow> char \<Rightarrow> char \<Rightarrow> string option" where
  "unicode_escape a b c d =
     (case (hex_val a, hex_val b, hex_val c, hex_val d) of
        (Some x1, Some x2, Some x3, Some x4) \<Rightarrow>
          (let cp = 4096 * x1 + 256 * x2 + 16 * x3 + x4
           in Some (if 0xD800 \<le> cp \<and> cp \<le> 0xDFFF then replacement_char else utf8_encode cp))
      | _ \<Rightarrow> None)"

definition simple_escape :: "char \<Rightarrow> char option" where
  "simple_escape e =
     (if e = CHR 0x22 \<or> e = CHR 0x5C \<or> e = CHR ''/'' then Some e
      else if e = CHR ''b'' then Some (CHR 0x08)
      else if e = CHR ''f'' then Some (CHR 0x0C)
      else if e = CHR ''n'' then Some (CHR 0x0A)
      else if e = CHR ''r'' then Some (CHR 0x0D)
      else if e = CHR ''t'' then Some (CHR 0x09)
      else None)"

definition prepend :: "string \<Rightarrow> (string \<times> string) option \<Rightarrow> (string \<times> string) option" where
  "prepend x r = map_option (\<lambda>(v, rest). (x @ v, rest)) r"

text \<open>The body of a string literal, after its opening quote: the decoded string and
  what follows the closing quote.\<close>

fun json_unquote_body :: "string \<Rightarrow> (string \<times> string) option" where
  "json_unquote_body [] = None"
| "json_unquote_body (c # cs) =
     (if c = CHR 0x22 then Some ([], cs)
      else if c = CHR 0x5C then
        (case cs of
           [] \<Rightarrow> None
         | e # rest \<Rightarrow>
             (case simple_escape e of
                Some x \<Rightarrow> prepend [x] (json_unquote_body rest)
              | None \<Rightarrow>
                  if e = CHR ''u'' then
                    (case rest of
                       a # b # c' # d # rest' \<Rightarrow>
                         (case unicode_escape a b c' d of
                            Some u \<Rightarrow> prepend u (json_unquote_body rest')
                          | None \<Rightarrow> None)
                     | _ \<Rightarrow> None)
                  else None))
      else if of_char c < (0x20::nat) then None
      else prepend [c] (json_unquote_body cs))"

definition parse_string :: "string \<Rightarrow> (string \<times> string) option" where
  "parse_string s = (case skip_ws s of c # r \<Rightarrow> if c = CHR 0x22 then json_unquote_body r else None | [] \<Rightarrow> None)"

text \<open>The members of an object after its \<open>{\<close>, up to and including the \<open>}\<close>; the
  fuel bounds the number of members (the length of the text is always enough).\<close>

fun parse_members :: "nat \<Rightarrow> string \<Rightarrow> ((string \<times> string) list \<times> string) option" where
  "parse_members 0 s = None"
| "parse_members (Suc n) s =
     (case parse_string s of
        None \<Rightarrow> None
      | Some (k, r1) \<Rightarrow>
          (case skip_ws r1 of
             [] \<Rightarrow> None
           | c # r2 \<Rightarrow>
               if c \<noteq> CHR '':'' then None
               else (case parse_string r2 of
                       None \<Rightarrow> None
                     | Some (v, r3) \<Rightarrow>
                         (case skip_ws r3 of
                            [] \<Rightarrow> None
                          | d # r4 \<Rightarrow>
                              if d = CHR '','' then map_option (\<lambda>(ms, r). ((k, v) # ms, r)) (parse_members n r4)
                              else if d = CHR ''}'' then Some ([(k, v)], r4)
                              else None))))"

definition parse_object :: "string \<Rightarrow> ((string \<times> string) list \<times> string) option" where
  "parse_object s =
     (case skip_ws s of
        c # r \<Rightarrow>
          if c \<noteq> CHR ''{'' then None
          else (case skip_ws r of d # r' \<Rightarrow> if d = CHR ''}'' then Some ([], r') else parse_members (length r) r
                | [] \<Rightarrow> None)
      | [] \<Rightarrow> None)"

text \<open>The elements of an array of objects after its \<open>[\<close>, up to and including the \<open>]\<close>.\<close>

fun parse_elements :: "nat \<Rightarrow> string \<Rightarrow> ((string \<times> string) list list \<times> string) option" where
  "parse_elements 0 s = None"
| "parse_elements (Suc n) s =
     (case parse_object s of
        None \<Rightarrow> None
      | Some (o1, r1) \<Rightarrow>
          (case skip_ws r1 of
             [] \<Rightarrow> None
           | d # r2 \<Rightarrow>
               if d = CHR '','' then map_option (\<lambda>(os, r). (o1 # os, r)) (parse_elements n r2)
               else if d = CHR '']'' then Some ([o1], r2)
               else None))"

text \<open>A whole document that is one array of objects of strings, white space around it.\<close>

definition parse_array :: "string \<Rightarrow> (string \<times> string) list list option" where
  "parse_array s =
     (case skip_ws s of
        c # r \<Rightarrow>
          if c \<noteq> CHR ''['' then None
          else (case skip_ws r of
                  d # r' \<Rightarrow>
                    if d = CHR '']'' then (if skip_ws r' = [] then Some [] else None)
                    else (case parse_elements (length s) r of
                            Some (os, rest) \<Rightarrow> if skip_ws rest = [] then Some os else None
                          | None \<Rightarrow> None)
                | [] \<Rightarrow> None)
      | [] \<Rightarrow> None)"

section \<open>Decoding what the encoder writes\<close>

lemma prepend_prepend [simp]: "prepend x (prepend y r) = prepend (x @ y) r"
  by (cases r) (auto simp: prepend_def)

lemma prepend_Nil [simp]: "prepend [] r = r"
  by (cases r) (auto simp: prepend_def)

lemma high_byte_plain:
  "(0x80::nat) \<le> of_char c \<Longrightarrow> c \<noteq> CHR 0x22 \<and> c \<noteq> CHR 0x5C \<and> \<not> of_char c < (0x20::nat)"
  by auto

lemma json_unquote_body_high:
  "\<forall>x\<in>set xs. (0x80::nat) \<le> of_char x \<Longrightarrow> json_unquote_body (xs @ r) = prepend xs (json_unquote_body r)"
proof (induction xs)
  case Nil
  then show ?case by simp
next
  case (Cons x xs)
  then have "x \<noteq> CHR 0x22" "x \<noteq> CHR 0x5C" "\<not> of_char x < (0x20::nat)"
    using high_byte_plain[of x] by auto
  with Cons show ?case by simp
qed

lemma hex_val_hex_digit: "d < 16 \<Longrightarrow> hex_val (hex_digit d) = Some d"
proof -
  assume "d < 16"
  then have "d \<in> {0,1,2,3,4,5,6,7,8,9,10,11,12,13,14,15}" by (simp; presburger)
  then show ?thesis by (auto simp: hex_val_def hex_digit_def)
qed

lemma utf8_len_high_tail:
  assumes "utf8_len (c # cs) = n" "0 < n" "(0x80::nat) \<le> of_char c"
  shows "n - 1 \<le> length cs \<and> (\<forall>x\<in>set (take (n - 1) cs). (0x80::nat) \<le> of_char x)"
  using assms
  by (auto simp: utf8_len.simps Let_def byte_in_def split: if_splits list.splits)


lemma unicode_escape_ascii:
  assumes "of_char c < (0x80::nat)"
  shows "unicode_escape (CHR ''0'') (CHR ''0'') (hex_digit (of_char c div 16)) (hex_digit (of_char c mod 16)) = Some [c]"
proof -
  define b where "b = (of_char c :: nat)"
  have h: "hex_val (hex_digit (b div 16)) = Some (b div 16)" "hex_val (hex_digit (b mod 16)) = Some (b mod 16)"
    using assms by (simp_all add: hex_val_hex_digit b_def)
  have "16 * (b div 16) + b mod 16 = b" by simp
  moreover have "b < 0x80" using assms by (simp add: b_def)
  ultimately show ?thesis
    using h by (simp add: unicode_escape_def hex_val_def utf8_encode_def b_def)
qed

lemma unicode_escape_fffd:
  "unicode_escape (CHR ''f'') (CHR ''f'') (CHR ''f'') (CHR ''d'') = Some replacement_char"
  by (simp add: unicode_escape_def hex_val_def utf8_encode_def replacement_char_def char_of_def bit_simps)

lemma json_unquote_fffd:
  "json_unquote_body (CHR 0x5C # CHR ''u'' # CHR ''f'' # CHR ''f'' # CHR ''f'' # CHR ''d'' # r)
     = prepend replacement_char (json_unquote_body r)"
  by (simp add: simple_escape_def unicode_escape_fffd)

lemma json_unquote_escape_ascii:
  assumes "of_char c < (0x80::nat)"
  shows "json_unquote_body (escape_ascii c @ r) = prepend [c] (json_unquote_body r)"
proof (cases "html_safe c")
  case True
  then show ?thesis by (auto simp: escape_ascii_def html_safe_def byte_in_def)
next
  case False
  note u = unicode_escape_ascii[OF assms]
  show ?thesis
    using False u by (auto simp: escape_ascii_def simple_escape_def)
qed

lemma json_unquote_line_sep:
  assumes "is_line_sep (c # cs)" "utf8_len (c # cs) = 3"
  shows "json_unquote_body (CHR 0x5C # CHR ''u'' # CHR ''2'' # CHR ''0'' # CHR ''2''
            # hex_digit (of_char (cs ! 1) mod 16) # r) = prepend (c # take 2 cs) (json_unquote_body r)"
proof -
  have "(0x80::nat) \<le> of_char c" using assms(1) by (simp add: is_line_sep_def)
  then have "2 \<le> length cs" using utf8_len_high_tail[OF assms(2)] by simp
  then obtain x0 x1 rest where cs: "cs = x0 # x1 # rest"
    by (cases cs; cases "tl cs") auto
  with assms(1) have c: "c = CHR 0xE2" "x0 = CHR 0x80" "x1 = CHR 0xA8 \<or> x1 = CHR 0xA9"
    by (auto simp: is_line_sep_def)
  show ?thesis
    using c by (auto simp: cs simple_escape_def unicode_escape_def hex_val_def hex_digit_def
        utf8_encode_def char_of_def bit_simps)
qed

lemma json_unquote_json_escape:
  "json_unquote_body (json_escape s @ CHR 0x22 # r) = Some (utf8_sanitize s, r)"
proof (induction s rule: json_escape.induct)
  case 1
  then show ?case by simp
next
  case (2 c cs)
  consider (ascii) "of_char c < (0x80::nat)"
    | (invalid) "\<not> of_char c < (0x80::nat)" "utf8_len (c # cs) = 0"
    | (sep) "\<not> of_char c < (0x80::nat)" "utf8_len (c # cs) \<noteq> 0" "utf8_len (c # cs) = 3 \<and> is_line_sep (c # cs)"
    | (multi) "\<not> of_char c < (0x80::nat)" "utf8_len (c # cs) \<noteq> 0" "\<not> (utf8_len (c # cs) = 3 \<and> is_line_sep (c # cs))"
    by blast
  then show ?case
  proof cases
    case ascii
    with "2.IH"(1) show ?thesis by (simp add: json_unquote_escape_ascii prepend_def)
  next
    case invalid
    with "2.IH"(2) show ?thesis by (simp add: json_unquote_fffd prepend_def del: json_unquote_body.simps)
  next
    case sep
    then have ls: "is_line_sep (c # cs)" "utf8_len (c # cs) = 3" by auto
    have e: "json_escape (c # cs) = CHR 0x5C # CHR ''u'' # CHR ''2'' # CHR ''0'' # CHR ''2''
               # hex_digit (of_char (cs ! 1) mod 16) # json_escape (drop 2 cs)"
      using sep by simp
    have sa: "utf8_sanitize (c # cs) = c # take 2 cs @ utf8_sanitize (drop 2 cs)"
      using sep by simp
    show ?thesis
      unfolding e sa
      using json_unquote_line_sep[OF ls, of "json_escape (drop 2 cs) @ CHR 0x22 # r"] "2.IH"(3) sep
      by (simp add: prepend_def del: json_unquote_body.simps)
  next
    case multi
    have hi: "\<forall>x\<in>set (c # take (utf8_len (c # cs) - 1) cs). (0x80::nat) \<le> of_char x"
      using multi utf8_len_high_tail[of c cs "utf8_len (c # cs)"] by auto
    have e: "json_escape (c # cs) = c # take (utf8_len (c # cs) - 1) cs @ json_escape (drop (utf8_len (c # cs) - 1) cs)"
      by (simp only: json_escape.simps(2) if_not_P[OF multi(1)] if_not_P[OF multi(2)] if_not_P[OF multi(3)])
    have sa: "utf8_sanitize (c # cs) = c # take (utf8_len (c # cs) - 1) cs @ utf8_sanitize (drop (utf8_len (c # cs) - 1) cs)"
      by (simp only: utf8_sanitize.simps(2) if_not_P[OF multi(1)] if_not_P[OF multi(2)])
    show ?thesis
      unfolding e sa
      using json_unquote_body_high[OF hi, of "json_escape (drop (utf8_len (c # cs) - 1) cs) @ CHR 0x22 # r"]
        "2.IH"(4)[OF multi]
      by (simp add: prepend_def del: json_unquote_body.simps)
  qed
qed

lemma utf8_sanitize_valid: "utf8_valid s \<Longrightarrow> utf8_sanitize s = s"
proof (induction s rule: utf8_sanitize.induct)
  case (2 c cs)
  then show ?case
    by (cases "of_char c < (0x80::nat)") (auto simp: utf8_len.simps)
qed simp

section \<open>Objects and arrays as the encoder lays them out\<close>

definition all_ws :: "string \<Rightarrow> bool" where
  "all_ws w \<longleftrightarrow> (\<forall>c\<in>set w. json_ws c)"

lemma skip_ws_append_ws: "all_ws w \<Longrightarrow> skip_ws (w @ s) = skip_ws s"
  by (induction w) (auto simp: all_ws_def skip_ws_def)

lemma skip_ws_Cons_nonws: "\<not> json_ws c \<Longrightarrow> skip_ws (c # s) = c # s"
  by (simp add: skip_ws_def)

lemma not_ws_simps [simp]:
  "\<not> json_ws (CHR 0x22)" "\<not> json_ws (CHR '':'')" "\<not> json_ws (CHR '','')"
  "\<not> json_ws (CHR ''{'')" "\<not> json_ws (CHR ''}'')" "\<not> json_ws (CHR ''['')" "\<not> json_ws (CHR '']'')"
  by (simp_all add: json_ws_def)

lemma parse_string_quote:
  "all_ws w \<Longrightarrow> parse_string (w @ json_quote x @ rest) = Some (utf8_sanitize x, rest)"
  by (simp add: parse_string_def skip_ws_append_ws json_quote_def skip_ws_Cons_nonws json_unquote_json_escape)

text \<open>An object as the encoder lays it out: white space \<open>lead\<close> before each key,
  \<open>":" @ w\<close> between key and value, white space \<open>close\<close> before the brace.\<close>

definition obj_member :: "string \<Rightarrow> string \<Rightarrow> string \<times> string \<Rightarrow> string" where
  "obj_member lead w kv = lead @ json_quote (fst kv) @ CHR '':'' # w @ json_quote (snd kv)"

definition obj_text :: "string \<Rightarrow> string \<Rightarrow> string \<Rightarrow> (string \<times> string) list \<Rightarrow> string" where
  "obj_text lead w close fs = CHR ''{'' # strings_Join (map (obj_member lead w) fs) '','' @ close @ ''}''"

definition sanitize_fields :: "(string \<times> string) list \<Rightarrow> (string \<times> string) list" where
  "sanitize_fields fs = map (\<lambda>(k, v). (utf8_sanitize k, utf8_sanitize v)) fs"

lemma parse_members_obj:
  assumes "all_ws lead" "all_ws w" "all_ws close" "fs \<noteq> []" "length fs \<le> n"
  shows "parse_members n (strings_Join (map (obj_member lead w) fs) '','' @ close @ CHR ''}'' # tail)
           = Some (sanitize_fields fs, tail)"
  using assms(4,5)
proof (induction fs arbitrary: n)
  case Nil
  then show ?case by simp
next
  case (Cons kv gs)
  obtain k v where kv: "kv = (k, v)" by (cases kv)
  obtain m where n: "n = Suc m" using Cons.prems by (cases n) auto
  show ?case
  proof (cases "gs = []")
    case True
    have "parse_members (Suc m) (obj_member lead w (k, v) @ close @ CHR ''}'' # tail) = Some ([(utf8_sanitize k, utf8_sanitize v)], tail)"
      using assms(1-3)
      by (simp add: obj_member_def parse_string_quote skip_ws_Cons_nonws skip_ws_append_ws[of close]
          parse_string_quote[of w, simplified] del: parse_members.simps(1))
    then show ?thesis using True kv n by (simp add: sanitize_fields_def)
  next
    case False
    then have IH: "parse_members m (strings_Join (map (obj_member lead w) gs) '','' @ close @ CHR ''}'' # tail)
        = Some (sanitize_fields gs, tail)"
      using Cons n by simp
    have "parse_members (Suc m) (obj_member lead w (k, v) @ CHR '','' # strings_Join (map (obj_member lead w) gs) '','' @ close @ CHR ''}'' # tail)
        = Some ((utf8_sanitize k, utf8_sanitize v) # sanitize_fields gs, tail)"
      using assms(1-3) IH
      by (simp add: obj_member_def parse_string_quote skip_ws_Cons_nonws)
    then show ?thesis using False kv n by (simp add: sanitize_fields_def strings_Join_Cons)
  qed
qed


lemma length_strings_Join_ge:
  "\<forall>x\<in>set xs. x \<noteq> [] \<Longrightarrow> length xs \<le> length (strings_Join xs sep)"
proof (induction xs sep rule: strings_Join.induct)
  case (2 x sep)
  then show ?case by (cases x) auto
next
  case (3 x y zs sep)
  then show ?case by (cases x) auto
qed simp

lemma length_members_ge:
  "length fs \<le> length (strings_Join (map (obj_member lead w) fs) '','' @ rest)"
proof -
  have "\<forall>x\<in>set (map (obj_member lead w) fs). x \<noteq> []"
    by (auto simp: obj_member_def json_quote_def)
  then show ?thesis using length_strings_Join_ge[of "map (obj_member lead w) fs" "'',''"] by simp
qed

lemma parse_object_obj:
  assumes "all_ws lead" "all_ws w" "all_ws close" "fs \<noteq> []" "all_ws w0"
  shows "parse_object (w0 @ obj_text lead w close fs @ tail) = Some (sanitize_fields fs, tail)"
proof -
  obtain kv gs where fs: "fs = kv # gs" using assms(4) by (cases fs) auto
  let ?body = "strings_Join (map (obj_member lead w) fs) '','' @ close @ CHR ''}'' # tail"
  have first: "skip_ws ?body \<noteq> [] \<and> hd (skip_ws ?body) = CHR 0x22"
    using assms(1) by (cases gs) (auto simp: fs obj_member_def strings_Join_Cons skip_ws_append_ws json_quote_def skip_ws_Cons_nonws)
  then obtain r' where sk: "skip_ws ?body = CHR 0x22 # r'"
    by (cases "skip_ws ?body") auto
  have "length fs \<le> length ?body" by (rule length_members_ge)
  from parse_members_obj[OF assms(1-4) this, of tail] sk assms(5)
  show ?thesis
    by (simp add: parse_object_def obj_text_def skip_ws_append_ws skip_ws_Cons_nonws)
qed

lemma json_member_obj_member: "json_member = obj_member [] []"
  by (rule ext) (simp add: obj_member_def json_member_def)

lemma json_member_indent_obj_member: "json_member_indent lead = obj_member (''\<newline>'' @ lead) '' ''"
  by (rule ext) (simp add: obj_member_def json_member_indent_def)

lemma json_Marshal_obj_text: "json_Marshal fs = obj_text [] [] [] fs"
  by (simp add: json_Marshal_def obj_text_def json_member_obj_member)

lemma json_MarshalIndent_obj_text:
  "fs \<noteq> [] \<Longrightarrow> json_MarshalIndent prefix indent fs = obj_text (''\<newline>'' @ prefix @ indent) '' '' (''\<newline>'' @ prefix) fs"
  by (simp add: json_MarshalIndent_def obj_text_def json_member_indent_obj_member)


definition arr_text :: "string \<Rightarrow> string \<Rightarrow> string \<Rightarrow> string list \<Rightarrow> string" where
  "arr_text w_open w_sep w_close objs = CHR ''['' # w_open @ strings_Join objs ('','' @ w_sep) @ w_close @ '']''"

lemma parse_elements_objs:
  assumes ws: "all_ws lead" "all_ws w" "all_ws close" "all_ws w_sep" "all_ws w_close"
    and ne: "\<forall>fs\<in>set fss. fs \<noteq> []" "fss \<noteq> []" and fuel: "length fss \<le> n"
    and w0: "all_ws w0"
  shows "parse_elements n (w0 @ strings_Join (map (obj_text lead w close) fss) ('','' @ w_sep) @ w_close @ CHR '']'' # tail)
           = Some (map sanitize_fields fss, tail)"
  using ne fuel w0
proof (induction fss arbitrary: n w0)
  case Nil
  then show ?case by simp
next
  case (Cons fs gss)
  obtain m where n: "n = Suc m" using Cons.prems by (cases n) auto
  have fs: "fs \<noteq> []" using Cons.prems by simp
  show ?case
  proof (cases "gss = []")
    case True
    have "parse_object (w0 @ obj_text lead w close fs @ w_close @ CHR '']'' # tail)
        = Some (sanitize_fields fs, w_close @ CHR '']'' # tail)"
      using parse_object_obj[OF ws(1-3) fs Cons.prems(4)] by simp
    then show ?thesis using True n ws(5) by (simp add: skip_ws_append_ws skip_ws_Cons_nonws)
  next
    case False
    have IH: "parse_elements m (w_sep @ strings_Join (map (obj_text lead w close) gss) ('','' @ w_sep) @ w_close @ CHR '']'' # tail)
        = Some (map sanitize_fields gss, tail)"
      using Cons.IH[of m w_sep] Cons.prems False n ws(4) by simp
    have "parse_object (w0 @ obj_text lead w close fs @ CHR '','' # w_sep @ strings_Join (map (obj_text lead w close) gss) ('','' @ w_sep) @ w_close @ CHR '']'' # tail)
        = Some (sanitize_fields fs, CHR '','' # w_sep @ strings_Join (map (obj_text lead w close) gss) ('','' @ w_sep) @ w_close @ CHR '']'' # tail)"
      using parse_object_obj[OF ws(1-3) fs Cons.prems(4)] by simp
    with IH False n show ?thesis by (simp add: strings_Join_Cons skip_ws_Cons_nonws)
  qed
qed

lemma obj_text_nonempty [simp]: "obj_text lead w close fs \<noteq> []"
  by (simp add: obj_text_def)

lemma parse_array_arr:
  assumes ws: "all_ws lead" "all_ws w" "all_ws close" "all_ws w_open" "all_ws w_sep" "all_ws w_close"
    and ne: "\<forall>fs\<in>set fss. fs \<noteq> []" "fss \<noteq> []"
  shows "parse_array (arr_text w_open w_sep w_close (map (obj_text lead w close) fss)) = Some (map sanitize_fields fss)"
proof -
  let ?body = "strings_Join (map (obj_text lead w close) fss) ('','' @ w_sep) @ w_close @ CHR '']'' # []"
  have len: "length fss \<le> length (arr_text w_open w_sep w_close (map (obj_text lead w close) fss))"
    using length_strings_Join_ge[of "map (obj_text lead w close) fss" "'','' @ w_sep"]
    by (simp add: arr_text_def)
  have el: "parse_elements (length (arr_text w_open w_sep w_close (map (obj_text lead w close) fss))) (w_open @ ?body)
      = Some (map sanitize_fields fss, [])"
    using parse_elements_objs[OF ws(1-3,5,6) ne len ws(4)] by simp
  obtain fs gss where fss: "fss = fs # gss" using ne(2) by (cases fss) auto
  have "skip_ws (w_open @ ?body) = skip_ws ?body" using ws(4) by (simp add: skip_ws_append_ws)
  moreover have "hd (skip_ws ?body) = CHR ''{''" "skip_ws ?body \<noteq> []"
    by (cases gss; simp add: fss obj_text_def strings_Join_Cons skip_ws_Cons_nonws)+
  ultimately obtain r' where sk: "skip_ws (w_open @ ?body) = CHR ''{'' # r'"
    by (cases "skip_ws ?body") auto
  show ?thesis
    using el sk by (simp add: parse_array_def arr_text_def skip_ws_Cons_nonws skip_ws_def)
qed


section \<open>One object per line\<close>

text \<open>Reading a file of newline-terminated lines (as \<open>bufio.Scanner\<close> with
  \<open>ScanLines\<close> does) and decoding each line as one object.\<close>

fun split_lines :: "string \<Rightarrow> string list" where
  "split_lines [] = []"
| "split_lines (c # cs) =
     (if c = CHR 0x0A then [] # split_lines cs
      else (case split_lines cs of [] \<Rightarrow> [[c]] | l # ls \<Rightarrow> (c # l) # ls))"

definition parse_line :: "string \<Rightarrow> (string \<times> string) list option" where
  "parse_line l = (case parse_object l of Some (fs, rest) \<Rightarrow> if skip_ws rest = [] then Some fs else None | None \<Rightarrow> None)"

definition parse_ndjson :: "string \<Rightarrow> (string \<times> string) list list option" where
  "parse_ndjson s = those (map parse_line (split_lines s))"

lemma split_lines_line:
  "CHR 0x0A \<notin> set x \<Longrightarrow> split_lines (x @ CHR 0x0A # rest) = x # split_lines rest"
  by (induction x) auto

lemma hex_digit_not_newline: "d < 16 \<Longrightarrow> hex_digit d \<noteq> CHR 0x0A"
proof -
  assume "d < 16"
  then have "d \<in> {0,1,2,3,4,5,6,7,8,9,10,11,12,13,14,15}" by (simp; presburger)
  then show ?thesis by (auto simp: hex_digit_def)
qed

lemma escape_ascii_no_newline: "CHR 0x0A \<notin> set (escape_ascii c)"
proof -
  have "hex_digit (of_char c div 16) \<noteq> CHR 0x0A" "hex_digit (of_char c mod 16) \<noteq> CHR 0x0A"
    using nat_of_char_less_256[of c] by (simp_all add: hex_digit_not_newline div_less_iff_less_mult)
  moreover have "html_safe c \<Longrightarrow> c \<noteq> CHR 0x0A" by (auto simp: html_safe_def byte_in_def)
  ultimately show ?thesis
    unfolding escape_ascii_def by (auto split: if_split)
qed

lemma json_escape_no_newline: "CHR 0x0A \<notin> set (json_escape s)"
proof (induction s rule: json_escape.induct)
  case (2 c cs)
  have hi: "CHR 0x0A \<notin> set (c # take (utf8_len (c # cs) - 1) cs)"
    if "\<not> of_char c < (0x80::nat)" "utf8_len (c # cs) \<noteq> 0"
    using that utf8_len_high_tail[of c cs "utf8_len (c # cs)"] by fastforce
  show ?case
    using "2.IH" hi escape_ascii_no_newline[of c] hex_digit_not_newline[of "of_char (cs ! 1) mod 16"]
    by (auto simp del: json_escape.simps(2) simp: json_escape.simps(2)[of c cs] split: if_splits)
qed simp

lemma json_Marshal_no_newline: "CHR 0x0A \<notin> set (json_Marshal fs)"
proof -
  have "CHR 0x0A \<notin> set (json_member kv)" for kv
    using json_escape_no_newline by (simp add: json_member_def json_quote_def)
  moreover have "CHR 0x0A \<notin> set (strings_Join xs sep)" if "\<forall>x\<in>set xs. CHR 0x0A \<notin> set x" "CHR 0x0A \<notin> set sep" for xs sep
    using that by (induction xs sep rule: strings_Join.induct) auto
  ultimately show ?thesis by (simp add: json_Marshal_def)
qed

lemma parse_ndjson_lines:
  "\<forall>fs\<in>set fss. fs \<noteq> [] \<Longrightarrow>
   parse_ndjson (concat (map (\<lambda>fs. json_Marshal fs @ ''\<newline>'') fss)) = Some (map sanitize_fields fss)"
proof (induction fss)
  case Nil
  then show ?case by (simp add: parse_ndjson_def)
next
  case (Cons fs fss)
  have "parse_line (json_Marshal fs) = Some (sanitize_fields fs)"
    using parse_object_obj[of "[]" "[]" "[]" fs "[]" "[]"] Cons.prems
    by (simp add: parse_line_def json_Marshal_obj_text all_ws_def skip_ws_def)
  with Cons show ?case
    by (simp add: parse_ndjson_def split_lines_line json_Marshal_no_newline)
qed

end
