(* ===== verification/FileSystem.thy ===== *)
theory FileSystem
  imports Go_Prelude
begin

text \<open>
  The operating-system side of the file sinks: the calls of Go's \<open>os\<close> and
  \<open>path/filepath\<close> packages the logger makes, over an explicit file-system state.
  The state maps absolute paths (lists of components) to directories and regular files
  (their bytes); a set of nodes denies write access (creating an entry in such a directory,
  or opening such a file for writing, fails with \<open>EACCES\<close>); the device has a number of
  free bytes (a write that needs more writes what fits and fails with \<open>ENOSPC\<close>, as
  \<open>write(2)\<close> and Go's \<open>File.Write\<close> do); and the process has a working directory.
  Path strings are resolved lexically (\<open>.\<close> and \<open>..\<close>), as the kernel does in a tree
  without symbolic links.  Each call returns a Go error value (\<open>*os.PathError\<close> with the
  operation's name) or its result, and the new state: the calls are of type
  \<open>(fs, 'a) go_m\<close>.  An open file is a handle that records its path, its name
  (for error messages), its offset and whether it was opened with \<open>O_APPEND\<close>.
  The lemmas give each call's behaviour on the paths the sinks take, the monotonicity
  relation \<open>fs_grows\<close> (nothing is removed or changed, entries may be added) and the weaker
  \<open>fs_extends\<close> (files may also grow at their end, which opening without \<open>O_TRUNC\<close> and
  writing through an \<open>O_APPEND\<close> handle do).
\<close>

section \<open>State\<close>

datatype inode = Dir | Reg string

record fs =
  fs_tree :: "string list \<Rightarrow> inode option"
  fs_ro :: "string list set"
  fs_free :: nat
  fs_cwd :: "string list"

section \<open>Path strings\<close>

text \<open>The components of a path string between its slashes (empty ones included).\<close>

fun split_slash :: "string \<Rightarrow> string list" where
  "split_slash [] = [[]]"
| "split_slash (c # cs) =
     (if c = CHR ''/'' then [] # split_slash cs
      else (case split_slash cs of x # xs \<Rightarrow> (c # x) # xs | [] \<Rightarrow> [[c]]))"

text \<open>Lexical resolution of components against a directory: empty and \<open>.\<close>
  components are skipped, \<open>..\<close> goes up (and stays at the root).\<close>

fun norm_comps :: "string list \<Rightarrow> string list \<Rightarrow> string list" where
  "norm_comps st [] = st"
| "norm_comps st (c # cs) =
     (if c = [] \<or> c = ''.'' then norm_comps st cs
      else if c = ''..'' then norm_comps (butlast st) cs
      else norm_comps (st @ [c]) cs)"

definition resolve :: "fs \<Rightarrow> string \<Rightarrow> string list" where
  "resolve s p = norm_comps (if p \<noteq> [] \<and> hd p = CHR ''/'' then [] else fs_cwd s) (split_slash p)"

text \<open>\<open>filepath.Clean\<close>: the same lexical processing on the string, keeping the
  leading \<open>..\<close> of a relative path; \<open>"."\<close> for an empty result.\<close>

fun clean_comps :: "bool \<Rightarrow> string list \<Rightarrow> string list \<Rightarrow> string list" where
  "clean_comps rooted st [] = st"
| "clean_comps rooted st (c # cs) =
     (if c = [] \<or> c = ''.'' then clean_comps rooted st cs
      else if c = ''..'' then
        (if st \<noteq> [] \<and> last st \<noteq> ''..'' then clean_comps rooted (butlast st) cs
         else if rooted then clean_comps rooted st cs
         else clean_comps rooted (st @ [''..'']) cs)
      else clean_comps rooted (st @ [c]) cs)"

definition filepath_Clean :: "string \<Rightarrow> string" where
  "filepath_Clean p =
     (if p = [] then ''.''
      else (let rooted = (hd p = CHR ''/''); cs = clean_comps rooted [] (split_slash p)
            in if rooted then ''/'' @ strings_Join cs ''/''
               else if cs = [] then ''.'' else strings_Join cs ''/''))"

text \<open>\<open>filepath.Dir\<close>: \<open>Clean\<close> of everything up to the last slash.\<close>

definition filepath_Dir :: "string \<Rightarrow> string" where
  "filepath_Dir p = filepath_Clean (rev (dropWhile (\<lambda>c. c \<noteq> CHR ''/'') (rev p)))"

text \<open>A last path element that names an entry (not empty, \<open>.\<close> or \<open>..\<close>), and the
  last element of a path string.\<close>

definition normal_name :: "string \<Rightarrow> bool" where
  "normal_name c \<longleftrightarrow> c \<noteq> [] \<and> c \<noteq> ''.'' \<and> c \<noteq> ''..'' \<and> CHR ''/'' \<notin> set c"

definition base_name :: "string \<Rightarrow> string" where
  "base_name p = rev (takeWhile (\<lambda>c. c \<noteq> CHR ''/'') (rev p))"

section \<open>Looking paths up\<close>

text \<open>The walk of the kernel from the root: a missing component is \<open>ENOENT\<close>, a regular
  file in the middle of a path \<open>ENOTDIR\<close>.\<close>

fun walk :: "(string list \<Rightarrow> inode option) \<Rightarrow> string list \<Rightarrow> string list \<Rightarrow> errno + inode" where
  "walk t pre [] = (case t pre of None \<Rightarrow> Inl ENOENT | Some n \<Rightarrow> Inr n)"
| "walk t pre (c # cs) =
     (case t pre of
        None \<Rightarrow> Inl ENOENT
      | Some (Reg _) \<Rightarrow> Inl ENOTDIR
      | Some Dir \<Rightarrow> walk t (pre @ [c]) cs)"

definition lookup :: "fs \<Rightarrow> string list \<Rightarrow> errno + inode" where
  "lookup s cs = walk (fs_tree s) [] cs"

text \<open>\<open>os.Stat(name)\<close> (an empty name does not exist).\<close>

definition os_Stat :: "string \<Rightarrow> (fs, inode) go_m" where
  "os_Stat name s =
     (if name = [] then (Inl (PathError ''stat'' name ENOENT), s)
      else (case lookup s (resolve s name) of
              Inl e \<Rightarrow> (Inl (PathError ''stat'' name e), s)
            | Inr n \<Rightarrow> (Inr n, s)))"

text \<open>\<open>fileExists\<close> of the logger: \<open>!os.IsNotExist(err)\<close> after \<open>os.Stat\<close>.\<close>

definition fileExists :: "string \<Rightarrow> fs \<Rightarrow> bool" where
  "fileExists name s = (case fst (os_Stat name s) of Inl (PathError _ _ ENOENT) \<Rightarrow> False | _ \<Rightarrow> True)"

section \<open>Directories\<close>

text \<open>\<open>os.Mkdir(name, perm)\<close>.\<close>

definition os_Mkdir :: "string \<Rightarrow> (fs, unit) go_m" where
  "os_Mkdir name s =
     (let cs = resolve s name; err = (\<lambda>e. (Inl (PathError ''mkdir'' name e), s))
      in if name = [] then err ENOENT
         else if cs = [] then err EEXIST
         else (case lookup s (butlast cs) of
                 Inl e \<Rightarrow> err e
               | Inr (Reg _) \<Rightarrow> err ENOTDIR
               | Inr Dir \<Rightarrow>
                   if fs_tree s cs \<noteq> None then err EEXIST
                   else if butlast cs \<in> fs_ro s then err EACCES
                   else (Inr (), s\<lparr>fs_tree := (fs_tree s)(cs \<mapsto> Dir)\<rparr>)))"

text \<open>The two scans of \<open>MkdirAll\<close>: \<open>i\<close> drops the trailing separators, \<open>j\<close> is
  the start of the last element.\<close>

definition mkdirall_i :: "string \<Rightarrow> nat" where
  "mkdirall_i path = length path - length (takeWhile (\<lambda>c. c = CHR ''/'') (rev path))"

definition mkdirall_j :: "string \<Rightarrow> nat" where
  "mkdirall_j path =
     mkdirall_i path - length (takeWhile (\<lambda>c. c \<noteq> CHR ''/'') (rev (take (mkdirall_i path) path)))"

lemma mkdirall_j_le: "mkdirall_j path \<le> length path"
  by (simp add: mkdirall_j_def mkdirall_i_def)

text \<open>\<open>Mkdir\<close> as \<open>MkdirAll\<close> finishes: an error is forgiven when the directory
  exists afterwards (arguments such as \<open>"foo/."\<close>).\<close>

definition mkdir_last :: "string \<Rightarrow> (fs, unit) go_m" where
  "mkdir_last path s =
     (case os_Mkdir path s of
        (Inl e, s') \<Rightarrow> (if fst (os_Stat path s') = Inr Dir then (Inr (), s') else (Inl e, s'))
      | r \<Rightarrow> r)"

text \<open>\<open>os.MkdirAll(path, perm)\<close>: done if the path is a directory, \<open>ENOTDIR\<close> if it is
  a file; otherwise the parent first (when the path has one), then the path itself.\<close>

function os_MkdirAll :: "string \<Rightarrow> (fs, unit) go_m" where
  "os_MkdirAll path s =
     (case fst (os_Stat path s) of
        Inr Dir \<Rightarrow> (Inr (), s)
      | Inr (Reg _) \<Rightarrow> (Inl (PathError ''mkdir'' path ENOTDIR), s)
      | Inl _ \<Rightarrow>
          (if 1 < mkdirall_j path then
             (case os_MkdirAll (take (mkdirall_j path - 1) path) s of
                (Inl e, s') \<Rightarrow> (Inl e, s')
              | (Inr _, s') \<Rightarrow> mkdir_last path s')
           else mkdir_last path s))"
  by pat_completeness auto
termination
proof (relation "measure (\<lambda>(path, s). length path)")
  fix path :: string and s :: fs
  assume "1 < mkdirall_j path"
  then show "((take (mkdirall_j path - 1) path, s), path, s) \<in> measure (\<lambda>(path, s). length path)"
    using mkdirall_j_le[of path] by simp
qed simp

section \<open>Open files\<close>

record open_flags =
  o_create :: bool
  o_trunc :: bool
  o_append :: bool

record fhandle =
  fh_path :: "string list"
  fh_name :: string
  fh_off :: nat
  fh_append :: bool

definition O_RDWR :: open_flags where
  "O_RDWR = \<lparr>o_create = False, o_trunc = False, o_append = False\<rparr>"

definition O_CREATE_WRONLY_APPEND :: open_flags where
  "O_CREATE_WRONLY_APPEND = \<lparr>o_create = True, o_trunc = False, o_append = True\<rparr>"

definition O_CREATE_TRUNC :: open_flags where
  "O_CREATE_TRUNC = \<lparr>o_create = True, o_trunc = True, o_append = False\<rparr>"

text \<open>Replacing the bytes of a regular file, the free space following its size.\<close>

definition set_content :: "string list \<Rightarrow> string \<Rightarrow> fs \<Rightarrow> fs" where
  "set_content p c s =
     (let old = (case fs_tree s p of Some (Reg c0) \<Rightarrow> length c0 | _ \<Rightarrow> 0)
      in s\<lparr>fs_tree := (fs_tree s)(p \<mapsto> Reg c), fs_free := fs_free s + old - length c\<rparr>)"

text \<open>\<open>os.OpenFile(name, flag, perm)\<close> for a writable access mode.\<close>

definition os_OpenFile :: "string \<Rightarrow> open_flags \<Rightarrow> (fs, fhandle) go_m" where
  "os_OpenFile name fl s =
     (let cs = resolve s name; err = (\<lambda>e. (Inl (PathError ''open'' name e), s));
          h = \<lparr>fh_path = cs, fh_name = name, fh_off = 0, fh_append = o_append fl\<rparr>
      in if name = [] then err ENOENT
         else if cs = [] then err EISDIR
         else (case lookup s (butlast cs) of
                 Inl e \<Rightarrow> err e
               | Inr (Reg _) \<Rightarrow> err ENOTDIR
               | Inr Dir \<Rightarrow>
                   (case fs_tree s cs of
                      Some Dir \<Rightarrow> err EISDIR
                    | Some (Reg c) \<Rightarrow>
                        if cs \<in> fs_ro s then err EACCES
                        else (Inr h, if o_trunc fl then set_content cs [] s else s)
                    | None \<Rightarrow>
                        if \<not> o_create fl then err ENOENT
                        else if butlast cs \<in> fs_ro s then err EACCES
                        else (Inr h, s\<lparr>fs_tree := (fs_tree s)(cs \<mapsto> Reg [])\<rparr>))))"

text \<open>\<open>os.Create(name)\<close> is \<open>OpenFile(name, O_RDWR|O_CREATE|O_TRUNC, 0666)\<close>.\<close>

definition os_Create :: "string \<Rightarrow> (fs, fhandle) go_m" where
  "os_Create name = os_OpenFile name O_CREATE_TRUNC"

definition file_bytes :: "fs \<Rightarrow> fhandle \<Rightarrow> string option" where
  "file_bytes s f = (case fs_tree s (fh_path f) of Some (Reg c) \<Rightarrow> Some c | _ \<Rightarrow> None)"

text \<open>\<open>f.Stat()\<close>, of which the logger reads \<open>Size()\<close>.\<close>

definition f_Stat :: "fhandle \<Rightarrow> (fs, int) go_m" where
  "f_Stat f s =
     (case file_bytes s f of
        Some c \<Rightarrow> (Inr (int (length c)), s)
      | None \<Rightarrow> (Inl (PathError ''stat'' (fh_name f) ENOENT), s))"

text \<open>\<open>f.Truncate(size)\<close>: a negative size is \<open>EINVAL\<close>; growing pads with zero bytes.\<close>

definition f_Truncate :: "fhandle \<Rightarrow> int \<Rightarrow> (fs, unit) go_m" where
  "f_Truncate f n s =
     (case file_bytes s f of
        None \<Rightarrow> (Inl (PathError ''truncate'' (fh_name f) ENOENT), s)
      | Some c \<Rightarrow>
          if n < 0 then (Inl (PathError ''truncate'' (fh_name f) EINVAL), s)
          else (Inr (), set_content (fh_path f) (take (nat n) c @ replicate (nat n - length c) (CHR 0x00)) s))"

datatype whence = SeekStart | SeekCurrent | SeekEnd

text \<open>\<open>f.Seek(offset, whence)\<close>: the new offset, \<open>EINVAL\<close> when it would be negative.\<close>

definition f_Seek :: "fhandle \<Rightarrow> int \<Rightarrow> whence \<Rightarrow> (fs, fhandle) go_m" where
  "f_Seek f off wh s =
     (case file_bytes s f of
        None \<Rightarrow> (Inl (PathError ''seek'' (fh_name f) ENOENT), s)
      | Some c \<Rightarrow>
          (let base = (case wh of SeekStart \<Rightarrow> 0 | SeekCurrent \<Rightarrow> int (fh_off f) | SeekEnd \<Rightarrow> int (length c));
               pos = base + off
           in if pos < 0 then (Inl (PathError ''seek'' (fh_name f) EINVAL), s)
              else (Inr (f\<lparr>fh_off := nat pos\<rparr>), s)))"

text \<open>\<open>f.WriteString(data)\<close>: at the end of the file with \<open>O_APPEND\<close>, at the offset
  otherwise; the bytes that fit in the free space are written, and a short write is
  \<open>ENOSPC\<close>.  The handle's offset moves past what was written.\<close>

definition f_WriteString :: "fhandle \<Rightarrow> string \<Rightarrow> (fs, fhandle) go_m" where
  "f_WriteString f data s =
     (case file_bytes s f of
        None \<Rightarrow> (Inl (PathError ''write'' (fh_name f) ENOENT), s)
      | Some c \<Rightarrow>
          (let pos = (if fh_append f then length c else fh_off f);
               k = min (length data) (length c - pos + fs_free s);
               c' = take pos c @ replicate (pos - length c) (CHR 0x00) @ take k data @ drop (pos + k) c;
               s' = set_content (fh_path f) c' s;
               f' = f\<lparr>fh_off := pos + k\<rparr>
           in if k < length data then (Inl (PathError ''write'' (fh_name f) ENOSPC), s')
              else (Inr f', s')))"

section \<open>Preconditions of the sinks\<close>

text \<open>A path whose last element is a name, whose directory exists and where neither the
  directory nor the file denies writing; the handle \<open>OpenFile\<close> returns; the byte
  position a write starts at.\<close>

definition parent_ready :: "fs \<Rightarrow> string \<Rightarrow> bool" where
  "parent_ready s p \<longleftrightarrow> normal_name (base_name p)
     \<and> lookup s (resolve s (filepath_Dir p)) = Inr Dir
     \<and> resolve s (filepath_Dir p) \<notin> fs_ro s \<and> resolve s p \<notin> fs_ro s"

definition new_handle :: "fs \<Rightarrow> string \<Rightarrow> open_flags \<Rightarrow> fhandle" where
  "new_handle s p fl = \<lparr>fh_path = resolve s p, fh_name = p, fh_off = 0, fh_append = o_append fl\<rparr>"

definition write_pos :: "fhandle \<Rightarrow> string \<Rightarrow> nat" where
  "write_pos f c = (if fh_append f then length c else fh_off f)"

text \<open>The bytes of the regular file a path names.\<close>

definition file_content :: "fs \<Rightarrow> string \<Rightarrow> string option" where
  "file_content s p = (case fs_tree s (resolve s p) of Some (Reg c) \<Rightarrow> Some c | _ \<Rightarrow> None)"

text \<open>A state that differs from another only by new nodes.\<close>

definition fs_grows :: "fs \<Rightarrow> fs \<Rightarrow> bool" where
  "fs_grows s s' \<longleftrightarrow> fs_cwd s' = fs_cwd s \<and> fs_ro s' = fs_ro s \<and> fs_free s' = fs_free s
     \<and> (\<forall>q n. fs_tree s q = Some n \<longrightarrow> fs_tree s' q = Some n)"

text \<open>The file system only grows at the end of files: directories stay, and every file's
  old bytes stay a prefix of its new content (a file may also be created).\<close>

definition fs_extends :: "fs \<Rightarrow> fs \<Rightarrow> bool" where
  "fs_extends s s' \<longleftrightarrow> fs_cwd s' = fs_cwd s \<and> fs_ro s' = fs_ro s
     \<and> (\<forall>q. fs_tree s q = Some Dir \<longrightarrow> fs_tree s' q = Some Dir)
     \<and> (\<forall>q c. fs_tree s q = Some (Reg c) \<longrightarrow> (\<exists>d. fs_tree s' q = Some (Reg (c @ d))))"

section \<open>Path strings and their resolution\<close>

text \<open>\<open>filepath.Clean\<close> does not change what a path names, and \<open>filepath.Dir\<close> of a path
  whose last element is a name resolves to the parent of the path.\<close>

lemma split_slash_ne [simp]: "split_slash p \<noteq> []"
  by (induction p) (auto split: list.split)

lemma split_slash_append_slash:
  "split_slash (a @ CHR ''/'' # b) = split_slash a @ split_slash b"
proof (induction a)
  case (Cons c a)
  then show ?case
    by (cases "split_slash a") auto
qed simp

lemma split_slash_no_slash: "CHR ''/'' \<notin> set n \<Longrightarrow> split_slash n = [n]"
  by (induction n) auto

lemma split_slash_comps: "c \<in> set (split_slash p) \<Longrightarrow> CHR ''/'' \<notin> set c"
proof (induction p arbitrary: c)
  case (Cons d p)
  then show ?case
    by (cases "split_slash p") (auto split: if_splits)
qed simp

lemma norm_comps_append: "norm_comps st (xs @ ys) = norm_comps (norm_comps st xs) ys"
  by (induction st xs rule: norm_comps.induct) simp_all

lemma norm_comps_normal: "normal_name c \<Longrightarrow> norm_comps st [c] = st @ [c]"
  by (simp add: normal_name_def)

lemma norm_comps_normals: "\<forall>c\<in>set cs. normal_name c \<Longrightarrow> norm_comps st cs = st @ cs"
  by (induction cs arbitrary: st) (simp_all add: normal_name_def)

lemma split_slash_join:
  "cs \<noteq> [] \<Longrightarrow> \<forall>c\<in>set cs. CHR ''/'' \<notin> set c \<Longrightarrow> split_slash (strings_Join cs ''/'') = cs"
proof (induction cs)
  case (Cons c cs)
  then show ?case
    by (cases cs) (simp_all add: split_slash_no_slash split_slash_append_slash)
qed simp

lemma clean_comps_rooted:
  "\<forall>c\<in>set st. normal_name c \<Longrightarrow> \<forall>c\<in>set xs. CHR ''/'' \<notin> set c \<Longrightarrow>
   clean_comps True st xs = norm_comps st xs \<and> (\<forall>c\<in>set (clean_comps True st xs). normal_name c)"
proof (induction xs arbitrary: st)
  case (Cons c xs)
  have bl: "\<forall>c\<in>set (butlast st). normal_name c"
    using Cons.prems(1) by (auto dest: in_set_butlastD)
  consider (skip) "c = [] \<or> c = ''.''" | (up) "c = ''..''" | (name) "normal_name c"
    using Cons.prems(2) by (auto simp: normal_name_def)
  then show ?case
  proof cases
    case skip
    then show ?thesis using Cons.IH[OF Cons.prems(1)] Cons.prems(2) by auto
  next
    case up
    have "st \<noteq> [] \<Longrightarrow> last st \<noteq> ''..''"
      using Cons.prems(1) last_in_set[of st] by (auto simp: normal_name_def)
    show ?thesis
    proof (cases "st = []")
      case True
      have "clean_comps True st (c # xs) = clean_comps True [] xs" "norm_comps st (c # xs) = norm_comps [] xs"
        using True up by simp_all
      then show ?thesis using Cons.IH[of "[]"] Cons.prems(2) True by simp
    next
      case False
      have "clean_comps True st (c # xs) = clean_comps True (butlast st) xs"
        "norm_comps st (c # xs) = norm_comps (butlast st) xs"
        using False up \<open>st \<noteq> [] \<Longrightarrow> last st \<noteq> ''..''\<close> by simp_all
      then show ?thesis using Cons.IH[OF bl] Cons.prems(2) by simp
    qed
  next
    case name
    then have "\<forall>c\<in>set (st @ [c]). normal_name c" using Cons.prems(1) by simp
    then show ?thesis
      using Cons.IH[of "st @ [c]"] Cons.prems(2) name by (simp add: normal_name_def)
  qed
qed simp

lemma clean_comps_relative:
  "\<forall>c\<in>set xs. CHR ''/'' \<notin> set c \<Longrightarrow> st = replicate k ''..'' @ ns \<Longrightarrow> \<forall>c\<in>set ns. normal_name c \<Longrightarrow>
   norm_comps b (clean_comps False st xs) = norm_comps (norm_comps b st) xs"
proof (induction xs arbitrary: st k ns)
  case (Cons c xs)
  have xs_ok: "\<forall>c\<in>set xs. CHR ''/'' \<notin> set c" using Cons.prems(1) by simp
  show ?case
  proof (cases "c = [] \<or> c = ''.''")
    case True
    then have "clean_comps False st (c # xs) = clean_comps False st xs"
      "norm_comps (norm_comps b st) (c # xs) = norm_comps (norm_comps b st) xs" by auto
    then show ?thesis using Cons.IH[OF _ Cons.prems(2,3)] Cons.prems(1) by simp
  next
    case nd: False
    show ?thesis
    proof (cases "c = ''..''")
      case dd: True
      have nb: "norm_comps (norm_comps b st) (c # xs) = norm_comps (butlast (norm_comps b st)) xs"
        using dd by simp
      show ?thesis
      proof (cases "st \<noteq> [] \<and> last st \<noteq> ''..''")
        case True
        have ns: "ns \<noteq> []"
        proof
          assume "ns = []"
          then have "st = replicate k ''..''" using Cons.prems(2) by simp
          then have "st \<noteq> [] \<Longrightarrow> last st = ''..''" by simp
          then show False using True by simp
        qed
        have bst: "butlast st = replicate k ''..'' @ butlast ns"
          using Cons.prems(2) ns by (simp add: butlast_append)
        have "last st \<in> set ns" using Cons.prems(2) ns by simp
        then have "normal_name (last st)" using Cons.prems(3) by blast
        then have "norm_comps b st = norm_comps b (butlast st) @ [last st]"
          using norm_comps_append[of b "butlast st" "[last st]"] True
            norm_comps_normal[of "last st" "norm_comps b (butlast st)"]
          by (simp del: norm_comps.simps)
        moreover have "\<forall>c\<in>set (butlast ns). normal_name c"
          using Cons.prems(3) by (auto dest: in_set_butlastD)
        moreover have "clean_comps False st (c # xs) = clean_comps False (butlast st) xs"
          using True dd by simp
        ultimately show ?thesis
          using Cons.IH[OF xs_ok bst] nb by simp
      next
        case False
        have "ns = []"
        proof (rule ccontr)
          assume "ns \<noteq> []"
          then have "st \<noteq> [] \<and> last st = last ns" using Cons.prems(2) by simp
          moreover have "normal_name (last ns)" using \<open>ns \<noteq> []\<close> Cons.prems(3) by simp
          ultimately show False using False by (simp add: normal_name_def)
        qed
        then have st1: "st @ [''..''] = replicate (Suc k) ''..'' @ []"
          using Cons.prems(2) by (simp add: replicate_append_same)
        have "clean_comps False st (c # xs) = (if st \<noteq> [] \<and> last st \<noteq> ''..''
            then clean_comps False (butlast st) xs else clean_comps False (st @ [''..'']) xs)"
          using dd by simp
        then have "clean_comps False st (c # xs) = clean_comps False (st @ [''..'']) xs"
          by (simp only: if_not_P[OF False])
        moreover have "norm_comps b (st @ [''..'']) = butlast (norm_comps b st)"
          by (simp add: norm_comps_append)
        ultimately show ?thesis
          using Cons.IH[OF xs_ok st1] nb by simp
      qed
    next
      case False
      then have "normal_name c" using nd Cons.prems(1) by (simp add: normal_name_def)
      then show ?thesis
        using Cons.IH[of "st @ [c]" k "ns @ [c]"] Cons.prems nd False
        by (simp add: norm_comps_append norm_comps_normal)
    qed
  qed
qed simp


lemma clean_comps_comps:
  "\<forall>c\<in>set st. c = ''..'' \<or> normal_name c \<Longrightarrow> \<forall>c\<in>set xs. CHR ''/'' \<notin> set c \<Longrightarrow>
   \<forall>c\<in>set (clean_comps r st xs). c = ''..'' \<or> normal_name c"
proof (induction r st xs rule: clean_comps.induct)
  case (2 rooted st c cs)
  have "\<forall>c\<in>set (butlast st). c = ''..'' \<or> normal_name c"
    using "2.prems"(1) by (auto dest: in_set_butlastD)
  then show ?case
    using 2 by (simp add: normal_name_def)
qed simp

lemma hd_strings_Join: "cs \<noteq> [] \<Longrightarrow> hd cs \<noteq> [] \<Longrightarrow> hd (strings_Join cs sep) = hd (hd cs)"
  by (induction cs sep rule: strings_Join.induct) simp_all

lemma strings_Join_ne: "cs \<noteq> [] \<Longrightarrow> hd cs \<noteq> [] \<Longrightarrow> strings_Join cs sep \<noteq> []"
  by (induction cs sep rule: strings_Join.induct) simp_all

lemma resolve_split: "resolve s p = norm_comps (if p \<noteq> [] \<and> hd p = CHR ''/'' then [] else fs_cwd s) (split_slash p)"
  by (simp add: resolve_def)

lemma resolve_dot [simp]: "resolve s ''.'' = fs_cwd s"
  by (simp add: resolve_def)

lemma resolve_Clean:
  assumes "q \<noteq> []"
  shows "resolve s (filepath_Clean q) = resolve s q"
proof -
  have xs: "\<forall>c\<in>set (split_slash q). CHR ''/'' \<notin> set c"
    using split_slash_comps by blast
  show ?thesis
  proof (cases "hd q = CHR ''/''")
    case True
    define cs where "cs = clean_comps True [] (split_slash q)"
    have cs: "cs = norm_comps [] (split_slash q)" "\<forall>c\<in>set cs. normal_name c"
      using clean_comps_rooted[of "[]", OF _ xs] by (simp_all add: cs_def)
    then have sl: "\<forall>c\<in>set cs. CHR ''/'' \<notin> set c" by (simp add: normal_name_def)
    have "filepath_Clean q = CHR ''/'' # strings_Join cs ''/''"
      using assms True by (simp add: filepath_Clean_def cs_def)
    moreover have "resolve s (CHR ''/'' # strings_Join cs ''/'') = cs"
    proof (cases "cs = []")
      case True
      then show ?thesis by (simp add: resolve_def)
    next
      case False
      then show ?thesis
        using split_slash_join[OF False sl] norm_comps_normals[OF cs(2), of "[]"]
        by (simp add: resolve_def)
    qed
    ultimately show ?thesis
      using assms True cs(1) by (simp add: resolve_split)
  next
    case False
    define cs where "cs = clean_comps False [] (split_slash q)"
    have eq: "norm_comps (fs_cwd s) cs = resolve s q"
      using clean_comps_relative[OF xs, of "[]" 0 "[]" "fs_cwd s"] assms False
      by (simp add: cs_def resolve_split)
    have cc: "\<forall>c\<in>set cs. c = ''..'' \<or> normal_name c"
      using clean_comps_comps[of "[]", OF _ xs] by (simp add: cs_def)
    have sl: "\<forall>c\<in>set cs. CHR ''/'' \<notin> set c \<and> c \<noteq> []"
    proof
      fix c assume "c \<in> set cs"
      then consider "c = ''..''" | "normal_name c" using cc by blast
      then show "CHR ''/'' \<notin> set c \<and> c \<noteq> []"
        by cases (simp_all add: normal_name_def)
    qed
    show ?thesis
    proof (cases "cs = []")
      case True
      then show ?thesis
        using assms False eq by (simp add: filepath_Clean_def cs_def)
    next
      case ne: False
      have "filepath_Clean q = strings_Join cs ''/''"
        using assms False ne by (simp add: filepath_Clean_def cs_def)
      moreover have "hd (strings_Join cs ''/'') \<noteq> CHR ''/''"
      proof -
        have "hd cs \<in> set cs" using ne by simp
        then have "CHR ''/'' \<notin> set (hd cs)" "hd cs \<noteq> []" using sl by auto
        moreover from this(2) have "hd (hd cs) \<in> set (hd cs)" by (rule hd_in_set)
        ultimately show ?thesis using hd_strings_Join[OF ne] by metis
      qed
      ultimately show ?thesis
        using split_slash_join[OF ne] sl eq by (simp add: resolve_split)
    qed
  qed
qed


lemma resolve_Dir:
  assumes "normal_name (base_name p)"
  shows "resolve s p = resolve s (filepath_Dir p) @ [base_name p]"
proof -
  define q where "q = rev (dropWhile (\<lambda>c. c \<noteq> CHR ''/'') (rev p))"
  define n where "n = base_name p"
  have p: "p = q @ n"
    unfolding q_def n_def base_name_def
    by (metis rev_append rev_rev_ident takeWhile_dropWhile_id)
  have dir: "filepath_Dir p = filepath_Clean q" by (simp add: filepath_Dir_def q_def)
  have n: "CHR ''/'' \<notin> set n" "n \<noteq> []" "normal_name n"
    using assms by (simp_all add: n_def normal_name_def)
  then have hn: "hd n \<noteq> CHR ''/''" using hd_in_set[of n] by metis
  show ?thesis
  proof (cases "q = []")
    case True
    then have "filepath_Dir p = ''.''" using dir by (simp add: filepath_Clean_def)
    moreover have "resolve s p = fs_cwd s @ [n]"
      using p True n hn by (simp add: resolve_split split_slash_no_slash normal_name_def)
    ultimately show ?thesis by (simp add: n_def)
  next
    case False
    have "dropWhile (\<lambda>c. c \<noteq> CHR ''/'') (rev p) \<noteq> []" using False by (simp add: q_def)
    then have "hd (dropWhile (\<lambda>c. c \<noteq> CHR ''/'') (rev p)) = CHR ''/''"
      using hd_dropWhile by blast
    then have "last q = CHR ''/''" using False by (simp add: q_def last_rev)
    then obtain q' where q': "q = q' @ [CHR ''/'']"
      using False by (metis append_butlast_last_id)
    have hd: "hd p = hd q" using p False by simp
    have "resolve s q = norm_comps (if hd q = CHR ''/'' then [] else fs_cwd s) (split_slash q')"
      using split_slash_append_slash[of q' "[]"] False
      by (simp add: q' resolve_split norm_comps_append)
    moreover have "resolve s p = norm_comps (if hd q = CHR ''/'' then [] else fs_cwd s) (split_slash q') @ [n]"
      using split_slash_append_slash[of q' n] p q' hd n
      by (simp add: resolve_split norm_comps_append split_slash_no_slash normal_name_def)
    ultimately show ?thesis
      using resolve_Clean[OF False, of s] by (simp add: dir n_def)
  qed
qed

section \<open>Lookups and the calls on their success paths\<close>

lemma walk_snoc:
  "walk t pre (cs @ [c]) =
     (case walk t pre cs of
        Inl e \<Rightarrow> Inl e
      | Inr (Reg _) \<Rightarrow> Inl ENOTDIR
      | Inr Dir \<Rightarrow> (case t (pre @ cs @ [c]) of None \<Rightarrow> Inl ENOENT | Some n \<Rightarrow> Inr n))"
  by (induction t pre cs rule: walk.induct) (auto split: option.split inode.split)

lemma lookup_snoc:
  "lookup s (cs @ [c]) =
     (case lookup s cs of
        Inl e \<Rightarrow> Inl e
      | Inr (Reg _) \<Rightarrow> Inl ENOTDIR
      | Inr Dir \<Rightarrow> (case fs_tree s (cs @ [c]) of None \<Rightarrow> Inl ENOENT | Some n \<Rightarrow> Inr n))"
  unfolding lookup_def walk_snoc append_Nil ..

lemma walk_upd_long:
  "length pre + length cs < length p \<Longrightarrow> walk (t(p := x)) pre cs = walk t pre cs"
  by (induction t pre cs rule: walk.induct) (auto split: option.split inode.split)

lemma lookup_upd_long:
  "length cs < length p \<Longrightarrow> walk ((fs_tree s)(p := x)) [] cs = lookup s cs"
  by (simp add: lookup_def walk_upd_long)

lemma resolve_cwd: "fs_cwd s' = fs_cwd s \<Longrightarrow> resolve s' p = resolve s p"
  by (simp add: resolve_def)

lemma os_MkdirAll_exists: "fst (os_Stat d s) = Inr Dir \<Longrightarrow> os_MkdirAll d s = (Inr (), s)"
  by (simp add: os_MkdirAll.simps)

lemma base_name_ne: "normal_name (base_name p) \<Longrightarrow> p \<noteq> []"
  by (auto simp: normal_name_def base_name_def)

lemma filepath_Clean_ne: "filepath_Clean q \<noteq> []"
proof (cases "q = [] \<or> hd q = CHR ''/''")
  case True
  then show ?thesis by (auto simp: filepath_Clean_def)
next
  case False
  define cs where "cs = clean_comps False [] (split_slash q)"
  have "\<forall>c\<in>set cs. c = ''..'' \<or> normal_name c"
    using clean_comps_comps[of "[]" "split_slash q" False] split_slash_comps by (simp add: cs_def)
  then have "cs \<noteq> [] \<Longrightarrow> hd cs \<noteq> []"
    using hd_in_set[of cs] by (fastforce simp: normal_name_def)
  then show ?thesis
    using False strings_Join_ne[of cs "''/''"] by (simp add: filepath_Clean_def cs_def Let_def)
qed

lemma filepath_Dir_ne: "filepath_Dir p \<noteq> []"
  by (simp add: filepath_Dir_def filepath_Clean_ne)

lemma parent_ready_path:
  assumes "parent_ready s p"
  shows "p \<noteq> []" "resolve s p \<noteq> []" "butlast (resolve s p) = resolve s (filepath_Dir p)"
    "resolve s p = butlast (resolve s p) @ [last (resolve s p)]"
  using assms resolve_Dir[of p s] base_name_ne[of p] by (simp_all add: parent_ready_def)

lemma parent_ready_MkdirAll: "parent_ready s p \<Longrightarrow> os_MkdirAll (filepath_Dir p) s = (Inr (), s)"
  by (rule os_MkdirAll_exists) (simp add: os_Stat_def parent_ready_def filepath_Dir_ne)

lemma parent_ready_lookup:
  assumes "parent_ready s p"
  shows "lookup s (resolve s p) = (case fs_tree s (resolve s p) of None \<Rightarrow> Inl ENOENT | Some n \<Rightarrow> Inr n)"
proof -
  have "lookup s (butlast (resolve s p)) = Inr Dir"
    using assms parent_ready_path(3)[OF assms] by (simp add: parent_ready_def)
  then show ?thesis
    using lookup_snoc[of s "butlast (resolve s p)" "last (resolve s p)"] parent_ready_path(4)[OF assms]
    by simp
qed

lemma parent_ready_fileExists:
  "parent_ready s p \<Longrightarrow> fileExists p s \<longleftrightarrow> fs_tree s (resolve s p) \<noteq> None"
  using parent_ready_lookup[of s p] parent_ready_path(1)[of s p]
  by (auto simp: fileExists_def os_Stat_def split: option.split)

lemma parent_ready_OpenFile_new:
  "parent_ready s p \<Longrightarrow> fs_tree s (resolve s p) = None \<Longrightarrow> o_create fl \<Longrightarrow>
   os_OpenFile p fl s = (Inr (new_handle s p fl), s\<lparr>fs_tree := (fs_tree s)(resolve s p \<mapsto> Reg [])\<rparr>)"
  using parent_ready_path[of s p]
  by (simp add: os_OpenFile_def parent_ready_def new_handle_def Let_def)

lemma parent_ready_OpenFile_reg:
  "parent_ready s p \<Longrightarrow> fs_tree s (resolve s p) = Some (Reg c) \<Longrightarrow>
   os_OpenFile p fl s = (Inr (new_handle s p fl), if o_trunc fl then set_content (resolve s p) [] s else s)"
  using parent_ready_path[of s p]
  by (simp add: os_OpenFile_def parent_ready_def new_handle_def Let_def)


lemma set_content_fields [simp]:
  "fs_tree (set_content q c s) = (fs_tree s)(q \<mapsto> Reg c)"
  "fs_cwd (set_content q c s) = fs_cwd s"
  "fs_ro (set_content q c s) = fs_ro s"
  by (simp_all add: set_content_def Let_def)

lemma resolve_update [simp]:
  "resolve (s\<lparr>fs_tree := t\<rparr>) p = resolve s p" "resolve (set_content q c s) p = resolve s p"
  by (simp_all add: resolve_def)

lemma set_content_free:
  "fs_tree s q = Some (Reg c0) \<Longrightarrow> fs_free (set_content q c s) = fs_free s + length c0 - length c"
  by (simp add: set_content_def)

lemma file_bytes_set_content [simp]: "file_bytes (set_content q c s) f = (if fh_path f = q then Some c else file_bytes s f)"
  by (simp add: file_bytes_def)

lemma parent_ready_update:
  assumes "parent_ready s p" "fs_cwd s' = fs_cwd s" "fs_ro s' = fs_ro s"
    "fs_tree s' = (fs_tree s)(resolve s p \<mapsto> n)"
  shows "parent_ready s' p"
proof -
  have r: "resolve s' q = resolve s q" for q using assms(2) by (rule resolve_cwd)
  have "length (resolve s (filepath_Dir p)) < length (resolve s p)"
    using parent_ready_path[OF assms(1)] by (metis length_butlast diff_less length_greater_0_conv zero_less_one)
  then have "lookup s' (resolve s (filepath_Dir p)) = lookup s (resolve s (filepath_Dir p))"
    using lookup_upd_long[of "resolve s (filepath_Dir p)" "resolve s p" s "Some n"]
    by (simp add: lookup_def assms(4))
  then show ?thesis using assms(1,3) by (simp add: parent_ready_def r)
qed

lemma set_content_twice:
  "fs_tree s q = Some (Reg c0) \<Longrightarrow> length c1 \<le> fs_free s + length c0 \<Longrightarrow>
   set_content q c2 (set_content q c1 s) = set_content q c2 s"
  by (simp add: set_content_def)

lemma f_Stat_reg: "file_bytes s f = Some c \<Longrightarrow> f_Stat f s = (Inr (int (length c)), s)"
  by (simp add: f_Stat_def)

lemma f_Truncate_reg:
  "file_bytes s f = Some c \<Longrightarrow> 0 \<le> n \<Longrightarrow>
   f_Truncate f n s = (Inr (), set_content (fh_path f) (take (nat n) c @ replicate (nat n - length c) (CHR 0x00)) s)"
  by (simp add: f_Truncate_def)

lemma f_Seek_End:
  "file_bytes s f = Some c \<Longrightarrow> 0 \<le> int (length c) + off \<Longrightarrow>
   f_Seek f off SeekEnd s = (Inr (f\<lparr>fh_off := nat (int (length c) + off)\<rparr>), s)"
  by (simp add: f_Seek_def)

lemma f_WriteString_fits:
  assumes "file_bytes s f = Some c" "write_pos f c \<le> length c"
    "length data \<le> length c - write_pos f c + fs_free s"
  shows "f_WriteString f data s =
     (Inr (f\<lparr>fh_off := write_pos f c + length data\<rparr>),
      set_content (fh_path f) (take (write_pos f c) c @ data @ drop (write_pos f c + length data) c) s)"
  using assms by (simp add: f_WriteString_def write_pos_def Let_def min_def)

lemma f_WriteString_short:
  assumes "file_bytes s f = Some c" "write_pos f c \<le> length c"
    "length c - write_pos f c + fs_free s < length data"
  shows "f_WriteString f data s =
     (Inl (PathError ''write'' (fh_name f) ENOSPC),
      set_content (fh_path f) (take (write_pos f c) c @ take (length c - write_pos f c + fs_free s) data
        @ drop (length c + fs_free s) c) s)"
  using assms by (simp add: f_WriteString_def write_pos_def Let_def min_def)


lemma f_WriteString_end:
  "file_bytes s f = Some c \<Longrightarrow> write_pos f c = length c \<Longrightarrow> length d \<le> fs_free s \<Longrightarrow>
   f_WriteString f d s = (Inr (f\<lparr>fh_off := length c + length d\<rparr>), set_content (fh_path f) (c @ d) s)"
  using f_WriteString_fits[of s f c d] by simp

lemma set_content_append_free:
  "fs_tree s q = Some (Reg c) \<Longrightarrow> fs_free (set_content q (c @ d) s) = fs_free s - length d"
  by (simp add: set_content_free)


section \<open>Calls that only add\<close>

text \<open>\<open>Mkdir\<close> and \<open>MkdirAll\<close> only add directories; opening an existing file without
  \<open>O_TRUNC\<close> changes nothing; a write in \<open>O_APPEND\<close> mode only extends the file.\<close>

lemma fs_grows_refl [simp]: "fs_grows s s"
  by (simp add: fs_grows_def)

lemma fs_grows_trans: "fs_grows s s1 \<Longrightarrow> fs_grows s1 s2 \<Longrightarrow> fs_grows s s2"
  by (simp add: fs_grows_def)

lemma os_Mkdir_grows: "fs_grows s (snd (os_Mkdir d s))"
  by (auto simp: os_Mkdir_def fs_grows_def Let_def split: sum.split inode.split)

lemma mkdir_last_grows: "fs_grows s (snd (mkdir_last d s))"
  using os_Mkdir_grows[of s d]
  by (auto simp: mkdir_last_def split: prod.split sum.split)

lemma os_MkdirAll_grows: "fs_grows s (snd (os_MkdirAll d s))"
proof (induction d s rule: os_MkdirAll.induct)
  case (1 path s)
  show ?case
  proof (cases "fst (os_Stat path s)")
    case (Inl e)
    show ?thesis
    proof (cases "1 < mkdirall_j path")
      case True
      obtain r s' where r: "os_MkdirAll (take (mkdirall_j path - 1) path) s = (r, s')" by fastforce
      have g: "fs_grows s s'" using "1.IH"[OF Inl True] r by simp
      show ?thesis
        using Inl True r g fs_grows_trans[OF g mkdir_last_grows[of s' path]]
        by (cases r) (simp_all add: os_MkdirAll.simps[of path s])
    next
      case False
      then show ?thesis using Inl mkdir_last_grows[of s path] by (simp add: os_MkdirAll.simps[of path s])
    qed
  next
    case (Inr n)
    then show ?thesis by (cases n) (simp_all add: os_MkdirAll.simps[of path s])
  qed
qed

lemma os_OpenFile_existing:
  assumes "fs_tree s (resolve s p) = Some (Reg c)" "\<not> o_trunc fl" "os_OpenFile p fl s = (r, s')"
  shows "s' = s \<and> (\<forall>h. r = Inr h \<longrightarrow> h = new_handle s p fl)"
  using assms by (auto simp: os_OpenFile_def new_handle_def Let_def split: if_splits sum.splits inode.splits)

lemma f_WriteString_append_only:
  assumes "file_bytes s f = Some c" "fh_append f" "f_WriteString f d s = (r, s')"
  shows "\<exists>k. fs_tree s' (fh_path f) = Some (Reg (c @ take k d)) \<and> fs_cwd s' = fs_cwd s
           \<and> (r = Inr (f\<lparr>fh_off := length c + length d\<rparr>) \<longleftrightarrow> k = length d) \<and> (\<forall>h. r = Inr h \<longrightarrow> k = length d)"
  using assms by (auto simp: f_WriteString_def Let_def min_def split: if_splits)

section \<open>Appending calls\<close>

text \<open>Opening without \<open>O_TRUNC\<close> and writing through an \<open>O_APPEND\<close> handle only extend the
  file system.\<close>

lemma fs_extends_refl [simp]: "fs_extends s s"
  by (simp add: fs_extends_def)

lemma fs_extends_trans: "fs_extends s s1 \<Longrightarrow> fs_extends s1 s2 \<Longrightarrow> fs_extends s s2"
  by (fastforce simp: fs_extends_def)

lemma fs_grows_extends: "fs_grows s s' \<Longrightarrow> fs_extends s s'"
  by (simp add: fs_grows_def fs_extends_def)

lemma os_OpenFile_grows: "\<not> o_trunc fl \<Longrightarrow> fs_grows s (snd (os_OpenFile p fl s))"
  by (auto simp: os_OpenFile_def Let_def fs_grows_def split: sum.splits inode.splits option.splits)

lemma os_OpenFile_handle: "fst (os_OpenFile p fl s) = Inr h \<Longrightarrow> fh_append h = o_append fl"
  by (auto simp: os_OpenFile_def Let_def split: if_splits sum.splits inode.splits option.splits)

lemma f_WriteString_extends: "fh_append f \<Longrightarrow> fs_extends s (snd (f_WriteString f d s))"
  by (auto simp: f_WriteString_def Let_def fs_extends_def set_content_def file_bytes_def
           split: option.splits inode.splits)

lemma open_append_write_extends:
  assumes "\<not> o_trunc fl" "o_append fl"
  shows "fs_extends s (snd (go_bind (os_OpenFile p fl) (\<lambda>file. go_bind (f_WriteString file L) (\<lambda>_. go_return ())) s))"
proof -
  obtain r1 s1 where o: "os_OpenFile p fl s = (r1, s1)" by fastforce
  have g: "fs_extends s s1" using os_OpenFile_grows[OF assms(1), of s p] o by (simp add: fs_grows_extends)
  show ?thesis
  proof (cases r1)
    case (Inl e)
    with o g show ?thesis by (simp add: go_bind_def)
  next
    case (Inr h)
    with o assms(2) have "fh_append h" using os_OpenFile_handle[of p fl s h] by simp
    then have "fs_extends s1 (snd (f_WriteString h L s1))" by (rule f_WriteString_extends)
    with o Inr g show ?thesis
      by (auto simp: go_bind_def go_return_def split: prod.split sum.split intro: fs_extends_trans)
  qed
qed

end
