(* ===== verification/Sink.thy ===== *)
theory Sink
  imports Formatter Json FileSystem
begin

text \<open>
  The file sinks: the \<open>saveToFile\<close> functions of the variants, each a sequence of
  \<open>os\<close> calls (theory \<open>FileSystem\<close>) that returns at the first error, over the JSON text
  of the record (theory \<open>Json\<close>).  Three on-disk formats occur:
  \<^item> \<open>src/unnamed/part_001\<close>: a JSON array, each record indented by two spaces
    (\<open>json.MarshalIndent(jsoner, "  ", "  ")\<close>); an empty file receives
    \<open>"[\n  " + json + "\n]"\<close>; a non-empty one is truncated by one byte (the \<open>]\<close>), the
    offset moved one byte before the new end (onto the \<open>\n\<close> that preceded it) and
    \<open>",\n  " + json + "\n]"\<close> written there.  Errors are wrapped with a message naming
    the step.
  \<^item> \<open>src/unnamed/part_002\<close>: a JSON array that a new file starts as \<open>"[\n"\<close>; when the
    file is longer than two bytes its last two bytes are cut and \<open>",\n"\<close> appended; then
    the record (\<open>MarshalIndent(jsoner, "", "  ")\<close>) and \<open>"\n]"\<close> are appended.
  \<^item> \<open>src/main.go\<close> and \<open>src/unnamed/part_004\<close>: newline-delimited JSON, one compact
    record per line, appended with \<open>O_APPEND\<close>; \<open>main.go\<close> always writes \<open>log.json\<close>.
  The properties: round trips (after \<open>N\<close> calls on a fresh file the file parses back to
  the \<open>N\<close> records, in order, for each sink), the corruption of \<open>part_002\<close> on an empty
  existing file, the corruption of \<open>part_001\<close>'s log by an append that runs out of space,
  and the append-only behaviour of the newline-delimited sinks on every outcome.
\<close>

section \<open>The JSON text of a record\<close>

definition record_indent_001 :: "logToJSON \<Rightarrow> string" where
  "record_indent_001 j = json_MarshalIndent ''  '' ''  '' (logToJSON_fields j)"

definition record_indent_002 :: "logToJSON \<Rightarrow> string" where
  "record_indent_002 j = json_MarshalIndent [] ''  '' (logToJSON_fields j)"

definition record_line :: "logToJSON \<Rightarrow> string" where
  "record_line j = json_Marshal (logToJSON_fields j)"

section \<open>The JSON array of \<open>part_001\<close>\<close>

definition saveToFile_001 :: "logToJSON \<Rightarrow> string \<Rightarrow> (fs, unit) go_m" where
  "saveToFile_001 j filePath =
     go_bind (go_wrap ''directory creation failed, '' (os_MkdirAll (filepath_Dir filePath))) (\<lambda>_.
     go_bind (\<lambda>s. if \<not> fileExists filePath s
                  then go_wrap ''file creation failed, '' (go_bind (os_Create filePath) (\<lambda>_. go_return ())) s
                  else (Inr (), s)) (\<lambda>_.
     go_bind (go_wrap ''file open failed, '' (os_OpenFile filePath O_RDWR)) (\<lambda>file.
     go_bind (go_wrap ''file stat failed, '' (f_Stat file)) (\<lambda>size.
     (let jsonData = record_indent_001 j
      in if size = 0 then
           go_wrap ''initial write failed, ''
             (go_bind (f_WriteString file (''[\<newline>  '' @ jsonData @ ''\<newline>]'')) (\<lambda>_. go_return ()))
         else
           go_bind (go_wrap ''truncate failed, '' (f_Truncate file (size - 1))) (\<lambda>_.
           go_bind (go_wrap ''seek failed, '' (f_Seek file (-1) SeekEnd)) (\<lambda>file.
           go_wrap ''append failed, ''
             (go_bind (f_WriteString file ('',\<newline>  '' @ jsonData @ ''\<newline>]'')) (\<lambda>_. go_return ())))))))))"

section \<open>The JSON array of \<open>part_002\<close>\<close>

definition saveToFile_002 :: "logToJSON \<Rightarrow> string \<Rightarrow> (fs, unit) go_m" where
  "saveToFile_002 j filePath =
     go_bind (os_MkdirAll (filepath_Dir filePath)) (\<lambda>_.
     go_bind (\<lambda>s. if \<not> fileExists filePath s
                  then go_bind (os_Create filePath) (\<lambda>file.
                       go_bind (f_WriteString file ''[\<newline>'') (\<lambda>_. go_return ())) s
                  else (Inr (), s)) (\<lambda>_.
     go_bind (os_OpenFile filePath O_RDWR) (\<lambda>file.
     go_bind (f_Stat file) (\<lambda>size.
     (let jsonData = record_indent_002 j
      in go_bind (if 2 < size then
                    go_bind (f_Truncate file (size - 2)) (\<lambda>_.
                    go_bind (f_Seek file 0 SeekEnd) (\<lambda>file.
                    go_bind (f_WriteString file '',\<newline>'') (\<lambda>_. go_return ())))
                  else go_return ()) (\<lambda>_.
         go_bind (f_Seek file 0 SeekEnd) (\<lambda>file.
         go_bind (f_WriteString file jsonData) (\<lambda>file.
         go_bind (f_WriteString file ''\<newline>]'') (\<lambda>_. go_return ())))))))))"

section \<open>Newline-delimited JSON of \<open>main.go\<close> and \<open>part_004\<close>\<close>

definition saveToFile_main :: "logToJSON \<Rightarrow> (fs, unit) go_m" where
  "saveToFile_main j =
     go_bind (os_OpenFile ''log.json'' O_CREATE_WRONLY_APPEND) (\<lambda>file.
     go_bind (f_WriteString file (record_line j @ ''\<newline>'')) (\<lambda>_. go_return ()))"

definition saveToFile_004 :: "logToJSON \<Rightarrow> string \<Rightarrow> (fs, unit) go_m" where
  "saveToFile_004 j filePath =
     go_bind (os_MkdirAll (filepath_Dir filePath)) (\<lambda>_.
     go_bind (os_OpenFile filePath O_CREATE_WRONLY_APPEND) (\<lambda>file.
     go_bind (f_WriteString file (record_line j @ ''\<newline>'')) (\<lambda>_. go_return ())))"

section \<open>Successive calls\<close>

text \<open>The file side of a sequence of log calls on one path: each call's result, and the
  state the next call starts from (a failed save does not stop the caller).\<close>

fun save_seq :: "(logToJSON \<Rightarrow> string \<Rightarrow> (fs, unit) go_m) \<Rightarrow> string \<Rightarrow> logToJSON list \<Rightarrow> fs \<Rightarrow> (go_error + unit) list \<times> fs" where
  "save_seq f p [] s = ([], s)"
| "save_seq f p (j # js) s = (let (r, s1) = f j p s; (rs, s2) = save_seq f p js s1 in (r # rs, s2))"

text \<open>The text the JSON array of \<open>part_001\<close> has after the records \<open>objs\<close>.\<close>

definition arr_001 :: "string list \<Rightarrow> string" where
  "arr_001 objs = arr_text ''\<newline>  '' ''\<newline>  '' ''\<newline>'' objs"

text \<open>The text the JSON array of \<open>part_002\<close> has after the records \<open>objs\<close>.\<close>

definition arr_002 :: "string list \<Rightarrow> string" where
  "arr_002 objs = arr_text ''\<newline>'' ''\<newline>'' ''\<newline>'' objs"

text \<open>The text of newline-delimited JSON after the records \<open>objs\<close>.\<close>

definition ndjson_text :: "string list \<Rightarrow> string" where
  "ndjson_text objs = concat (map (\<lambda>x. x @ ''\<newline>'') objs)"

text \<open>Example states and a record for the concrete instances below: a working directory
  \<open>/home\<close> with nothing in it, the same with an empty \<open>log.json\<close>, and with a
  \<open>log.json\<close> holding one byte.\<close>

definition example_fs :: fs where
  "example_fs = \<lparr>fs_tree = [[] \<mapsto> Dir, [''home''] \<mapsto> Dir], fs_ro = {}, fs_free = 1000, fs_cwd = [''home'']\<rparr>"

definition example_fs_with :: "string \<Rightarrow> fs" where
  "example_fs_with c = example_fs\<lparr>fs_tree := (fs_tree example_fs)([''home'', ''log.json''] \<mapsto> Reg c)\<rparr>"

definition example_record :: logToJSON where
  "example_record = \<lparr>lj_ClosingTime = ''2024-05-06 07:08:09'', lj_Level = ''INFO'', lj_Process = ''P'',
     lj_Duration = [], lj_User = [], lj_Message = ''hello''\<rparr>"

text \<open>A log file holding one record, on a device with 10 free bytes.\<close>

definition example_fs_full :: fs where
  "example_fs_full = (example_fs_with (arr_001 [record_indent_001 example_record]))\<lparr>fs_free := 10\<rparr>"

section \<open>Sequences of appends\<close>

text \<open>A sink that, on a file holding the encoding \<open>arr objs\<close> of some records, appends one
  more record at a bounded cost in free space, keeps doing so over a sequence of calls.\<close>

lemma save_seq_appends:
  assumes step: "\<And>s objs j. parent_ready s p \<Longrightarrow> fs_tree s (resolve s p) = Some (Reg (arr objs)) \<Longrightarrow>
      objs \<noteq> [] \<Longrightarrow> cost j \<le> fs_free s \<Longrightarrow>
      \<exists>s'. f j p s = (Inr (), s') \<and> parent_ready s' p \<and> fs_cwd s' = fs_cwd s
        \<and> fs_tree s' (resolve s p) = Some (Reg (arr (objs @ [enc j]))) \<and> fs_free s - cost j \<le> fs_free s'"
    and "parent_ready s p" "fs_tree s (resolve s p) = Some (Reg (arr (map enc acc)))" "acc \<noteq> []"
    "(\<Sum>j\<leftarrow>js. cost j) \<le> fs_free s"
  shows "\<exists>s'. save_seq f p js s = (map (\<lambda>_. Inr ()) js, s') \<and> fs_cwd s' = fs_cwd s
           \<and> fs_tree s' (resolve s p) = Some (Reg (arr (map enc (acc @ js))))"
  using assms(2-)
proof (induction js arbitrary: s acc)
  case Nil
  then show ?case by simp
next
  case (Cons j js)
  have "map enc acc \<noteq> []" "cost j \<le> fs_free s" using Cons.prems(3,4) by simp_all
  then obtain s1 where s1: "f j p s = (Inr (), s1)" "parent_ready s1 p" "fs_cwd s1 = fs_cwd s"
      "fs_tree s1 (resolve s p) = Some (Reg (arr (map enc acc @ [enc j])))" "fs_free s - cost j \<le> fs_free s1"
    using step[OF Cons.prems(1,2)] by blast
  have r: "resolve s1 p = resolve s p" using s1(3) by (rule resolve_cwd)
  have "(\<Sum>j\<leftarrow>js. cost j) \<le> fs_free s1" using s1(5) Cons.prems(4) by simp
  then obtain s' where "save_seq f p js s1 = (map (\<lambda>_. Inr ()) js, s')" "fs_cwd s' = fs_cwd s1"
      "fs_tree s' (resolve s1 p) = Some (Reg (arr (map enc ((acc @ [j]) @ js))))"
    using Cons.IH[OF s1(2), of "acc @ [j]"] s1(4) r by auto
  then show ?case using s1(1,3) r by simp
qed

section \<open>Properties of the \<open>part_001\<close> sink\<close>

lemma save001_empty:
  assumes ready: "parent_ready s p" and reg: "fs_tree s (resolve s p) = Some (Reg [])"
    and space: "length (record_indent_001 j) + 6 \<le> fs_free s"
  shows "saveToFile_001 j p s = (Inr (), set_content (resolve s p) (arr_001 [record_indent_001 j]) s)"
proof -
  let ?h = "new_handle s p O_RDWR"
  have fb: "file_bytes s ?h = Some []" using reg by (simp add: file_bytes_def new_handle_def)
  have ex: "fileExists p s" using parent_ready_fileExists[OF ready] reg by simp
  have op: "os_OpenFile p O_RDWR s = (Inr ?h, s)"
    using parent_ready_OpenFile_reg[OF ready reg] by (simp add: O_RDWR_def)
  have wr: "f_WriteString ?h (''[\<newline>  '' @ record_indent_001 j @ ''\<newline>]'') s =
      (Inr (?h\<lparr>fh_off := length (''[\<newline>  '' @ record_indent_001 j @ ''\<newline>]'')\<rparr>),
       set_content (resolve s p) (''[\<newline>  '' @ record_indent_001 j @ ''\<newline>]'') s)"
    using f_WriteString_fits[OF fb, of "''[\<newline>  '' @ record_indent_001 j @ ''\<newline>]''"] space
    by (simp add: write_pos_def new_handle_def O_RDWR_def)
  show ?thesis
    using parent_ready_MkdirAll[OF ready] ex op f_Stat_reg[OF fb] wr
    by (simp add: saveToFile_001_def go_bind_def go_wrap_def go_return_def arr_001_def arr_text_def)
qed


lemma save001_create:
  assumes ready: "parent_ready s p" and none: "fs_tree s (resolve s p) = None"
  shows "saveToFile_001 j p s = saveToFile_001 j p (s\<lparr>fs_tree := (fs_tree s)(resolve s p \<mapsto> Reg [])\<rparr>)"
proof -
  let ?s1 = "s\<lparr>fs_tree := (fs_tree s)(resolve s p \<mapsto> Reg [])\<rparr>"
  have ready1: "parent_ready ?s1 p" by (rule parent_ready_update[OF ready]) simp_all
  have r1: "resolve ?s1 p = resolve s p" by (simp add: resolve_def)
  have "\<not> fileExists p s" using parent_ready_fileExists[OF ready] none by simp
  moreover have "fileExists p ?s1" using parent_ready_fileExists[OF ready1] r1 by simp
  moreover have "os_Create p s = (Inr (new_handle s p O_CREATE_TRUNC), ?s1)"
    using parent_ready_OpenFile_new[OF ready none] by (simp add: os_Create_def O_CREATE_TRUNC_def)
  ultimately show ?thesis
    using parent_ready_MkdirAll[OF ready] parent_ready_MkdirAll[OF ready1]
    by (simp add: saveToFile_001_def go_bind_def go_wrap_def go_return_def)
qed

lemma arr_001_snoc:
  "objs \<noteq> [] \<Longrightarrow> arr_001 objs = X @ ''\<newline>]'' \<Longrightarrow> X @ '',\<newline>  '' @ J @ ''\<newline>]'' = arr_001 (objs @ [J])"
  by (simp add: arr_001_def arr_text_def)

lemma save001_last_write:
  assumes ready: "parent_ready s p" and reg: "fs_tree s (resolve s p) = Some (Reg (X @ ''\<newline>]''))"
  shows "saveToFile_001 j p s =
           go_wrap ''append failed, ''
             (go_bind (f_WriteString ((new_handle s p O_RDWR)\<lparr>fh_off := length X\<rparr>)
                         ('',\<newline>  '' @ record_indent_001 j @ ''\<newline>]'')) (\<lambda>_. go_return ()))
             (set_content (resolve s p) (X @ ''\<newline>'') s)"
proof -
  let ?h = "new_handle s p O_RDWR" and ?c = "X @ ''\<newline>]''" and ?P = "resolve s p"
  define n where "n = length ?c"
  have n: "n = length X + 2" by (simp add: n_def)
  have fb: "file_bytes s ?h = Some ?c" using reg by (simp add: file_bytes_def new_handle_def)
  have ex: "fileExists p s" using parent_ready_fileExists[OF ready] reg by simp
  have op: "os_OpenFile p O_RDWR s = (Inr ?h, s)"
    using parent_ready_OpenFile_reg[OF ready reg] by (simp add: O_RDWR_def)
  define s2 where "s2 = set_content ?P (X @ ''\<newline>'') s"
  have tr: "f_Truncate ?h (int n - 1) s = (Inr (), s2)"
  proof -
    have "nat (int n - 1) = n - 1" "n - 1 - length ?c = 0" "0 \<le> int n - 1" "take (n - 1) ?c = X @ ''\<newline>''"
      using n by (simp_all add: n_def)
    then show ?thesis using f_Truncate_reg[OF fb, of "int n - 1"] by (simp add: s2_def new_handle_def)
  qed
  have fb2: "file_bytes s2 ?h = Some (X @ ''\<newline>'')" by (simp add: s2_def new_handle_def)
  have sk: "f_Seek ?h (-1) SeekEnd s2 = (Inr (?h\<lparr>fh_off := length X\<rparr>), s2)"
    using f_Seek_End[OF fb2, of "-1"] by simp
  have "int n \<noteq> 0" using n by simp
  then show ?thesis
    using parent_ready_MkdirAll[OF ready] ex op f_Stat_reg[OF fb] tr sk
    by (simp add: saveToFile_001_def go_bind_def go_wrap_def go_return_def n_def s2_def)
qed

lemma save001_append:
  assumes ready: "parent_ready s p" and reg: "fs_tree s (resolve s p) = Some (Reg (arr_001 objs))"
    and ne: "objs \<noteq> []" and space: "length (record_indent_001 j) + 6 \<le> fs_free s"
  shows "saveToFile_001 j p s = (Inr (), set_content (resolve s p) (arr_001 (objs @ [record_indent_001 j])) s)"
proof -
  let ?T = "'',\<newline>  '' @ record_indent_001 j @ ''\<newline>]''" and ?P = "resolve s p"
  define X where "X = CHR ''['' # ''\<newline>  '' @ strings_Join objs ('','' @ ''\<newline>  '')"
  have c: "arr_001 objs = X @ ''\<newline>]''" by (simp add: arr_001_def arr_text_def X_def)
  let ?h2 = "(new_handle s p O_RDWR)\<lparr>fh_off := length X\<rparr>" and ?s2 = "set_content ?P (X @ ''\<newline>'') s"
  have reg': "fs_tree s ?P = Some (Reg (X @ ''\<newline>]''))" using reg c by simp
  have fb2: "file_bytes ?s2 ?h2 = Some (X @ ''\<newline>'')" by (simp add: new_handle_def file_bytes_def)
  have free2: "fs_free ?s2 = fs_free s + 1"
    using set_content_free[OF reg', of "X @ ''\<newline>''"] by simp
  have wp: "write_pos ?h2 (X @ ''\<newline>'') = length X" by (simp add: write_pos_def new_handle_def O_RDWR_def)
  have wr: "f_WriteString ?h2 ?T ?s2 = (Inr (?h2\<lparr>fh_off := length X + length ?T\<rparr>), set_content ?P (X @ ?T) ?s2)"
    using f_WriteString_fits[OF fb2, of ?T] wp free2 space by (simp add: new_handle_def)
  have "set_content ?P (X @ ?T) ?s2 = set_content ?P (arr_001 (objs @ [record_indent_001 j])) s"
    using arr_001_snoc[OF ne c] set_content_twice[OF reg'] by simp
  then show ?thesis
    using save001_last_write[OF ready reg', of j] wr by (simp add: go_bind_def go_wrap_def go_return_def)
qed


lemma length_arr_001_snoc:
  "objs \<noteq> [] \<Longrightarrow> length (arr_001 (objs @ [J])) = length (arr_001 objs) + length J + 4"
  by (simp add: arr_001_def arr_text_def)

lemma save001_step:
  assumes ready: "parent_ready s p" and reg: "fs_tree s (resolve s p) = Some (Reg (arr_001 objs))"
    and ne: "objs \<noteq> []" and space: "length (record_indent_001 j) + 6 \<le> fs_free s"
  shows "\<exists>s'. saveToFile_001 j p s = (Inr (), s') \<and> parent_ready s' p \<and> fs_cwd s' = fs_cwd s
    \<and> fs_tree s' (resolve s p) = Some (Reg (arr_001 (objs @ [record_indent_001 j])))
    \<and> fs_free s - (length (record_indent_001 j) + 6) \<le> fs_free s'"
proof -
  let ?c' = "arr_001 (objs @ [record_indent_001 j])"
  have "fs_free s - (length (record_indent_001 j) + 6) \<le> fs_free (set_content (resolve s p) ?c' s)"
    using set_content_free[OF reg, of ?c'] length_arr_001_snoc[OF ne] by simp
  moreover have "parent_ready (set_content (resolve s p) ?c' s) p"
    by (rule parent_ready_update[OF ready]) simp_all
  ultimately show ?thesis using save001_append[OF ready reg ne space] by simp
qed

lemma record_indent_001_obj:
  "record_indent_001 j = obj_text (''\<newline>'' @ ''  '' @ ''  '') '' '' (''\<newline>'' @ ''  '') (logToJSON_fields j)"
  by (simp add: record_indent_001_def json_MarshalIndent_obj_text logToJSON_fields_def)

lemma parse_arr_001:
  assumes ne: "js \<noteq> []"
  shows "parse_array (arr_001 (map record_indent_001 js)) = Some (map (\<lambda>j. sanitize_fields (logToJSON_fields j)) js)"
proof -
  have f: "record_indent_001 = obj_text (''\<newline>'' @ ''  '' @ ''  '') '' '' (''\<newline>'' @ ''  '') \<circ> logToJSON_fields"
    by (rule ext) (simp add: record_indent_001_obj)
  have "\<forall>fs\<in>set (map logToJSON_fields js). fs \<noteq> []" by (simp add: logToJSON_fields_def)
  then show ?thesis
    using parse_array_arr[of "''\<newline>'' @ ''  '' @ ''  ''" "'' ''" "''\<newline>'' @ ''  ''" "''\<newline>  ''"
        "''\<newline>  ''" "''\<newline>''" "map logToJSON_fields js"] ne
    by (simp add: arr_001_def f all_ws_def json_ws_def comp_def)
qed

lemma save001_fresh:
  assumes ready: "parent_ready s p" and new: "fs_tree s (resolve s p) = None"
    and space: "length (record_indent_001 j) + 6 \<le> fs_free s"
  shows "saveToFile_001 j p s = (Inr (), set_content (resolve s p) (arr_001 [record_indent_001 j])
           (s\<lparr>fs_tree := (fs_tree s)(resolve s p \<mapsto> Reg [])\<rparr>))"
proof -
  let ?s0 = "s\<lparr>fs_tree := (fs_tree s)(resolve s p \<mapsto> Reg [])\<rparr>"
  have ready0: "parent_ready ?s0 p" by (rule parent_ready_update[OF ready]) simp_all
  show ?thesis
    using save001_create[OF ready new, of j] save001_empty[OF ready0, of j] space by simp
qed

text \<open>C5: the JSON-array sink of \<open>part_001\<close>: from a path whose directory exists and where
  the file does not, with enough free space, N successive saves all succeed and leave a file
  that parses as a JSON array of exactly the N records, in call order (strings as
  \<open>encoding/json\<close> repairs invalid UTF-8).\<close>

theorem saveToFile_001_records:
  assumes ready: "parent_ready s p" and new: "fs_tree s (resolve s p) = None" and ne: "js \<noteq> []"
    and space: "(\<Sum>j\<leftarrow>js. length (record_indent_001 j) + 6) \<le> fs_free s"
  shows "\<exists>s' c. save_seq saveToFile_001 p js s = (map (\<lambda>_. Inr ()) js, s') \<and> file_content s' p = Some c
           \<and> parse_array c = Some (map (\<lambda>j. sanitize_fields (logToJSON_fields j)) js)"
proof -
  obtain j js' where js: "js = j # js'" using ne by (cases js) auto
  let ?P = "resolve s p"
  define s0 where "s0 = s\<lparr>fs_tree := (fs_tree s)(?P \<mapsto> Reg [])\<rparr>"
  have ready0: "parent_ready s0 p" by (rule parent_ready_update[OF ready]) (simp_all add: s0_def)
  define s1 where "s1 = set_content ?P (arr_001 [record_indent_001 j]) s0"
  have st: "saveToFile_001 j p s = (Inr (), s1)"
    using save001_fresh[OF ready new, of j] space js by (simp add: s0_def s1_def)
  have ready1: "parent_ready s1 p" by (rule parent_ready_update[OF ready0]) (simp_all add: s1_def s0_def)
  have "fs_free s1 = fs_free s - (length (record_indent_001 j) + 6)"
    using set_content_free[of s0 ?P "[]" "arr_001 [record_indent_001 j]"]
    by (simp add: s1_def s0_def arr_001_def arr_text_def)
  then have free1: "(\<Sum>j\<leftarrow>js'. length (record_indent_001 j) + 6) \<le> fs_free s1"
    using space js by simp
  have c1: "fs_tree s1 (resolve s1 p) = Some (Reg (arr_001 (map record_indent_001 [j])))"
    by (simp add: s1_def s0_def)
  have r1: "resolve s1 p = ?P" by (simp add: s1_def s0_def)
  obtain s' where run: "save_seq saveToFile_001 p js' s1 = (map (\<lambda>_. Inr ()) js', s')"
    and cwd: "fs_cwd s' = fs_cwd s1"
    and c': "fs_tree s' ?P = Some (Reg (arr_001 (map record_indent_001 js)))"
    using save_seq_appends[where arr = arr_001 and enc = record_indent_001 and f = saveToFile_001 and p = p
        and cost = "\<lambda>j. length (record_indent_001 j) + 6", OF save001_step ready1 c1 _ free1] js r1
    by auto
  have "parse_array (arr_001 (map record_indent_001 js)) = Some (map (\<lambda>j. sanitize_fields (logToJSON_fields j)) js)"
    by (rule parse_arr_001[OF ne])
  moreover have "resolve s' p = ?P" using cwd r1 resolve_cwd[of s' s1 p] by simp
  ultimately show ?thesis
    using st run c' js by (simp add: file_content_def)
qed

text \<open>C26: an append of \<open>part_001\<close> that runs out of space loses the log: the code has
  already cut the closing \<open>"\n]"\<close> of the array and overwrites from there, so the file ends up
  as the old array without its last two bytes followed by as much of the new element as fits;
  the old content is no longer a prefix of the file, and the call only reports the write
  error.\<close>

theorem saveToFile_001_enospc_loses_log:
  assumes ready: "parent_ready s p" and reg: "fs_tree s (resolve s p) = Some (Reg (arr_001 objs))"
    and short: "fs_free s + 2 < length (record_indent_001 j) + 6"
  shows "fst (saveToFile_001 j p s) = Inl (Wrapped ''append failed, '' (PathError ''write'' p ENOSPC))
       \<and> file_content (snd (saveToFile_001 j p s)) p =
           Some (take (length (arr_001 objs) - 2) (arr_001 objs)
                 @ take (fs_free s + 2) ('',\<newline>  '' @ record_indent_001 j @ ''\<newline>]''))
       \<and> (\<nexists>d. file_content (snd (saveToFile_001 j p s)) p = Some (arr_001 objs @ d))"
proof -
  let ?T = "'',\<newline>  '' @ record_indent_001 j @ ''\<newline>]''" and ?P = "resolve s p"
  define X where "X = take (length (arr_001 objs) - 2) (arr_001 objs)"
  have c: "arr_001 objs = X @ ''\<newline>]''"
    by (cases objs) (simp_all add: X_def arr_001_def arr_text_def)
  let ?h2 = "(new_handle s p O_RDWR)\<lparr>fh_off := length X\<rparr>" and ?s2 = "set_content ?P (X @ ''\<newline>'') s"
  have reg': "fs_tree s ?P = Some (Reg (X @ ''\<newline>]''))" using reg c by simp
  have fb2: "file_bytes ?s2 ?h2 = Some (X @ ''\<newline>'')" by (simp add: new_handle_def file_bytes_def)
  have free2: "fs_free ?s2 = fs_free s + 1"
    using set_content_free[OF reg', of "X @ ''\<newline>''"] by simp
  have wp: "write_pos ?h2 (X @ ''\<newline>'') = length X" by (simp add: write_pos_def new_handle_def O_RDWR_def)
  have wr: "f_WriteString ?h2 ?T ?s2 =
              (Inl (PathError ''write'' p ENOSPC), set_content ?P (X @ take (fs_free s + 2) ?T) ?s2)"
    using f_WriteString_short[OF fb2, of ?T] wp free2 short by (simp add: new_handle_def)
  have sv: "saveToFile_001 j p s =
              (Inl (Wrapped ''append failed, '' (PathError ''write'' p ENOSPC)),
               set_content ?P (X @ take (fs_free s + 2) ?T) ?s2)"
    using save001_last_write[OF ready reg', of j] wr by (simp add: go_bind_def go_wrap_def)
  have fc: "file_content (snd (saveToFile_001 j p s)) p = Some (X @ take (fs_free s + 2) ?T)"
    using sv by (simp add: file_content_def)
  have "X @ take (fs_free s + 2) ?T \<noteq> arr_001 objs @ d" for d
  proof
    assume "X @ take (fs_free s + 2) ?T = arr_001 objs @ d"
    then have "take (fs_free s + 2) ?T = ''\<newline>]'' @ d" by (simp add: c)
    then show False by (cases "fs_free s") simp_all
  qed
  then show ?thesis using sv fc by (simp add: X_def)
qed

section \<open>Properties of the \<open>part_002\<close> sink\<close>

text \<open>What follows the existence check of \<open>part_002\<close>, from an existing file with bytes
  \<open>c\<close>: the file ends up as \<open>c\<close> cut by two bytes when longer than two, then
  \<open>",\n"\<close> in that case, the record, and \<open>"\n]"\<close>.\<close>

lemma save002_exists:
  assumes ready: "parent_ready s p" and reg: "fs_tree s (resolve s p) = Some (Reg c)"
    and space: "length (record_indent_002 j) + 4 \<le> fs_free s"
  shows "saveToFile_002 j p s =
    (Inr (), set_content (resolve s p)
       ((if 2 < length c then take (length c - 2) c @ '',\<newline>'' else c) @ record_indent_002 j @ ''\<newline>]'') s)"
proof -
  let ?h = "new_handle s p O_RDWR" and ?P = "resolve s p" and ?J = "record_indent_002 j"
  have fb: "file_bytes s ?h = Some c" using reg by (simp add: file_bytes_def new_handle_def)
  have ex: "fileExists p s" using parent_ready_fileExists[OF ready] reg by simp
  have op: "os_OpenFile p O_RDWR s = (Inr ?h, s)"
    using parent_ready_OpenFile_reg[OF ready reg] by (simp add: O_RDWR_def)
  define c1 where "c1 = (if 2 < length c then take (length c - 2) c @ '',\<newline>'' else c)"
  define s1 where "s1 = set_content ?P c1 s"
  have blk: "(if 2 < int (length c) then
                    go_bind (f_Truncate ?h (int (length c) - 2)) (\<lambda>_.
                    go_bind (f_Seek ?h 0 SeekEnd) (\<lambda>file.
                    go_bind (f_WriteString file '',\<newline>'') (\<lambda>_. go_return ())))
                  else go_return ()) s = (Inr (), s1)"
  proof (cases "2 < length c")
    case True
    define c0 where "c0 = take (length c - 2) c"
    have l0: "length c0 = length c - 2" using True by (simp add: c0_def)
    have tr: "f_Truncate ?h (int (length c) - 2) s = (Inr (), set_content ?P c0 s)"
      using f_Truncate_reg[OF fb, of "int (length c) - 2"] True
      by (simp add: c0_def new_handle_def nat_diff_distrib)
    have fb0: "file_bytes (set_content ?P c0 s) ?h = Some c0" by (simp add: new_handle_def)
    have sk: "f_Seek ?h 0 SeekEnd (set_content ?P c0 s) = (Inr (?h\<lparr>fh_off := length c0\<rparr>), set_content ?P c0 s)"
      using f_Seek_End[OF fb0, of 0] by simp
    have fb0': "file_bytes (set_content ?P c0 s) (?h\<lparr>fh_off := length c0\<rparr>) = Some c0"
      using fb0 by (simp add: file_bytes_def)
    have "fs_free (set_content ?P c0 s) = fs_free s + 2"
      using set_content_free[OF reg, of c0] l0 True by simp
    then have wr: "f_WriteString (?h\<lparr>fh_off := length c0\<rparr>) '',\<newline>'' (set_content ?P c0 s) =
        (Inr (?h\<lparr>fh_off := length c0 + 2\<rparr>), set_content ?P (c0 @ '',\<newline>'') (set_content ?P c0 s))"
      using f_WriteString_end[OF fb0'] by (simp add: write_pos_def new_handle_def O_RDWR_def)
    have "set_content ?P (c0 @ '',\<newline>'') (set_content ?P c0 s) = s1"
      using set_content_twice[OF reg] l0 True by (simp add: s1_def c1_def c0_def)
    then show ?thesis using True tr sk wr by (simp add: go_bind_def go_return_def)
  next
    case False
    then have "s1 = s" using reg by (simp add: s1_def c1_def set_content_def fun_upd_idem)
    then show ?thesis using False by (simp add: go_bind_def go_return_def)
  qed
  have fb1: "file_bytes s1 ?h = Some c1" by (simp add: s1_def new_handle_def)
  have free1: "fs_free s1 + 2 \<ge> fs_free s + length c - length c1 + 2"
    using set_content_free[OF reg, of c1] by (simp add: s1_def)
  have reg1: "fs_tree s1 ?P = Some (Reg c1)" by (simp add: s1_def)
  have sk1: "f_Seek ?h 0 SeekEnd s1 = (Inr (?h\<lparr>fh_off := length c1\<rparr>), s1)"
    using f_Seek_End[OF fb1, of 0] by simp
  have fb1': "file_bytes s1 (?h\<lparr>fh_off := length c1\<rparr>) = Some c1" using fb1 by (simp add: file_bytes_def)
  have lc1: "length c1 \<le> length c + 2" by (simp add: c1_def)
  have fr1: "fs_free s1 = fs_free s + length c - length c1"
    using set_content_free[OF reg, of c1] by (simp add: s1_def)
  have w1: "f_WriteString (?h\<lparr>fh_off := length c1\<rparr>) ?J s1 =
      (Inr (?h\<lparr>fh_off := length c1 + length ?J\<rparr>), set_content ?P (c1 @ ?J) s1)"
    using f_WriteString_end[OF fb1'] fr1 lc1 space by (simp add: write_pos_def new_handle_def O_RDWR_def)
  define s2 where "s2 = set_content ?P (c1 @ ?J) s1"
  have fb2: "file_bytes s2 (?h\<lparr>fh_off := length c1 + length ?J\<rparr>) = Some (c1 @ ?J)"
    by (simp add: s2_def new_handle_def file_bytes_def)
  have fr2: "fs_free s2 = fs_free s1 - length ?J" using set_content_append_free[OF reg1] by (simp add: s2_def)
  have w2: "f_WriteString (?h\<lparr>fh_off := length c1 + length ?J\<rparr>) ''\<newline>]'' s2 =
      (Inr (?h\<lparr>fh_off := length c1 + length ?J + 2\<rparr>), set_content ?P (c1 @ ?J @ ''\<newline>]'') s2)"
    using f_WriteString_end[OF fb2, of "''\<newline>]''"] fr2 fr1 lc1 space
    by (simp add: write_pos_def new_handle_def O_RDWR_def)
  have a: "length c1 \<le> fs_free s + length c" using lc1 space by simp
  have b: "length (c1 @ ?J) \<le> fs_free s1 + length c1" using a lc1 space fr1 by simp
  have "set_content ?P (c1 @ ?J @ ''\<newline>]'') s2 = set_content ?P (c1 @ ?J @ ''\<newline>]'') s1"
    using set_content_twice[OF reg1 b] by (simp add: s2_def)
  also have "\<dots> = set_content ?P (c1 @ ?J @ ''\<newline>]'') s"
    using set_content_twice[OF reg a] by (simp add: s1_def)
  finally have "set_content ?P (c1 @ ?J @ ''\<newline>]'') s2 = set_content ?P (c1 @ ?J @ ''\<newline>]'') s" .
  then show ?thesis
    using parent_ready_MkdirAll[OF ready] ex op f_Stat_reg[OF fb] blk sk1 w1 w2
    by (simp add: saveToFile_002_def go_bind_def go_return_def s2_def c1_def del: os_MkdirAll.simps)
qed

lemma save002_create:
  assumes ready: "parent_ready s p" and none: "fs_tree s (resolve s p) = None" and space: "2 \<le> fs_free s"
  shows "saveToFile_002 j p s = saveToFile_002 j p (set_content (resolve s p) ''[\<newline>'' (s\<lparr>fs_tree := (fs_tree s)(resolve s p \<mapsto> Reg [])\<rparr>))"
proof -
  let ?s0 = "s\<lparr>fs_tree := (fs_tree s)(resolve s p \<mapsto> Reg [])\<rparr>"
  let ?s1 = "set_content (resolve s p) ''[\<newline>'' ?s0"
  let ?h = "new_handle s p O_CREATE_TRUNC"
  have ready1: "parent_ready ?s1 p" by (rule parent_ready_update[OF ready]) simp_all
  have "\<not> fileExists p s" using parent_ready_fileExists[OF ready] none by simp
  moreover have "fileExists p ?s1" using parent_ready_fileExists[OF ready1] by simp
  moreover have "os_Create p s = (Inr ?h, ?s0)"
    using parent_ready_OpenFile_new[OF ready none] by (simp add: os_Create_def O_CREATE_TRUNC_def)
  moreover have "f_WriteString ?h ''[\<newline>'' ?s0 = (Inr (?h\<lparr>fh_off := 2\<rparr>), ?s1)"
    using f_WriteString_end[of ?s0 ?h "[]" "''[\<newline>''"] space
    by (simp add: file_bytes_def new_handle_def write_pos_def O_CREATE_TRUNC_def)
  ultimately show ?thesis
    using parent_ready_MkdirAll[OF ready] parent_ready_MkdirAll[OF ready1]
    by (simp add: saveToFile_002_def go_bind_def go_return_def del: os_MkdirAll.simps)
qed

lemma arr_002_snoc:
  "objs \<noteq> [] \<Longrightarrow> take (length (arr_002 objs) - 2) (arr_002 objs) @ '',\<newline>'' @ J @ ''\<newline>]'' = arr_002 (objs @ [J])"
  by (simp add: arr_002_def arr_text_def)

lemma length_arr_002: "objs \<noteq> [] \<Longrightarrow> 2 < length (arr_002 objs)"
  by (simp add: arr_002_def arr_text_def)

lemma save002_step:
  assumes ready: "parent_ready s p" and reg: "fs_tree s (resolve s p) = Some (Reg (arr_002 objs))"
    and ne: "objs \<noteq> []" and space: "length (record_indent_002 j) + 4 \<le> fs_free s"
  shows "\<exists>s'. saveToFile_002 j p s = (Inr (), s') \<and> parent_ready s' p \<and> fs_cwd s' = fs_cwd s
    \<and> fs_tree s' (resolve s p) = Some (Reg (arr_002 (objs @ [record_indent_002 j])))
    \<and> fs_free s - (length (record_indent_002 j) + 4) \<le> fs_free s'"
proof -
  let ?c' = "arr_002 (objs @ [record_indent_002 j])"
  have st: "saveToFile_002 j p s = (Inr (), set_content (resolve s p) ?c' s)"
    using save002_exists[OF ready reg space] arr_002_snoc[OF ne] length_arr_002[OF ne] by simp
  have "length ?c' = length (arr_002 objs) + length (record_indent_002 j) + 2"
    using ne by (simp add: arr_002_def arr_text_def)
  then have "fs_free s - (length (record_indent_002 j) + 4) \<le> fs_free (set_content (resolve s p) ?c' s)"
    using set_content_free[OF reg, of ?c'] by simp
  moreover have "parent_ready (set_content (resolve s p) ?c' s) p"
    by (rule parent_ready_update[OF ready]) simp_all
  ultimately show ?thesis using st by simp
qed

lemma record_indent_002_obj:
  "record_indent_002 j = obj_text (''\<newline>'' @ [] @ ''  '') '' '' (''\<newline>'' @ []) (logToJSON_fields j)"
  by (simp add: record_indent_002_def json_MarshalIndent_obj_text logToJSON_fields_def)

lemma parse_arr_002:
  assumes ne: "js \<noteq> []"
  shows "parse_array (arr_002 (map record_indent_002 js)) = Some (map (\<lambda>j. sanitize_fields (logToJSON_fields j)) js)"
proof -
  have f: "record_indent_002 = obj_text (''\<newline>'' @ [] @ ''  '') '' '' (''\<newline>'' @ []) \<circ> logToJSON_fields"
    by (rule ext) (simp add: record_indent_002_obj)
  have "\<forall>fs\<in>set (map logToJSON_fields js). fs \<noteq> []" by (simp add: logToJSON_fields_def)
  then show ?thesis
    using parse_array_arr[of "''\<newline>'' @ [] @ ''  ''" "'' ''" "''\<newline>'' @ []" "''\<newline>''"
        "''\<newline>''" "''\<newline>''" "map logToJSON_fields js"] ne
    by (simp add: arr_002_def f all_ws_def json_ws_def comp_def)
qed

text \<open>C6: the JSON-array sink of \<open>part_002\<close>: from a fresh file, N successive saves all
  succeed and the file parses as a JSON array of exactly the N records in call order.\<close>

theorem saveToFile_002_records:
  assumes ready: "parent_ready s p" and new: "fs_tree s (resolve s p) = None" and ne: "js \<noteq> []"
    and space: "2 + (\<Sum>j\<leftarrow>js. length (record_indent_002 j) + 4) \<le> fs_free s"
  shows "\<exists>s' c. save_seq saveToFile_002 p js s = (map (\<lambda>_. Inr ()) js, s') \<and> file_content s' p = Some c
           \<and> parse_array c = Some (map (\<lambda>j. sanitize_fields (logToJSON_fields j)) js)"
proof -
  obtain j js' where js: "js = j # js'" using ne by (cases js) auto
  let ?P = "resolve s p" and ?J = "record_indent_002 j"
  define s0 where "s0 = set_content ?P ''[\<newline>'' (s\<lparr>fs_tree := (fs_tree s)(?P \<mapsto> Reg [])\<rparr>)"
  have ready0: "parent_ready s0 p" by (rule parent_ready_update[OF ready]) (simp_all add: s0_def)
  have reg0: "fs_tree s0 (resolve s0 p) = Some (Reg ''[\<newline>'')" by (simp add: s0_def)
  have free0: "fs_free s0 = fs_free s - 2" by (simp add: s0_def set_content_def)
  define s1 where "s1 = set_content ?P (arr_002 [?J]) s0"
  have st: "saveToFile_002 j p s = (Inr (), s1)"
    using save002_create[OF ready new, of j] save002_exists[OF ready0 reg0, of j] space js free0
    by (simp add: s0_def s1_def arr_002_def arr_text_def)
  have ready1: "parent_ready s1 p" by (rule parent_ready_update[OF ready0]) (simp_all add: s1_def s0_def)
  have "fs_free s1 = fs_free s - (length ?J + 4)"
    using set_content_free[of s0 ?P "''[\<newline>''" "arr_002 [?J]"] free0 space js
    by (simp add: s1_def s0_def arr_002_def arr_text_def)
  then have free1: "(\<Sum>j\<leftarrow>js'. length (record_indent_002 j) + 4) \<le> fs_free s1"
    using space js by simp
  have c1: "fs_tree s1 (resolve s1 p) = Some (Reg (arr_002 (map record_indent_002 [j])))"
    by (simp add: s1_def s0_def)
  have r1: "resolve s1 p = ?P" by (simp add: s1_def s0_def)
  obtain s' where run: "save_seq saveToFile_002 p js' s1 = (map (\<lambda>_. Inr ()) js', s')"
    and cwd: "fs_cwd s' = fs_cwd s1"
    and c': "fs_tree s' ?P = Some (Reg (arr_002 (map record_indent_002 js)))"
    using save_seq_appends[where arr = arr_002 and enc = record_indent_002 and f = saveToFile_002 and p = p
        and cost = "\<lambda>j. length (record_indent_002 j) + 4", OF save002_step ready1 c1 _ free1] js r1
    by auto
  have "parse_array (arr_002 (map record_indent_002 js)) = Some (map (\<lambda>j. sanitize_fields (logToJSON_fields j)) js)"
    by (rule parse_arr_002[OF ne])
  moreover have "resolve s' p = ?P" using cwd r1 resolve_cwd[of s' s1 p] by simp
  ultimately show ?thesis
    using st run c' js by (simp add: file_content_def)
qed

text \<open>C7: the \<open>part_002\<close> sink on a file that exists but is empty reports success but writes
  the record and \<open>"\n]"\<close> with no opening bracket: the file is not a JSON array.\<close>

theorem saveToFile_002_empty_file:
  assumes ready: "parent_ready s p" and empty: "fs_tree s (resolve s p) = Some (Reg [])"
    and space: "length (record_indent_002 j) + 4 \<le> fs_free s"
  shows "\<exists>s' c. saveToFile_002 j p s = (Inr (), s') \<and> file_content s' p = Some c \<and> parse_array c = None"
proof -
  have st: "saveToFile_002 j p s = (Inr (), set_content (resolve s p) (record_indent_002 j @ ''\<newline>]'') s)"
    using save002_exists[OF ready empty space] by simp
  have "parse_array (record_indent_002 j @ ''\<newline>]'') = None"
    by (simp add: record_indent_002_obj obj_text_def parse_array_def skip_ws_def json_ws_def)
  then show ?thesis using st by (simp add: file_content_def)
qed


section \<open>Properties of the newline-delimited sinks of \<open>part_004\<close> and \<open>main.go\<close>\<close>

text \<open>C8: the newline-delimited sink of \<open>part_004\<close> never rewrites what the file held: on
  every outcome, errors included, the old bytes are a prefix of the new ones, and on success
  exactly the record's line was added.\<close>

theorem saveToFile_004_append_only:
  assumes reg: "fs_tree s (resolve s p) = Some (Reg c)"
  shows "\<exists>c'. fs_tree (snd (saveToFile_004 j p s)) (resolve s p) = Some (Reg (c @ c'))
           \<and> (fst (saveToFile_004 j p s) = Inr () \<longrightarrow> c' = record_line j @ ''\<newline>'')"
proof -
  obtain r1 s1 where m: "os_MkdirAll (filepath_Dir p) s = (r1, s1)" by fastforce
  have g: "fs_grows s s1" using os_MkdirAll_grows[of s "filepath_Dir p"] m by simp
  then have reg1: "fs_tree s1 (resolve s1 p) = Some (Reg c)" and r1p: "resolve s1 p = resolve s p"
    using reg resolve_cwd[of s1 s p] by (auto simp: fs_grows_def)
  show ?thesis
  proof (cases r1)
    case (Inl e)
    then show ?thesis using m reg1 r1p by (simp add: saveToFile_004_def go_bind_def)
  next
    case (Inr u)
    obtain r2 s2 where o: "os_OpenFile p O_CREATE_WRONLY_APPEND s1 = (r2, s2)" by fastforce
    have o2: "s2 = s1" "\<forall>h. r2 = Inr h \<longrightarrow> h = new_handle s1 p O_CREATE_WRONLY_APPEND"
      using os_OpenFile_existing[OF reg1 _ o] by (simp_all add: O_CREATE_WRONLY_APPEND_def)
    show ?thesis
    proof (cases r2)
      case (Inl e)
      then show ?thesis using m Inr o o2 reg1 r1p by (simp add: saveToFile_004_def go_bind_def)
    next
      case (Inr h)
      let ?L = "record_line j @ ''\<newline>''"
      have h: "h = new_handle s1 p O_CREATE_WRONLY_APPEND" using o2 Inr by simp
      obtain r3 s3 where w: "f_WriteString h ?L s1 = (r3, s3)" by fastforce
      have fb: "file_bytes s1 h = Some c" using reg1 h by (simp add: file_bytes_def new_handle_def)
      obtain k where k: "fs_tree s3 (fh_path h) = Some (Reg (c @ take k ?L))"
          "\<forall>h'. r3 = Inr h' \<longrightarrow> k = length ?L"
        using f_WriteString_append_only[OF fb _ w] h by (auto simp: new_handle_def O_CREATE_WRONLY_APPEND_def)
      have "saveToFile_004 j p s = (case r3 of Inl e \<Rightarrow> Inl e | Inr _ \<Rightarrow> Inr (), s3)"
        using m \<open>r1 = Inr u\<close> o o2 Inr w by (simp add: saveToFile_004_def go_bind_def go_return_def split: sum.split)
      then show ?thesis
        using k h r1p by (auto simp: new_handle_def split: sum.splits)
    qed
  qed
qed

lemma append_line_reg:
  assumes ready: "parent_ready s p" and reg: "fs_tree s (resolve s p) = Some (Reg c)" and space: "length L \<le> fs_free s"
  shows "go_bind (os_OpenFile p O_CREATE_WRONLY_APPEND) (\<lambda>file. go_bind (f_WriteString file L) (\<lambda>_. go_return ())) s
         = (Inr (), set_content (resolve s p) (c @ L) s)"
proof -
  let ?h = "new_handle s p O_CREATE_WRONLY_APPEND"
  have fb: "file_bytes s ?h = Some c" using reg by (simp add: file_bytes_def new_handle_def)
  show ?thesis
    using parent_ready_OpenFile_reg[OF ready reg, of O_CREATE_WRONLY_APPEND]
      f_WriteString_end[OF fb _ space]
    by (simp add: go_bind_def go_return_def O_CREATE_WRONLY_APPEND_def write_pos_def new_handle_def)
qed

lemma append_line_new:
  assumes ready: "parent_ready s p" and none: "fs_tree s (resolve s p) = None" and space: "length L \<le> fs_free s"
  shows "go_bind (os_OpenFile p O_CREATE_WRONLY_APPEND) (\<lambda>file. go_bind (f_WriteString file L) (\<lambda>_. go_return ())) s
         = (Inr (), set_content (resolve s p) L (s\<lparr>fs_tree := (fs_tree s)(resolve s p \<mapsto> Reg [])\<rparr>))"
proof -
  let ?h = "new_handle s p O_CREATE_WRONLY_APPEND" and ?s0 = "s\<lparr>fs_tree := (fs_tree s)(resolve s p \<mapsto> Reg [])\<rparr>"
  have fb: "file_bytes ?s0 ?h = Some []" by (simp add: file_bytes_def new_handle_def)
  show ?thesis
    using parent_ready_OpenFile_new[OF ready none, of O_CREATE_WRONLY_APPEND]
      f_WriteString_end[OF fb _, of L] space
    by (simp add: go_bind_def go_return_def O_CREATE_WRONLY_APPEND_def write_pos_def new_handle_def)
qed

lemma save004_steps:
  assumes "parent_ready s p"
  shows "saveToFile_004 j p s = go_bind (os_OpenFile p O_CREATE_WRONLY_APPEND)
           (\<lambda>file. go_bind (f_WriteString file (record_line j @ ''\<newline>'')) (\<lambda>_. go_return ())) s"
  using parent_ready_MkdirAll[OF assms] by (simp add: saveToFile_004_def go_bind_def del: os_MkdirAll.simps)

lemma ndjson_step:
  assumes ready: "parent_ready s p" and reg: "fs_tree s (resolve s p) = Some (Reg (ndjson_text objs))"
    and space: "length (enc j) + 1 \<le> fs_free s"
    and f: "\<And>s c. parent_ready s p \<Longrightarrow> fs_tree s (resolve s p) = Some (Reg c) \<Longrightarrow> length (enc j) + 1 \<le> fs_free s \<Longrightarrow>
            f j p s = (Inr (), set_content (resolve s p) (c @ enc j @ ''\<newline>'') s)"
  shows "\<exists>s'. f j p s = (Inr (), s') \<and> parent_ready s' p \<and> fs_cwd s' = fs_cwd s
    \<and> fs_tree s' (resolve s p) = Some (Reg (ndjson_text (objs @ [enc j])))
    \<and> fs_free s - (length (enc j) + 1) \<le> fs_free s'"
proof -
  let ?c' = "ndjson_text objs @ enc j @ ''\<newline>''"
  have "parent_ready (set_content (resolve s p) ?c' s) p" by (rule parent_ready_update[OF ready]) simp_all
  moreover have "fs_free s - (length (enc j) + 1) \<le> fs_free (set_content (resolve s p) ?c' s)"
    using set_content_free[OF reg, of ?c'] by simp
  ultimately show ?thesis using f[OF ready reg space] by (simp add: ndjson_text_def)
qed

lemma ndjson_sink_records:
  assumes steps: "\<And>s j. parent_ready s p \<Longrightarrow> f j p s = go_bind (os_OpenFile p O_CREATE_WRONLY_APPEND)
           (\<lambda>file. go_bind (f_WriteString file (record_line j @ ''\<newline>'')) (\<lambda>_. go_return ())) s"
    and ready: "parent_ready s p" and new: "fs_tree s (resolve s p) = None" and ne: "js \<noteq> []"
    and space: "(\<Sum>j\<leftarrow>js. length (record_line j) + 1) \<le> fs_free s"
  shows "\<exists>s' c. save_seq f p js s = (map (\<lambda>_. Inr ()) js, s') \<and> file_content s' p = Some c
           \<and> parse_ndjson c = Some (map (\<lambda>j. sanitize_fields (logToJSON_fields j)) js)"
proof -
  obtain j js' where js: "js = j # js'" using ne by (cases js) auto
  let ?P = "resolve s p" and ?L = "record_line j @ ''\<newline>''"
  define s0 where "s0 = s\<lparr>fs_tree := (fs_tree s)(?P \<mapsto> Reg [])\<rparr>"
  define s1 where "s1 = set_content ?P ?L s0"
  have st: "f j p s = (Inr (), s1)"
    using steps[OF ready] append_line_new[OF ready new, of ?L] space js by (simp add: s0_def s1_def)
  have ready1: "parent_ready s1 p" by (rule parent_ready_update[OF ready]) (simp_all add: s1_def s0_def)
  have "fs_free s1 = fs_free s - (length (record_line j) + 1)"
    using set_content_free[of s0 ?P "[]" ?L] by (simp add: s1_def s0_def)
  then have free1: "(\<Sum>j\<leftarrow>js'. length (record_line j) + 1) \<le> fs_free s1" using space js by simp
  have c1: "fs_tree s1 (resolve s1 p) = Some (Reg (ndjson_text (map record_line [j])))"
    by (simp add: s1_def s0_def ndjson_text_def)
  have r1: "resolve s1 p = ?P" by (simp add: s1_def s0_def)
  have app: "f j p s = (Inr (), set_content (resolve s p) (c @ record_line j @ ''\<newline>'') s)"
    if "parent_ready s p" "fs_tree s (resolve s p) = Some (Reg c)" "length (record_line j) + 1 \<le> fs_free s"
    for s c j
    using steps[OF that(1)] append_line_reg[OF that(1,2), of "record_line j @ ''\<newline>''"] that(3) by simp
  have step: "\<exists>s'. f j p s = (Inr (), s') \<and> parent_ready s' p \<and> fs_cwd s' = fs_cwd s
        \<and> fs_tree s' (resolve s p) = Some (Reg (ndjson_text (objs @ [record_line j])))
        \<and> fs_free s - (length (record_line j) + 1) \<le> fs_free s'"
    if "parent_ready s p" "fs_tree s (resolve s p) = Some (Reg (ndjson_text objs))"
      "objs \<noteq> []" "length (record_line j) + 1 \<le> fs_free s" for s objs j
    by (rule ndjson_step[where f = f and enc = record_line, OF that(1,2,4) app])
  obtain s' where run: "save_seq f p js' s1 = (map (\<lambda>_. Inr ()) js', s')"
    and cwd: "fs_cwd s' = fs_cwd s1"
    and c': "fs_tree s' ?P = Some (Reg (ndjson_text (map record_line js)))"
    using save_seq_appends[where arr = ndjson_text and enc = record_line and f = f and p = p
        and cost = "\<lambda>j. length (record_line j) + 1", OF step ready1 c1 _ free1] js r1
    by auto
  have "\<forall>fs\<in>set (map logToJSON_fields js). fs \<noteq> []" by (simp add: logToJSON_fields_def)
  then have "parse_ndjson (ndjson_text (map record_line js)) = Some (map (\<lambda>j. sanitize_fields (logToJSON_fields j)) js)"
    using parse_ndjson_lines[of "map logToJSON_fields js"]
    by (simp add: ndjson_text_def record_line_def comp_def)
  moreover have "resolve s' p = ?P" using cwd r1 resolve_cwd[of s' s1 p] by simp
  ultimately show ?thesis using st run c' js by (simp add: file_content_def)
qed

text \<open>C9: the \<open>part_004\<close> sink: from a fresh file, N successive saves all succeed and the
  file parses as N JSON lines holding the records in call order.\<close>

theorem saveToFile_004_records:
  assumes "parent_ready s p" "fs_tree s (resolve s p) = None" "js \<noteq> []"
    "(\<Sum>j\<leftarrow>js. length (record_line j) + 1) \<le> fs_free s"
  shows "\<exists>s' c. save_seq saveToFile_004 p js s = (map (\<lambda>_. Inr ()) js, s') \<and> file_content s' p = Some c
           \<and> parse_ndjson c = Some (map (\<lambda>j. sanitize_fields (logToJSON_fields j)) js)"
  by (rule ndjson_sink_records[where f = saveToFile_004, OF save004_steps assms])

text \<open>C10: the sink of \<open>main.go\<close> (always \<open>log.json\<close> in the working directory): N
  successive saves to a fresh file all succeed and the file parses as N JSON lines holding
  the records in call order.\<close>

theorem saveToFile_main_records:
  assumes "parent_ready s ''log.json''" "fs_tree s (resolve s ''log.json'') = None" "js \<noteq> []"
    "(\<Sum>j\<leftarrow>js. length (record_line j) + 1) \<le> fs_free s"
  shows "\<exists>s' c. save_seq (\<lambda>j _. saveToFile_main j) ''log.json'' js s = (map (\<lambda>_. Inr ()) js, s')
           \<and> file_content s' ''log.json'' = Some c
           \<and> parse_ndjson c = Some (map (\<lambda>j. sanitize_fields (logToJSON_fields j)) js)"
  by (rule ndjson_sink_records[where f = "\<lambda>j _. saveToFile_main j", OF _ assms]) (simp add: saveToFile_main_def)


section \<open>The newline-delimited sinks only append\<close>

lemma saveToFile_004_extends: "go_preserves (fs_extends s0) (saveToFile_004 j p)"
  unfolding go_preserves_def
proof (intro allI impI)
  fix s assume s0: "fs_extends s0 s"
  obtain r1 s1 where m: "os_MkdirAll (filepath_Dir p) s = (r1, s1)" by fastforce
  have g: "fs_extends s s1" using os_MkdirAll_grows[of s "filepath_Dir p"] m by (simp add: fs_grows_extends)
  have "fs_extends s (snd (saveToFile_004 j p s))"
  proof (cases r1)
    case (Inl e)
    with m g show ?thesis by (simp add: saveToFile_004_def go_bind_def del: os_MkdirAll.simps)
  next
    case (Inr u)
    have "fs_extends s1 (snd (go_bind (os_OpenFile p O_CREATE_WRONLY_APPEND)
            (\<lambda>file. go_bind (f_WriteString file (record_line j @ ''\<newline>'')) (\<lambda>_. go_return ())) s1))"
      by (rule open_append_write_extends) (simp_all add: O_CREATE_WRONLY_APPEND_def)
    with m Inr g show ?thesis
      by (simp add: saveToFile_004_def go_bind_def del: os_MkdirAll.simps) (rule fs_extends_trans)
  qed
  with s0 show "fs_extends s0 (snd (saveToFile_004 j p s))" by (rule fs_extends_trans)
qed

lemma saveToFile_main_extends: "go_preserves (fs_extends s0) (saveToFile_main j)"
  unfolding go_preserves_def saveToFile_main_def
proof (intro allI impI)
  fix s assume "fs_extends s0 s"
  moreover have "fs_extends s (snd (go_bind (os_OpenFile ''log.json'' O_CREATE_WRONLY_APPEND)
      (\<lambda>file. go_bind (f_WriteString file (record_line j @ ''\<newline>'')) (\<lambda>_. go_return ())) s))"
    by (rule open_append_write_extends) (simp_all add: O_CREATE_WRONLY_APPEND_def)
  ultimately show "fs_extends s0 (snd (go_bind (os_OpenFile ''log.json'' O_CREATE_WRONLY_APPEND)
      (\<lambda>file. go_bind (f_WriteString file (record_line j @ ''\<newline>'')) (\<lambda>_. go_return ())) s))"
    by (rule fs_extends_trans)
qed

section \<open>Concrete instances\<close>

lemma example_fs_ready: "parent_ready example_fs ''log.json''"
  by (simp add: example_fs_def parent_ready_def normal_name_def base_name_def filepath_Dir_def
      filepath_Clean_def resolve_def lookup_def)

lemma example_fs_with_ready: "parent_ready (example_fs_with c) ''log.json''"
  by (simp add: example_fs_with_def example_fs_def parent_ready_def normal_name_def base_name_def filepath_Dir_def
      filepath_Clean_def resolve_def lookup_def)

lemma example_fs_new: "fs_tree example_fs (resolve example_fs ''log.json'') = None"
  by (simp add: example_fs_def resolve_def)

lemma example_fs_with_reg: "fs_tree (example_fs_with c) (resolve (example_fs_with c) ''log.json'') = Some (Reg c)"
  by (simp add: example_fs_with_def example_fs_def resolve_def)

lemma example_fs_full_ready: "parent_ready example_fs_full ''log.json''"
  by (simp add: example_fs_full_def example_fs_with_def example_fs_def parent_ready_def normal_name_def
      base_name_def filepath_Dir_def filepath_Clean_def resolve_def lookup_def)

lemma example_fs_full_reg:
  "fs_tree example_fs_full (resolve example_fs_full ''log.json'') = Some (Reg (arr_001 [record_indent_001 example_record]))"
  by (simp add: example_fs_full_def example_fs_with_def example_fs_def resolve_def)

theorem saveToFile_001_enospc_loses_log_witness:
  "fst (saveToFile_001 example_record ''log.json'' example_fs_full)
     = Inl (Wrapped ''append failed, '' (PathError ''write'' ''log.json'' ENOSPC))
   \<and> file_content (snd (saveToFile_001 example_record ''log.json'' example_fs_full)) ''log.json'' =
       Some (take (length (arr_001 [record_indent_001 example_record]) - 2) (arr_001 [record_indent_001 example_record])
             @ take (fs_free example_fs_full + 2) ('',\<newline>  '' @ record_indent_001 example_record @ ''\<newline>]''))
   \<and> (\<nexists>d. file_content (snd (saveToFile_001 example_record ''log.json'' example_fs_full)) ''log.json''
          = Some (arr_001 [record_indent_001 example_record] @ d))"
  by (rule saveToFile_001_enospc_loses_log[OF example_fs_full_ready example_fs_full_reg]) code_simp

theorem saveToFile_001_records_witness:
  "\<exists>s' c. save_seq saveToFile_001 ''log.json'' [example_record, example_record] example_fs
      = (map (\<lambda>_. Inr ()) [example_record, example_record], s')
    \<and> file_content s' ''log.json'' = Some c
    \<and> parse_array c = Some (map (\<lambda>j. sanitize_fields (logToJSON_fields j)) [example_record, example_record])"
  by (rule saveToFile_001_records[OF example_fs_ready example_fs_new]) code_simp+

theorem saveToFile_002_records_witness:
  "\<exists>s' c. save_seq saveToFile_002 ''log.json'' [example_record, example_record] example_fs
      = (map (\<lambda>_. Inr ()) [example_record, example_record], s')
    \<and> file_content s' ''log.json'' = Some c
    \<and> parse_array c = Some (map (\<lambda>j. sanitize_fields (logToJSON_fields j)) [example_record, example_record])"
  by (rule saveToFile_002_records[OF example_fs_ready example_fs_new]) code_simp+

theorem saveToFile_002_empty_file_witness:
  "\<exists>s' c. saveToFile_002 example_record ''log.json'' (example_fs_with []) = (Inr (), s')
    \<and> file_content s' ''log.json'' = Some c \<and> parse_array c = None"
  by (rule saveToFile_002_empty_file[OF example_fs_with_ready example_fs_with_reg]) code_simp

theorem saveToFile_004_append_only_witness:
  "\<exists>c'. fs_tree (snd (saveToFile_004 example_record ''log.json'' (example_fs_with ''x'')))
          (resolve (example_fs_with ''x'') ''log.json'') = Some (Reg (''x'' @ c'))
     \<and> (fst (saveToFile_004 example_record ''log.json'' (example_fs_with ''x'')) = Inr ()
        \<longrightarrow> c' = record_line example_record @ ''\<newline>'')"
  by (rule saveToFile_004_append_only[OF example_fs_with_reg])

theorem saveToFile_004_records_witness:
  "\<exists>s' c. save_seq saveToFile_004 ''log.json'' [example_record, example_record] example_fs
      = (map (\<lambda>_. Inr ()) [example_record, example_record], s')
    \<and> file_content s' ''log.json'' = Some c
    \<and> parse_ndjson c = Some (map (\<lambda>j. sanitize_fields (logToJSON_fields j)) [example_record, example_record])"
  by (rule saveToFile_004_records[OF example_fs_ready example_fs_new]) code_simp+

theorem saveToFile_main_records_witness:
  "\<exists>s' c. save_seq (\<lambda>j _. saveToFile_main j) ''log.json'' [example_record, example_record] example_fs
      = (map (\<lambda>_. Inr ()) [example_record, example_record], s')
    \<and> file_content s' ''log.json'' = Some c
    \<and> parse_ndjson c = Some (map (\<lambda>j. sanitize_fields (logToJSON_fields j)) [example_record, example_record])"
  by (rule saveToFile_main_records[OF example_fs_ready example_fs_new]) code_simp+

end
