(* ===== verification/Logger.thy ===== *)
theory Logger
  imports Sink
begin

text \<open>
  The logger proper: \<open>logMessage\<close> of each variant, composed of the formatter
  (theory \<open>Formatter\<close>), the choice of whether and where to save, the sink (theory
  \<open>Sink\<close>) and the spinner's final line; and the entry points \<open>Info\<close>, \<open>Warn\<close>,
  \<open>Fatal\<close>, \<open>Panic\<close>, \<open>New\<close>, \<open>SetDefaultFileLog\<close>.  The program state a call acts on
  is a \<open>world\<close>: the file system, the lines left on standard output, and whether standard
  output is a terminal.  The spinner library (\<open>github.com/briandowns/spinner\<close>) animates
  \<open>Prefix\<close> and \<open>Suffix\<close> while active and, on \<open>Stop\<close>, erases them and prints
  \<open>FinalMSG\<close>; it only becomes active on a terminal, so nothing is left on a non-terminal
  output.  A call ends normally, by \<open>os.Exit\<close>, or by a panic carrying a value.
  The datatype \<open>FileLogTarget\<close> is the tagged view of the \<open>FileLog\<close> setting that the
  specification recommends; the first property shows that \<open>part_001\<close>'s \<open>logMessage\<close>
  refines it.  The others give each variant's file effect, final line and output, its
  error paths, and the equivalences between variants.
\<close>

section \<open>Program state and outcomes\<close>

record world =
  w_fs :: fs
  w_out :: "string list"
  w_tty :: bool

datatype exit_status = Returned | Exited int | Panicked string

text \<open>\<open>s.Stop()\<close>: the final message is left on the output when the spinner ran.\<close>

definition spinner_Stop :: "string \<Rightarrow> world \<Rightarrow> world" where
  "spinner_Stop final w = (if w_tty w \<and> final \<noteq> [] then w\<lparr>w_out := w_out w @ [final]\<rparr> else w)"

text \<open>The check mark \<open>\<checkmark>\<close> in UTF-8, and the closing line
  \<open>closingTime.Format(...) + mark + strings.Join(logParts, " | ") + "\n"\<close>.\<close>

definition check_mark :: string where
  "check_mark = [CHR 0xE2, CHR 0x9C, CHR 0x93]"

definition final_line :: "Time \<Rightarrow> string \<Rightarrow> string list \<Rightarrow> string" where
  "final_line closing mark parts = Time_Format closing @ mark @ strings_Join parts '' | '' @ ''\<newline>''"

text \<open>The locals of \<open>logMessage\<close> when it returns: the formatter's state (display parts,
  spinner suffixes, record), the spinner's prefix and its final message.\<close>

record lm_state =
  lm_fmt :: fmt_state
  lm_prefix :: string
  lm_final :: string

section \<open>\<open>part_001\<close>: the \<open>FileLog\<close> setting\<close>

record Logger_001 =
  l_FileLog :: go_any

record LogOptions_001 = LogOptions +
  FileLog :: go_any

definition New_001 :: Logger_001 where
  "New_001 = \<lparr>l_FileLog = AnyBool False\<rparr>"

definition zero_LogOptions_001 :: LogOptions_001 where
  "zero_LogOptions_001 = \<lparr>StartTime = zero_Time, Process = [], User = [], FileLog = AnyNil\<rparr>"

definition SetDefaultFileLog :: "Logger_001 \<Rightarrow> go_any \<Rightarrow> Logger_001" where
  "SetDefaultFileLog l fileLog = l\<lparr>l_FileLog := fileLog\<rparr>"

text \<open>\<open>%T\<close> of an interface value.\<close>

primrec type_name :: "go_any \<Rightarrow> string" where
  "type_name AnyNil = ''<nil>''"
| "type_name (AnyBool b) = ''bool''"
| "type_name (AnyString s) = ''string''"
| "type_name (AnyOther t) = t"

definition checkSaveLogOption :: "go_any \<Rightarrow> bool \<times> string \<times> go_error option" where
  "checkSaveLogOption fileLogSetting =
     (case fileLogSetting of
        AnyBool v \<Rightarrow> (v, ''./log.json'', None)
      | AnyString v \<Rightarrow> (if v \<noteq> [] then (True, v, None) else (False, ''./log.json'', None))
      | _ \<Rightarrow> (False, [], Some (Errorf (''log will not be saved, invalid file log setting type: ''
                 @ type_name fileLogSetting @ '', expected bool or string''))))"

definition file_log_setting :: "Logger_001 \<Rightarrow> LogOptions_001 \<Rightarrow> go_any" where
  "file_log_setting l opts = (if FileLog opts \<noteq> AnyNil then FileLog opts else l_FileLog l)"

text \<open>\<open>logMessage\<close>: format, decide, save, downgrade \<open>INFO\<close> to \<open>WARN\<close> when the save
  fails, and stop the spinner with the final line.  The branch for a bad setting assigns
  \<open>FinalMSG\<close> and then, \<open>shouldSaveToFile\<close> being false, the final \<open>else\<close> assigns it
  again.\<close>

definition logMessage_001 ::
    "Logger_001 \<Rightarrow> level \<Rightarrow> string \<Rightarrow> LogOptions_001 list \<Rightarrow> clock \<Rightarrow> world \<Rightarrow> lm_state \<times> world" where
  "logMessage_001 l lv message options clk w =
     (let opts = first_or zero_LogOptions_001 options;
          fileLogSetting = file_log_setting l opts;
          st = format_log lv message opts clk;
          prefix = Time_Format (clk_starting clk) @ '' '';
          (shouldSaveToFile, filePath, err) = checkSaveLogOption fileLogSetting;
          st1 = (case err of None \<Rightarrow> st
                 | Some e \<Rightarrow> st\<lparr>logParts := logParts st @ [''Error: '' @ error_string e]\<rparr>);
          final1 = (case err of None \<Rightarrow> []
                    | Some e \<Rightarrow> final_line (clk_closing clk) '' x'' (logParts st1))
      in if shouldSaveToFile then
           (case saveToFile_001 (jsoner st1) filePath (w_fs w) of
              (Inl e, fs') \<Rightarrow>
                let st2 = (if lv = INFO
                           then st1\<lparr>logParts := (logParts st1)[0 := level_part WARN],
                                     jsoner := (jsoner st1)\<lparr>lj_Level := level_name WARN\<rparr>\<rparr>
                           else st1);
                    st3 = st2\<lparr>logParts := logParts st2 @ [''Error: '' @ error_string e]\<rparr>;
                    final = final_line (clk_closing clk) '' x'' (logParts st3)
                in (\<lparr>lm_fmt = st3, lm_prefix = prefix, lm_final = final\<rparr>, spinner_Stop final (w\<lparr>w_fs := fs'\<rparr>))
            | (Inr _, fs') \<Rightarrow>
                let st3 = st1\<lparr>logParts := logParts st1 @ [''Log saved!'']\<rparr>;
                    final = final_line (clk_closing clk) ('' '' @ check_mark) (logParts st3)
                in (\<lparr>lm_fmt = st3, lm_prefix = prefix, lm_final = final\<rparr>, spinner_Stop final (w\<lparr>w_fs := fs'\<rparr>)))
         else
           (let final = final_line (clk_closing clk) ('' '' @ check_mark) (logParts st1)
            in (\<lparr>lm_fmt = st1, lm_prefix = prefix, lm_final = final\<rparr>, spinner_Stop final w)))"

definition Info_001 :: "Logger_001 \<Rightarrow> string \<Rightarrow> LogOptions_001 list \<Rightarrow> clock \<Rightarrow> world \<Rightarrow> world \<times> exit_status" where
  "Info_001 l message options clk w = (snd (logMessage_001 l INFO message options clk w), Returned)"

definition Warn_001 :: "Logger_001 \<Rightarrow> string \<Rightarrow> LogOptions_001 list \<Rightarrow> clock \<Rightarrow> world \<Rightarrow> world \<times> exit_status" where
  "Warn_001 l message options clk w = (snd (logMessage_001 l WARN message options clk w), Returned)"

definition Fatal_001 :: "Logger_001 \<Rightarrow> string \<Rightarrow> LogOptions_001 list \<Rightarrow> clock \<Rightarrow> world \<Rightarrow> world \<times> exit_status" where
  "Fatal_001 l message options clk w = (snd (logMessage_001 l FATAL message options clk w), Exited 1)"

definition Panic_001 :: "Logger_001 \<Rightarrow> string \<Rightarrow> LogOptions_001 list \<Rightarrow> clock \<Rightarrow> world \<Rightarrow> world \<times> exit_status" where
  "Panic_001 l message options clk w = (snd (logMessage_001 l PANIC message options clk w), Panicked message)"


section \<open>\<open>part_002\<close> and \<open>part_004\<close>: \<open>SaveToFile\<close> and \<open>LogFilePath\<close>\<close>

record Logger_sv =
  l_DefaultSaveToFile :: bool
  l_DefaultLogPath :: string

record LogOptions_sv = LogOptions +
  SaveToFile :: bool
  LogFilePath :: string

definition New_sv :: Logger_sv where
  "New_sv = \<lparr>l_DefaultSaveToFile = False, l_DefaultLogPath = ''./log.json''\<rparr>"

definition zero_LogOptions_sv :: LogOptions_sv where
  "zero_LogOptions_sv = \<lparr>StartTime = zero_Time, Process = [], User = [], SaveToFile = False, LogFilePath = []\<rparr>"

text \<open>The options after \<open>if opts.LogFilePath == "" { opts.LogFilePath = l.DefaultLogPath }\<close>.\<close>

definition options_sv :: "Logger_sv \<Rightarrow> LogOptions_sv list \<Rightarrow> LogOptions_sv" where
  "options_sv l options =
     (let opts = first_or zero_LogOptions_sv options
      in if LogFilePath opts = [] then opts\<lparr>LogFilePath := l_DefaultLogPath l\<rparr> else opts)"

text \<open>\<open>logMessage\<close> of \<open>part_002\<close> and \<open>part_004\<close>, which differ only in the \<open>saveToFile\<close>
  they call (the \<open>time.Sleep\<close> calls only move the clock readings).\<close>

definition logMessage_sv ::
    "(logToJSON \<Rightarrow> string \<Rightarrow> (fs, unit) go_m) \<Rightarrow> Logger_sv \<Rightarrow> level \<Rightarrow> string \<Rightarrow> LogOptions_sv list \<Rightarrow> clock
     \<Rightarrow> world \<Rightarrow> lm_state \<times> world" where
  "logMessage_sv saveToFile l lv message options clk w =
     (let opts = options_sv l options;
          st = format_log lv message opts clk;
          prefix = Time_Format (clk_starting clk) @ '' ''
      in if SaveToFile opts then
           (case saveToFile (jsoner st) (LogFilePath opts) (w_fs w) of
              (Inl e, fs') \<Rightarrow>
                let st1 = st\<lparr>logParts := logParts st @ [''Failed to save log'']\<rparr>;
                    final = final_line (clk_closing clk) '' x'' (logParts st1)
                in (\<lparr>lm_fmt = st1, lm_prefix = prefix, lm_final = final\<rparr>, spinner_Stop final (w\<lparr>w_fs := fs'\<rparr>))
            | (Inr _, fs') \<Rightarrow>
                let final = final_line (clk_closing clk) ('' '' @ check_mark) (logParts st)
                in (\<lparr>lm_fmt = st, lm_prefix = prefix, lm_final = final\<rparr>, spinner_Stop final (w\<lparr>w_fs := fs'\<rparr>)))
         else
           (let final = final_line (clk_closing clk) ('' '' @ check_mark) (logParts st)
            in (\<lparr>lm_fmt = st, lm_prefix = prefix, lm_final = final\<rparr>, spinner_Stop final w)))"

definition logMessage_002 ::
    "Logger_sv \<Rightarrow> level \<Rightarrow> string \<Rightarrow> LogOptions_sv list \<Rightarrow> clock \<Rightarrow> world \<Rightarrow> lm_state \<times> world" where
  "logMessage_002 = logMessage_sv saveToFile_002"

definition logMessage_004 ::
    "Logger_sv \<Rightarrow> level \<Rightarrow> string \<Rightarrow> LogOptions_sv list \<Rightarrow> clock \<Rightarrow> world \<Rightarrow> lm_state \<times> world" where
  "logMessage_004 = logMessage_sv saveToFile_004"

text \<open>The entry points of \<open>part_002\<close> and \<open>part_004\<close>, given the variant's \<open>logMessage\<close>.\<close>

definition level_call :: "level \<Rightarrow> string \<Rightarrow> exit_status" where
  "level_call lv message = (case lv of FATAL \<Rightarrow> Exited 1 | PANIC \<Rightarrow> Panicked message | _ \<Rightarrow> Returned)"

definition entry_sv ::
    "(Logger_sv \<Rightarrow> level \<Rightarrow> string \<Rightarrow> LogOptions_sv list \<Rightarrow> clock \<Rightarrow> world \<Rightarrow> lm_state \<times> world)
     \<Rightarrow> level \<Rightarrow> Logger_sv \<Rightarrow> string \<Rightarrow> LogOptions_sv list \<Rightarrow> clock \<Rightarrow> world \<Rightarrow> world \<times> exit_status" where
  "entry_sv logMessage lv l message options clk w = (snd (logMessage l lv message options clk w), level_call lv message)"

section \<open>\<open>main.go\<close>: print, then save to \<open>log.json\<close>\<close>

definition logMessage_main :: "level \<Rightarrow> string \<Rightarrow> LogOptions list \<Rightarrow> clock \<Rightarrow> world \<Rightarrow> lm_state \<times> world" where
  "logMessage_main lv message options clk w =
     (let opts = first_or zero_LogOptions options;
          st = format_log lv message opts clk;
          prefix = Time_Format (clk_starting clk) @ '' '';
          final = final_line (clk_closing clk) ('' '' @ check_mark) (logParts st);
          w1 = spinner_Stop final w
      in (\<lparr>lm_fmt = st, lm_prefix = prefix, lm_final = final\<rparr>, w1\<lparr>w_fs := snd (saveToFile_main (jsoner st) (w_fs w1))\<rparr>))"

definition entry_main :: "level \<Rightarrow> string \<Rightarrow> LogOptions list \<Rightarrow> clock \<Rightarrow> world \<Rightarrow> world \<times> exit_status" where
  "entry_main lv message options clk w = (snd (logMessage_main lv message options clk w), level_call lv message)"

section \<open>\<open>part_003\<close>: the spinner alone\<close>

definition logMessage_003 :: "level \<Rightarrow> string \<Rightarrow> LogOptions list \<Rightarrow> clock \<Rightarrow> world \<Rightarrow> lm_state \<times> world" where
  "logMessage_003 lv message options clk w =
     (let opts = first_or zero_LogOptions options;
          st = format_log lv message opts clk;
          prefix = Time_Format (clk_starting clk) @ '' '';
          final = (Time_Format (clk_closing clk) @ '' '') @ check_mark @ strings_Join (logParts st) '' | '' @ ''\<newline>''
      in (\<lparr>lm_fmt = st, lm_prefix = prefix, lm_final = final\<rparr>, spinner_Stop final w))"

definition entry_003 :: "level \<Rightarrow> string \<Rightarrow> LogOptions list \<Rightarrow> clock \<Rightarrow> world \<Rightarrow> world \<times> exit_status" where
  "entry_003 lv message options clk w = (snd (logMessage_003 lv message options clk w), level_call lv message)"

section \<open>\<open>part_000\<close>: \<open>log.Println\<close>\<close>

text \<open>The \<open>log.LstdFlags\<close> prefix \<open>"2009/01/23 01:23:23 "\<close> of the standard logger, for
  years 0 to 9999.\<close>

definition log_std_prefix :: "Time \<Rightarrow> string" where
  "log_std_prefix t =
     (let local = t_sec t + t_offset t;
          secs = local mod 86400;
          (y, m, d) = civil_from_days (local div 86400 - days_year1_to_1970)
      in appendInt y 4 @ ''/'' @ appendInt m 2 @ ''/'' @ appendInt d 2 @ '' ''
         @ appendInt (secs div 3600) 2 @ '':'' @ appendInt (secs mod 3600 div 60) 2
         @ '':'' @ appendInt (secs mod 60) 2 @ '' '')"

text \<open>\<open>l.logger.Println("|", strings.Join(logParts, " | "))\<close>: operands separated by a
  space, a newline added; the standard logger writes directly to \<open>os.Stdout\<close>.\<close>

definition logMessage_000 :: "level \<Rightarrow> string \<Rightarrow> LogOptions list \<Rightarrow> Time \<Rightarrow> Time \<Rightarrow> world \<Rightarrow> string list \<times> world" where
  "logMessage_000 lv message options now logTime w =
     (let opts = first_or zero_LogOptions options;
          st = fmt_message message (fmt_user opts (fmt_duration opts now (fmt_process opts
                 ((fmt_level lv)\<lparr>logParts := [''['' @ level_name lv @ '']'']\<rparr>))));
          line = log_std_prefix logTime @ ''|'' @ '' '' @ strings_Join (logParts st) '' | '' @ ''\<newline>''
      in (logParts st, w\<lparr>w_out := w_out w @ [line]\<rparr>))"

definition entry_000 :: "level \<Rightarrow> string \<Rightarrow> LogOptions list \<Rightarrow> Time \<Rightarrow> Time \<Rightarrow> world \<Rightarrow> world \<times> exit_status" where
  "entry_000 lv message options now logTime w = (snd (logMessage_000 lv message options now logTime w), level_call lv message)"


section \<open>The tagged view of the \<open>FileLog\<close> setting\<close>

text \<open>The setting as the specification suggests typing it, and the path each tag saves to;
  \<open>None\<close> for a value of another type.  Options of the plain \<open>LogOptions\<close> as
  \<open>part_001\<close> options without a setting.\<close>

datatype FileLogTarget = Disabled | DefaultPath | CustomPath string

primrec file_log_target :: "go_any \<Rightarrow> FileLogTarget option" where
  "file_log_target AnyNil = None"
| "file_log_target (AnyBool b) = Some (if b then DefaultPath else Disabled)"
| "file_log_target (AnyString s) = Some (if s = [] then Disabled else CustomPath s)"
| "file_log_target (AnyOther t) = None"

primrec target_path :: "FileLogTarget \<Rightarrow> string option" where
  "target_path Disabled = None"
| "target_path DefaultPath = Some ''./log.json''"
| "target_path (CustomPath p) = Some p"

definition options_001_of :: "LogOptions \<Rightarrow> LogOptions_001" where
  "options_001_of x = \<lparr>StartTime = StartTime x, Process = Process x, User = User x, FileLog = AnyNil\<rparr>"

text \<open>Examples for the concrete instances: an empty working directory on a terminal, and a
  clock.\<close>

definition example_world :: world where
  "example_world = \<lparr>w_fs = example_fs, w_out = [], w_tty = True\<rparr>"

definition example_clock :: clock where
  "example_clock = \<lparr>clk_starting = zero_Time, clk_current = zero_Time, clk_closing = zero_Time\<rparr>"

text \<open>The same directory made read-only.\<close>

definition ro_world :: world where
  "ro_world = example_world\<lparr>w_fs := example_fs\<lparr>fs_ro := {[''home'']}\<rparr>\<rparr>"

section \<open>Lemmas\<close>

lemma spinner_Stop_simps [simp]: "w_out (spinner_Stop f w) = w_out w @ (if w_tty w \<and> f \<noteq> [] then [f] else [])"
  "w_fs (spinner_Stop f w) = w_fs w" "w_tty (spinner_Stop f w) = w_tty w"
  by (simp_all add: spinner_Stop_def)

lemma final_line_ne [simp]: "final_line c m ps \<noteq> []"
  by (simp add: final_line_def)

lemma checkSaveLogOption_target:
  "checkSaveLogOption v = (case file_log_target v of
      None \<Rightarrow> (False, [], Some (Errorf (''log will not be saved, invalid file log setting type: ''
                 @ type_name v @ '', expected bool or string'')))
    | Some t \<Rightarrow> (target_path t \<noteq> None, case target_path t of None \<Rightarrow> ''./log.json'' | Some p \<Rightarrow> p, None))"
  by (cases v) (simp_all add: checkSaveLogOption_def)

lemma format_log_fields:
  "StartTime o1 = StartTime o2 \<Longrightarrow> Process o1 = Process o2 \<Longrightarrow> User o1 = User o2 \<Longrightarrow>
   format_log lv msg o1 clk = format_log lv msg o2 clk"
  by (simp add: format_log_def fmt_block_defs Let_def)

lemma logMessage_001_fs:
  "w_fs (snd (logMessage_001 l lv msg options clk w)) =
     (case Option.bind (file_log_target (file_log_setting l (first_or zero_LogOptions_001 options))) target_path of
        Some p \<Rightarrow> snd (saveToFile_001 (jsoner (format_log lv msg (first_or zero_LogOptions_001 options) clk)) p (w_fs w))
      | None \<Rightarrow> w_fs w)"
  by (simp add: logMessage_001_def Let_def checkSaveLogOption_target
      split: option.split prod.split sum.split)

lemma logMessage_001_keeps:
  assumes "\<And>j p. go_preserves P (saveToFile_001 j p)" "P (w_fs w)"
  shows "P (w_fs (snd (logMessage_001 l lv msg options clk w)))"
proof -
  have "P (snd (saveToFile_001 j p (w_fs w)))" for j p by (rule go_preserves_apply[OF assms])
  with assms(2) show ?thesis
    by (auto simp: logMessage_001_def Let_def split: option.split prod.split sum.split) (metis snd_conv)+
qed

lemma logMessage_sv_keeps:
  assumes "\<And>j p. go_preserves P (f j p)" "P (w_fs w)"
  shows "P (w_fs (snd (logMessage_sv f l lv msg options clk w)))"
proof -
  have "P (snd (f j p (w_fs w)))" for j p by (rule go_preserves_apply[OF assms])
  with assms(2) show ?thesis
    by (auto simp: logMessage_sv_def Let_def split: prod.split sum.split) (metis snd_conv)+
qed

lemma logMessage_main_keeps:
  assumes "\<And>j. go_preserves P (saveToFile_main j)" "P (w_fs w)"
  shows "P (w_fs (snd (logMessage_main lv msg options clk w)))"
  using go_preserves_apply[OF assms(1) assms(2)] by (simp add: logMessage_main_def Let_def)

section \<open>Properties of the logger\<close>

text \<open>C11: which file \<open>logMessage\<close> of \<open>part_001\<close> writes refines the tagged view of the
  \<open>FileLog\<close> setting the specification recommends (disabled, the default path, a custom path):
  the call's own setting when it is not \<open>nil\<close>, the logger's otherwise; \<open>true\<close> saves the
  formatted record to \<open>./log.json\<close>, a non-empty string to that path, and \<open>false\<close>, the
  empty string and a value of any other type leave the file system unchanged.\<close>

theorem logMessage_001_file:
  "w_fs (snd (logMessage_001 l lv msg options clk w)) =
     (case Option.bind (file_log_target (file_log_setting l (first_or zero_LogOptions_001 options))) target_path of
        Some p \<Rightarrow> snd (saveToFile_001 (jsoner (format_log lv msg (first_or zero_LogOptions_001 options) clk)) p (w_fs w))
      | None \<Rightarrow> w_fs w)"
  by (rule logMessage_001_fs)

text \<open>C12: when the save fails, the final line is marked \<open>x\<close> and ends with the error, and
  an \<open>INFO\<close> call is shown as \<open>[WARN]\<close> (the level is rewritten), every other level keeping
  its tag.\<close>

theorem logMessage_001_save_failed:
  assumes "Option.bind (file_log_target (file_log_setting l (first_or zero_LogOptions_001 options))) target_path = Some p"
    and "fst (saveToFile_001 (jsoner (format_log lv msg (first_or zero_LogOptions_001 options) clk)) p (w_fs w)) = Inl e"
  shows "lm_final (fst (logMessage_001 l lv msg options clk w)) =
           final_line (clk_closing clk) '' x''
             (level_part (if lv = INFO then WARN else lv) # tl (logParts (format_log lv msg (first_or zero_LogOptions_001 options) clk))
              @ [''Error: '' @ error_string e])"
proof -
  let ?opts = "first_or zero_LogOptions_001 options"
  let ?st = "format_log lv msg ?opts clk"
  obtain t where "file_log_target (file_log_setting l ?opts) = Some t" "target_path t = Some p"
    using assms(1) by (auto simp: bind_eq_Some_conv)
  then have chk: "checkSaveLogOption (file_log_setting l ?opts) = (True, p, None)"
    by (simp add: checkSaveLogOption_target)
  obtain fs' where sv: "saveToFile_001 (jsoner ?st) p (w_fs w) = (Inl e, fs')"
    using assms(2) by (cases "saveToFile_001 (jsoner ?st) p (w_fs w)") simp
  have hd: "logParts ?st = level_part lv # tl (logParts ?st)" by (rule format_log_level_part)
  show ?thesis
  proof (cases "lv = INFO")
    case True
    have "(logParts ?st)[0 := level_part WARN] = level_part WARN # tl (logParts ?st)"
      by (subst hd) simp
    then show ?thesis using True chk sv by (simp add: logMessage_001_def Let_def)
  next
    case False
    have "lm_final (fst (logMessage_001 l lv msg options clk w)) =
        final_line (clk_closing clk) '' x'' (logParts ?st @ [''Error: '' @ error_string e])"
      using False chk sv by (simp add: logMessage_001_def Let_def)
    also have "\<dots> = final_line (clk_closing clk) '' x''
        (level_part lv # tl (logParts ?st) @ [''Error: '' @ error_string e])"
      by (subst hd) simp
    finally show ?thesis using False by simp
  qed
qed

text \<open>C13: with a \<open>FileLog\<close> setting that is neither a bool nor a string nothing is saved,
  and the final line carries the success mark \<open>\<checkmark>\<close> followed by the error text: the
  \<open>x\<close> assigned for the error is overwritten by the \<open>else\<close> branch.\<close>

theorem logMessage_001_bad_setting:
  assumes "file_log_target (file_log_setting l (first_or zero_LogOptions_001 options)) = None"
  shows "lm_final (fst (logMessage_001 l lv msg options clk w)) =
           final_line (clk_closing clk) ('' '' @ check_mark)
             (logParts (format_log lv msg (first_or zero_LogOptions_001 options) clk)
              @ [''Error: log will not be saved, invalid file log setting type: ''
                 @ type_name (file_log_setting l (first_or zero_LogOptions_001 options)) @ '', expected bool or string''])
         \<and> w_fs (snd (logMessage_001 l lv msg options clk w)) = w_fs w"
  using assms by (simp add: logMessage_001_def Let_def checkSaveLogOption_target)

text \<open>C14: one call with a path setting, whose directory exists and whose file does not, leaves
  a JSON array holding exactly the formatted record and shows \<open>\<checkmark>\<close> with \<open>Log saved!\<close>.\<close>

theorem logMessage_001_saves_record:
  assumes fl: "file_log_setting l (first_or zero_LogOptions_001 options) = AnyString p"
    and ready: "parent_ready (w_fs w) p" and new: "fs_tree (w_fs w) (resolve (w_fs w) p) = None"
    and space: "length (record_indent_001 (jsoner (format_log lv msg (first_or zero_LogOptions_001 options) clk))) + 6
                \<le> fs_free (w_fs w)"
  shows "\<exists>c. file_content (w_fs (snd (logMessage_001 l lv msg options clk w))) p = Some c
           \<and> parse_array c = Some [sanitize_fields (logToJSON_fields (jsoner (format_log lv msg (first_or zero_LogOptions_001 options) clk)))]
           \<and> lm_final (fst (logMessage_001 l lv msg options clk w)) =
               final_line (clk_closing clk) ('' '' @ check_mark)
                 (logParts (format_log lv msg (first_or zero_LogOptions_001 options) clk) @ [''Log saved!''])"
proof -
  let ?j = "jsoner (format_log lv msg (first_or zero_LogOptions_001 options) clk)" and ?s = "w_fs w"
  let ?s1 = "set_content (resolve ?s p) (arr_001 [record_indent_001 ?j]) (?s\<lparr>fs_tree := (fs_tree ?s)(resolve ?s p \<mapsto> Reg [])\<rparr>)"
  have "p \<noteq> []" using parent_ready_path(1)[OF ready] .
  then have chk: "checkSaveLogOption (file_log_setting l (first_or zero_LogOptions_001 options)) = (True, p, None)"
    using fl by (simp add: checkSaveLogOption_def)
  have sv: "saveToFile_001 ?j p ?s = (Inr (), ?s1)" by (rule save001_fresh[OF ready new space])
  have "file_content ?s1 p = Some (arr_001 (map record_indent_001 [?j]))" by (simp add: file_content_def)
  moreover have "parse_array (arr_001 (map record_indent_001 [?j])) = Some [sanitize_fields (logToJSON_fields ?j)]"
    using parse_arr_001[of "[?j]"] by simp
  ultimately show ?thesis using chk sv by (simp add: logMessage_001_def Let_def)
qed

text \<open>C15: in \<open>part_002\<close> and \<open>part_004\<close> the logger field \<open>DefaultSaveToFile\<close> has no
  effect: every call behaves the same whatever its value.\<close>

theorem logMessage_sv_default_ignored:
  "logMessage_sv f (l\<lparr>l_DefaultSaveToFile := b\<rparr>) = logMessage_sv f l"
proof -
  have "options_sv (l\<lparr>l_DefaultSaveToFile := b\<rparr>) = options_sv l"
    by (simp add: fun_eq_iff options_sv_def Let_def)
  then show ?thesis by (simp add: fun_eq_iff logMessage_sv_def)
qed

text \<open>C16: \<open>part_002\<close> and \<open>part_004\<close> save exactly when the call's \<open>SaveToFile\<close> is set,
  to the call's \<open>LogFilePath\<close> or, when it is empty, the logger's \<open>DefaultLogPath\<close>.\<close>

theorem logMessage_sv_file:
  "w_fs (snd (logMessage_sv f l lv msg options clk w)) =
     (let opts = first_or zero_LogOptions_sv options
      in if SaveToFile opts
         then snd (f (jsoner (format_log lv msg opts clk))
                     (if LogFilePath opts = [] then l_DefaultLogPath l else LogFilePath opts) (w_fs w))
         else w_fs w)"
proof -
  have fl: "format_log lv msg (opts\<lparr>LogFilePath := x\<rparr>) clk = format_log lv msg opts clk" for opts :: LogOptions_sv and x
    by (simp add: format_log_def fmt_block_defs Let_def)
  show ?thesis
    by (simp add: logMessage_sv_def options_sv_def Let_def fl split: prod.split sum.split)
qed

text \<open>C17: the spinner-only variant \<open>part_003\<close> behaves exactly as \<open>part_001\<close> with file
  logging off.\<close>

theorem logMessage_003_eq_001:
  "logMessage_003 lv msg options clk w = logMessage_001 New_001 lv msg (map options_001_of options) clk w"
proof -
  have "format_log lv msg (first_or zero_LogOptions options) clk =
        format_log lv msg (first_or zero_LogOptions_001 (map options_001_of options)) clk"
    by (rule format_log_fields; cases options; simp add: zero_LogOptions_def zero_LogOptions_001_def options_001_of_def)
  moreover have "file_log_setting New_001 (first_or zero_LogOptions_001 (map options_001_of options)) = AnyBool False"
    by (cases options) (simp_all add: file_log_setting_def zero_LogOptions_001_def options_001_of_def New_001_def)
  ultimately show ?thesis
    by (simp add: logMessage_003_def logMessage_001_def Let_def checkSaveLogOption_def final_line_def)
qed

text \<open>C20: a \<open>Fatal\<close> call of \<open>part_004\<close> with \<open>SaveToFile\<close> set appends its record to
  the log file before the process exits with status 1.\<close>

theorem Fatal_004_saves_then_exits:
  assumes save: "SaveToFile (first_or zero_LogOptions_sv options)"
    and path: "LogFilePath (first_or zero_LogOptions_sv options) = p" "p \<noteq> []"
    and ready: "parent_ready (w_fs w) p" and reg: "fs_tree (w_fs w) (resolve (w_fs w) p) = Some (Reg c)"
    and space: "length (record_line (jsoner (format_log FATAL msg (first_or zero_LogOptions_sv options) clk))) + 1
                \<le> fs_free (w_fs w)"
  shows "snd (entry_sv logMessage_004 FATAL l msg options clk w) = Exited 1
       \<and> file_content (w_fs (fst (entry_sv logMessage_004 FATAL l msg options clk w))) p
           = Some (c @ record_line (jsoner (format_log FATAL msg (first_or zero_LogOptions_sv options) clk)) @ ''\<newline>'')"
proof -
  let ?opts = "first_or zero_LogOptions_sv options"
  let ?L = "record_line (jsoner (format_log FATAL msg ?opts clk)) @ ''\<newline>''"
  have opts: "options_sv l options = ?opts" using path by (simp add: options_sv_def Let_def)
  have sv: "saveToFile_004 (jsoner (format_log FATAL msg ?opts clk)) p (w_fs w)
            = (Inr (), set_content (resolve (w_fs w) p) (c @ ?L) (w_fs w))"
    using append_line_reg[OF ready reg, of ?L] space by (simp add: save004_steps[OF ready])
  show ?thesis
    using save path(1) sv
    by (simp add: entry_sv_def level_call_def logMessage_004_def logMessage_sv_def opts Let_def file_content_def)
qed

text \<open>C25: when the save of \<open>part_002\<close> or \<open>part_004\<close> fails, the final line is marked
  \<open>x\<close> and ends with \<open>Failed to save log\<close>; the level is kept and the error itself is not
  shown.\<close>

theorem logMessage_sv_save_failed:
  assumes "SaveToFile (options_sv l options)"
    and "fst (f (jsoner (format_log lv msg (options_sv l options) clk)) (LogFilePath (options_sv l options)) (w_fs w)) = Inl e"
  shows "lm_final (fst (logMessage_sv f l lv msg options clk w)) =
           final_line (clk_closing clk) '' x'' (logParts (format_log lv msg (options_sv l options) clk) @ [''Failed to save log''])"
  using assms by (auto simp: logMessage_sv_def Let_def split: prod.split sum.split)

text \<open>C28: \<open>SetDefaultFileLog v\<close> acts only through the setting of the calls that give none:
  a later call behaves as the same call on the old logger with \<open>FileLog\<close> set to \<open>v\<close> when
  its own \<open>FileLog\<close> is \<open>nil\<close>, and unchanged otherwise.\<close>

theorem SetDefaultFileLog_precedence:
  assumes "v \<noteq> AnyNil"
  shows "logMessage_001 (SetDefaultFileLog l v) lv msg options clk w =
           logMessage_001 l lv msg
             [(first_or zero_LogOptions_001 options)\<lparr>FileLog :=
                (if FileLog (first_or zero_LogOptions_001 options) = AnyNil then v
                 else FileLog (first_or zero_LogOptions_001 options))\<rparr>] clk w"
proof -
  let ?o = "first_or zero_LogOptions_001 options"
  let ?o' = "?o\<lparr>FileLog := (if FileLog ?o = AnyNil then v else FileLog ?o)\<rparr>"
  have f: "format_log lv msg ?o' clk = format_log lv msg ?o clk"
    by (rule format_log_fields) simp_all
  have s: "file_log_setting l ?o' = file_log_setting (SetDefaultFileLog l v) ?o"
    using assms by (simp add: file_log_setting_def SetDefaultFileLog_def)
  show ?thesis
    unfolding logMessage_001_def Let_def first_or_simps f s by (rule refl)
qed

section \<open>Concrete instances\<close>

theorem logMessage_001_save_failed_witness: "lm_final (fst (logMessage_001 New_001 INFO ''hello'' [zero_LogOptions_001\<lparr>FileLog := AnyString ''log.json''\<rparr>] example_clock ro_world)) =
           final_line zero_Time '' x''
             (level_part WARN # tl (logParts (format_log INFO ''hello'' (zero_LogOptions_001\<lparr>FileLog := AnyString ''log.json''\<rparr>) example_clock))
              @ [''Error: file creation failed, open log.json: permission denied''])"
proof -
  have h1: "Option.bind (file_log_target (file_log_setting New_001 (first_or zero_LogOptions_001 [zero_LogOptions_001\<lparr>FileLog := AnyString ''log.json''\<rparr>]))) target_path
            = Some ''log.json''"
    by (simp add: file_log_setting_def zero_LogOptions_001_def)
  have h2: "fst (saveToFile_001 (jsoner (format_log INFO ''hello'' (first_or zero_LogOptions_001 [zero_LogOptions_001\<lparr>FileLog := AnyString ''log.json''\<rparr>]) example_clock))
              ''log.json'' (w_fs ro_world))
            = Inl (Wrapped ''file creation failed, '' (PathError ''open'' ''log.json'' EACCES))"
    by code_simp
  from logMessage_001_save_failed[OF h1 h2] show ?thesis by (simp add: example_clock_def)
qed

theorem logMessage_001_bad_setting_witness: "lm_final (fst (logMessage_001 New_001 INFO ''hello'' [zero_LogOptions_001\<lparr>FileLog := AnyOther ''int''\<rparr>] example_clock example_world)) =
           final_line zero_Time ('' '' @ check_mark)
             (logParts (format_log INFO ''hello'' (zero_LogOptions_001\<lparr>FileLog := AnyOther ''int''\<rparr>) example_clock)
              @ [''Error: log will not be saved, invalid file log setting type: int, expected bool or string''])
         \<and> w_fs (snd (logMessage_001 New_001 INFO ''hello'' [zero_LogOptions_001\<lparr>FileLog := AnyOther ''int''\<rparr>] example_clock example_world)) = example_fs"
  using logMessage_001_bad_setting[of New_001 "[zero_LogOptions_001\<lparr>FileLog := AnyOther ''int''\<rparr>]" INFO "''hello''" example_clock example_world]
  by (simp add: example_clock_def example_world_def file_log_setting_def New_001_def zero_LogOptions_001_def)


theorem logMessage_001_saves_record_witness: "\<exists>c. file_content (w_fs (snd (logMessage_001 New_001 INFO ''hello'' [zero_LogOptions_001\<lparr>FileLog := AnyString ''log.json''\<rparr>] example_clock example_world))) ''log.json'' = Some c
           \<and> parse_array c = Some [sanitize_fields (logToJSON_fields (jsoner (format_log INFO ''hello'' (zero_LogOptions_001\<lparr>FileLog := AnyString ''log.json''\<rparr>) example_clock)))]
           \<and> lm_final (fst (logMessage_001 New_001 INFO ''hello'' [zero_LogOptions_001\<lparr>FileLog := AnyString ''log.json''\<rparr>] example_clock example_world)) =
               final_line zero_Time ('' '' @ check_mark)
                 (logParts (format_log INFO ''hello'' (zero_LogOptions_001\<lparr>FileLog := AnyString ''log.json''\<rparr>) example_clock) @ [''Log saved!''])"
proof -
  have fl: "file_log_setting New_001 (first_or zero_LogOptions_001 [zero_LogOptions_001\<lparr>FileLog := AnyString ''log.json''\<rparr>]) = AnyString ''log.json''"
    by (simp add: file_log_setting_def zero_LogOptions_001_def)
  have space: "length (record_indent_001 (jsoner (format_log INFO ''hello'' (first_or zero_LogOptions_001 [zero_LogOptions_001\<lparr>FileLog := AnyString ''log.json''\<rparr>]) example_clock))) + 6
                \<le> fs_free (w_fs example_world)"
    by code_simp
  from logMessage_001_saves_record[OF fl _ _ space] example_fs_ready example_fs_new
  show ?thesis by (simp add: example_clock_def example_world_def)
qed

theorem Fatal_004_saves_then_exits_witness:
  "snd (entry_sv logMessage_004 FATAL New_sv ''boom'' [zero_LogOptions_sv\<lparr>SaveToFile := True, LogFilePath := ''log.json''\<rparr>] example_clock (example_world\<lparr>w_fs := example_fs_with []\<rparr>)) = Exited 1
   \<and> file_content (w_fs (fst (entry_sv logMessage_004 FATAL New_sv ''boom'' [zero_LogOptions_sv\<lparr>SaveToFile := True, LogFilePath := ''log.json''\<rparr>] example_clock (example_world\<lparr>w_fs := example_fs_with []\<rparr>)))) ''log.json''
       = Some ([] @ record_line (jsoner (format_log FATAL ''boom'' (zero_LogOptions_sv\<lparr>SaveToFile := True, LogFilePath := ''log.json''\<rparr>) example_clock)) @ ''\<newline>'')"
proof -
  have space: "length (record_line (jsoner (format_log FATAL ''boom'' (first_or zero_LogOptions_sv [zero_LogOptions_sv\<lparr>SaveToFile := True, LogFilePath := ''log.json''\<rparr>]) example_clock))) + 1
                \<le> fs_free (w_fs (example_world\<lparr>w_fs := example_fs_with []\<rparr>))"
    by code_simp
  show ?thesis
    using Fatal_004_saves_then_exits[where options="[zero_LogOptions_sv\<lparr>SaveToFile := True, LogFilePath := ''log.json''\<rparr>]" and p="''log.json''" and c="[]" and l=New_sv
            and w="example_world\<lparr>w_fs := example_fs_with []\<rparr>" and msg="''boom''" and clk=example_clock]
      space example_fs_with_ready example_fs_with_reg
    by (simp add: zero_LogOptions_sv_def)
qed


theorem logMessage_sv_save_failed_witness:
  "lm_final (fst (logMessage_sv saveToFile_002 New_sv INFO ''hello'' [zero_LogOptions_sv\<lparr>SaveToFile := True, LogFilePath := ''log.json''\<rparr>] example_clock ro_world)) =
     final_line zero_Time '' x'' (logParts (format_log INFO ''hello'' (options_sv New_sv [zero_LogOptions_sv\<lparr>SaveToFile := True, LogFilePath := ''log.json''\<rparr>]) example_clock) @ [''Failed to save log''])"
proof -
  have h1: "SaveToFile (options_sv New_sv [zero_LogOptions_sv\<lparr>SaveToFile := True, LogFilePath := ''log.json''\<rparr>])" by (simp add: options_sv_def zero_LogOptions_sv_def)
  have h2: "fst (saveToFile_002 (jsoner (format_log INFO ''hello'' (options_sv New_sv [zero_LogOptions_sv\<lparr>SaveToFile := True, LogFilePath := ''log.json''\<rparr>]) example_clock))
              (LogFilePath (options_sv New_sv [zero_LogOptions_sv\<lparr>SaveToFile := True, LogFilePath := ''log.json''\<rparr>])) (w_fs ro_world))
            = Inl (PathError ''open'' ''log.json'' EACCES)"
    by code_simp
  from logMessage_sv_save_failed[where f = saveToFile_002 and w = ro_world, OF h1 h2] show ?thesis by (simp add: example_clock_def)
qed

theorem SetDefaultFileLog_precedence_witness:
  "logMessage_001 (SetDefaultFileLog New_001 (AnyString ''a.json'')) INFO ''m'' [] example_clock example_world =
     logMessage_001 New_001 INFO ''m''
       [(first_or zero_LogOptions_001 [])\<lparr>FileLog :=
          (if FileLog (first_or zero_LogOptions_001 []) = AnyNil then AnyString ''a.json''
           else FileLog (first_or zero_LogOptions_001 []))\<rparr>] example_clock example_world"
  by (rule SetDefaultFileLog_precedence) simp

end
