(* ===== verification/Scripts.thy ===== *)
theory Scripts
  imports Logger
begin

text \<open>
  The test methods of \<open>src/unnamed/part_001\<close> (\<open>Test\<close>, \<open>TestWithPanic\<close>,
  \<open>TestWithFatal\<close>): fixed sequences of calls on one logger.  A call of the logger's
  interface is a value of \<open>call_001\<close>; \<open>run_001\<close> performs a sequence of them, the logger's
  setting changed by \<open>SetDefaultFileLog\<close>, and stops at the first call that ends the
  process (\<open>Fatal\<close>) or panics (\<open>Panic\<close>).  Each logging call carries the clock readings it
  takes; the test's own \<open>time.Now()\<close> readings are parameters.
\<close>

section \<open>Sequences of calls\<close>

datatype call_001 =
    SetDefault go_any
  | LogCall level string "LogOptions_001 list" clock

definition entry_001 :: "level \<Rightarrow> Logger_001 \<Rightarrow> string \<Rightarrow> LogOptions_001 list \<Rightarrow> clock \<Rightarrow> world \<Rightarrow> world \<times> exit_status" where
  "entry_001 lv = (case lv of INFO \<Rightarrow> Info_001 | WARN \<Rightarrow> Warn_001 | FATAL \<Rightarrow> Fatal_001 | PANIC \<Rightarrow> Panic_001)"

fun run_001 :: "Logger_001 \<Rightarrow> call_001 list \<Rightarrow> world \<Rightarrow> Logger_001 \<times> world \<times> exit_status" where
  "run_001 l [] w = (l, w, Returned)"
| "run_001 l (SetDefault v # cs) w = run_001 (SetDefaultFileLog l v) cs w"
| "run_001 l (LogCall lv m opts clk # cs) w =
     (case entry_001 lv l m opts clk w of
        (w', Returned) \<Rightarrow> run_001 l cs w'
      | (w', r) \<Rightarrow> (l, w', r))"

text \<open>The sink calls a sequence makes, in order: for each logging call that the setting sends
  to a file, the path and the record; none after a call that ends the process.\<close>

fun script_saves_001 :: "Logger_001 \<Rightarrow> call_001 list \<Rightarrow> (string \<times> logToJSON) list" where
  "script_saves_001 l [] = []"
| "script_saves_001 l (SetDefault v # cs) = script_saves_001 (SetDefaultFileLog l v) cs"
| "script_saves_001 l (LogCall lv m opts clk # cs) =
     (case Option.bind (file_log_target (file_log_setting l (first_or zero_LogOptions_001 opts))) target_path of
        Some p \<Rightarrow> [(p, jsoner (format_log lv m (first_or zero_LogOptions_001 opts) clk))]
      | None \<Rightarrow> [])
     @ (if level_call lv m = Returned then script_saves_001 l cs else [])"

definition apply_saves_001 :: "(string \<times> logToJSON) list \<Rightarrow> fs \<Rightarrow> fs" where
  "apply_saves_001 saves s = fold (\<lambda>(p, j) s. snd (saveToFile_001 j p s)) saves s"

text \<open>Whether a call lets the sequence go on.\<close>

fun call_returns :: "call_001 \<Rightarrow> bool" where
  "call_returns (SetDefault v) = True"
| "call_returns (LogCall lv m opts clk) = (level_call lv m = Returned)"

section \<open>The test methods\<close>

text \<open>Tests 1 to 8, common to the three methods; \<open>t5\<close> and \<open>t8\<close> are the \<open>time.Now()\<close>
  readings used as start times, \<open>clk k\<close> the readings of the \<open>k\<close>-th logging call.\<close>

definition test_calls_001 :: "Time \<Rightarrow> Time \<Rightarrow> (nat \<Rightarrow> clock) \<Rightarrow> call_001 list" where
  "test_calls_001 t5 t8 clk =
     [LogCall INFO ''Test 1: Default settings - no file logging'' [] (clk 0),
      SetDefault (AnyString ''./logs/custom_default.json''),
      LogCall INFO ''Test 3: Default set to custom path'' [] (clk 1),
      LogCall INFO ''Test 4: Override default path for single log''
        [zero_LogOptions_001\<lparr>FileLog := AnyString ''./logs/single_override.json''\<rparr>] (clk 2),
      LogCall INFO ''Test 5: Full features test''
        [zero_LogOptions_001\<lparr>StartTime := t5, Process := ''MainProcess'', User := ''TestUser'',
                             FileLog := AnyString ''./logs/full_test.json''\<rparr>] (clk 3),
      LogCall INFO ''Test 6: Error handling test''
        [zero_LogOptions_001\<lparr>FileLog := AnyString ''/invalid/path/test.json''\<rparr>] (clk 4),
      SetDefault (AnyBool False),
      LogCall INFO ''Test 7: Default false with override''
        [zero_LogOptions_001\<lparr>FileLog := AnyBool True\<rparr>] (clk 5),
      LogCall INFO ''Test 8: Process duration test''
        [zero_LogOptions_001\<lparr>StartTime := t8, Process := ''SlowProcess'',
                             FileLog := AnyString ''./logs/process_test.json''\<rparr>] (clk 6)]"

definition Test_001 :: "Logger_001 \<Rightarrow> Time \<Rightarrow> Time \<Rightarrow> (nat \<Rightarrow> clock) \<Rightarrow> world \<Rightarrow> Logger_001 \<times> world \<times> exit_status" where
  "Test_001 l t5 t8 clk w = run_001 l (test_calls_001 t5 t8 clk) w"

text \<open>\<open>TestWithPanic\<close>: after test 8 it defers a function that recovers a panic and logs
  the recovery, then panics through \<open>l.Panic\<close>.  The deferred call runs when the method
  unwinds; \<open>recover()\<close> returns the panic value, which is not \<open>nil\<close>, so it logs, and the
  method returns normally.\<close>

definition TestWithPanic_001 ::
    "Logger_001 \<Rightarrow> Time \<Rightarrow> Time \<Rightarrow> (nat \<Rightarrow> clock) \<Rightarrow> world \<Rightarrow> Logger_001 \<times> world \<times> exit_status" where
  "TestWithPanic_001 l t5 t8 clk w =
     (case run_001 l (test_calls_001 t5 t8 clk) w of
        (l1, w1, Returned) \<Rightarrow>
          (case run_001 l1 [LogCall PANIC ''Test 9: Panic test with options''
                              [zero_LogOptions_001\<lparr>Process := ''PanicProcess'', User := ''TestUser'',
                                                   FileLog := AnyString ''./logs/panic_test.json''\<rparr>] (clk 7)] w1 of
             (l2, w2, Panicked r) \<Rightarrow>
               run_001 l2 [LogCall INFO ''Recovered from panic''
                             [zero_LogOptions_001\<lparr>Process := ''PanicRecovery'',
                                                  FileLog := AnyString ''./logs/recovery.json''\<rparr>] (clk 8)] w2
           | res \<Rightarrow> res)
      | res \<Rightarrow> res)"

definition TestWithFatal_001 ::
    "Logger_001 \<Rightarrow> Time \<Rightarrow> Time \<Rightarrow> (nat \<Rightarrow> clock) \<Rightarrow> world \<Rightarrow> Logger_001 \<times> world \<times> exit_status" where
  "TestWithFatal_001 l t5 t8 clk w =
     run_001 l (test_calls_001 t5 t8 clk
                @ [LogCall FATAL ''Test 10: Fatal test with options''
                     [zero_LogOptions_001\<lparr>Process := ''FatalProcess'', User := ''TestUser'',
                                          FileLog := AnyString ''./logs/fatal_test.json''\<rparr>] (clk 7)]) w"

section \<open>Lemmas\<close>

lemma entry_001_cases:
  "entry_001 lv l m opts clk w = (snd (logMessage_001 l lv m opts clk w), level_call lv m)"
  by (cases lv) (simp_all add: entry_001_def Info_001_def Warn_001_def Fatal_001_def Panic_001_def level_call_def)

lemma run_001_LogCall:
  "run_001 l (LogCall lv m opts clk # cs) w =
     (if level_call lv m = Returned then run_001 l cs (snd (logMessage_001 l lv m opts clk w))
      else (l, snd (logMessage_001 l lv m opts clk w), level_call lv m))"
  by (cases "level_call lv m") (simp_all add: entry_001_cases)

declare run_001.simps(3) [simp del] run_001_LogCall [simp]

lemma run_001_append:
  "run_001 l (cs1 @ cs2) w =
     (case run_001 l cs1 w of (l', w', Returned) \<Rightarrow> run_001 l' cs2 w' | res \<Rightarrow> res)"
  by (induction l cs1 w rule: run_001.induct) (auto simp: entry_001_cases split: prod.split exit_status.split)

lemma level_call_Returned: "level_call lv m = Returned \<longleftrightarrow> lv = INFO \<or> lv = WARN"
  by (cases lv) (simp_all add: level_call_def)

lemma run_001_returns:
  "list_all call_returns cs \<Longrightarrow> \<exists>l' w'. run_001 l cs w = (l', w', Returned)"
  by (induction l cs w rule: run_001.induct) (simp_all add: entry_001_cases)

lemma run_001_single:
  "run_001 l [LogCall lv m opts clk] w = (l, snd (logMessage_001 l lv m opts clk w), level_call lv m)"
  by simp

lemma test_calls_001_return: "list_all call_returns (test_calls_001 t5 t8 clk)"
  by (simp add: test_calls_001_def level_call_def)

section \<open>Properties of the test methods\<close>

text \<open>C21: for any sequence of calls on a \<open>part_001\<close> logger, the file system afterwards is
  what the sink calls named by the tagged view of the settings leave, made in call order: each
  logging call the setting (the call's own, or the latest \<open>SetDefaultFileLog\<close>) sends to a
  file saves its record there, the others touch no file, and nothing runs after a call that
  ends the process.\<close>

theorem run_001_fs:
  "w_fs (fst (snd (run_001 l cs w))) = apply_saves_001 (script_saves_001 l cs) (w_fs w)"
  by (induction l cs w rule: run_001.induct)
     (auto simp: entry_001_cases apply_saves_001_def logMessage_001_fs split: option.split exit_status.split)

text \<open>C22: a \<open>Fatal\<close> or \<open>Panic\<close> call ends the sequence: the calls after it never run.\<close>

theorem run_001_stops:
  assumes "\<not> call_returns c"
  shows "run_001 l (cs1 @ c # cs2) w = run_001 l (cs1 @ [c]) w"
proof -
  have "run_001 l' (c # cs2) w' = run_001 l' [c] w'" for l' w'
    using assms by (cases c) (auto simp: level_call_Returned)
  then show ?thesis by (simp add: run_001_append split: prod.split exit_status.split)
qed

text \<open>C23: \<open>TestWithPanic\<close> runs tests 1 to 8, logs the \<open>Panic\<close> call of test 9, and then,
  its deferred function having recovered the panic, logs \<open>Recovered from panic\<close> on the world
  the panic left, and returns normally.\<close>

theorem TestWithPanic_001_recovers:
  "\<exists>l1 w1. run_001 l (test_calls_001 t5 t8 clk) w = (l1, w1, Returned)
     \<and> TestWithPanic_001 l t5 t8 clk w =
         (l1, snd (logMessage_001 l1 INFO ''Recovered from panic''
                     [zero_LogOptions_001\<lparr>Process := ''PanicRecovery'', FileLog := AnyString ''./logs/recovery.json''\<rparr>]
                     (clk 8)
                     (snd (logMessage_001 l1 PANIC ''Test 9: Panic test with options''
                             [zero_LogOptions_001\<lparr>Process := ''PanicProcess'', User := ''TestUser'',
                                                  FileLog := AnyString ''./logs/panic_test.json''\<rparr>]
                             (clk 7) w1))),
          Returned)"
proof -
  obtain l1 w1 where r1: "run_001 l (test_calls_001 t5 t8 clk) w = (l1, w1, Returned)"
    using run_001_returns[OF test_calls_001_return] by blast
  then show ?thesis by (simp add: TestWithPanic_001_def run_001_single level_call_def)
qed

text \<open>C24: \<open>TestWithFatal\<close> always ends the process with status 1, after tests 1 to 8.\<close>

theorem TestWithFatal_001_exits:
  "snd (snd (TestWithFatal_001 l t5 t8 clk w)) = Exited 1"
proof -
  obtain l1 w1 where r1: "run_001 l (test_calls_001 t5 t8 clk) w = (l1, w1, Returned)"
    using run_001_returns[OF test_calls_001_return] by blast
  then show ?thesis by (simp add: TestWithFatal_001_def run_001_append run_001_single level_call_def)
qed

section \<open>Concrete instances\<close>

theorem run_001_stops_witness:
  "run_001 New_001 ([] @ LogCall FATAL ''x'' [] example_clock # [LogCall INFO ''y'' [] example_clock]) example_world
   = run_001 New_001 ([] @ [LogCall FATAL ''x'' [] example_clock]) example_world"
  by (rule run_001_stops) (simp add: level_call_def)

end
