(* ===== verification/Spec2Isabelle.thy ===== *)
theory Spec2Isabelle
  imports Go_Prelude Go_Fmt Go_Time Formatter Json FileSystem Sink Logger Scripts
begin

text \<open>
  Verification development for the gologger repository: a leveled console logger written in
  Go, whose calls \<open>Info\<close>, \<open>Warn\<close>, \<open>Fatal\<close> and \<open>Panic\<close> format a message with optional
  fields (process, elapsed duration, user), show it through a terminal spinner and, in most
  variants, append a JSON record of it to a file.  The repository holds six variants of the
  same logger:
  \<^item> \<open>src/unnamed/part_001\<close>: a \<open>FileLog\<close> setting of type \<open>any\<close> (bool or path string,
    per call or as the logger's default), records kept as an indented JSON array;
  \<^item> \<open>src/unnamed/part_002\<close>: \<open>SaveToFile\<close> and \<open>LogFilePath\<close> options, a JSON array;
  \<^item> \<open>src/unnamed/part_004\<close>: the same options, newline-delimited JSON;
  \<^item> \<open>src/main.go\<close>: prints first, then appends newline-delimited JSON to \<open>log.json\<close>;
  \<^item> \<open>src/unnamed/part_003\<close>: the spinner alone, no file;
  \<^item> \<open>src/unnamed/part_000\<close>: \<open>log.Println\<close> with the standard date prefix, no file.

  \<^bold>\<open>Theories.\<close>
  \<^item> \<open>Go_Prelude\<close>: the Go run-time notions every component uses: \<open>any\<close> as
    \<open>go_any\<close>, error values, calls that return early on error as the state-error monad
    \<open>go_m\<close> (\<open>go_bind\<close>, \<open>go_wrap\<close> for \<open>fmt.Errorf("...%w")\<close>), variadic options,
    \<open>strings.Join\<close>, and \<open>go_preserves\<close>, the invariant of a call.
  \<^item> \<open>Go_Fmt\<close>, \<open>Go_Time\<close>, \<open>Json\<close>: the library code the sources call, modelled from
    the Go library's behaviour: \<open>%d\<close>; \<open>time.Time\<close>, \<open>Sub\<close> on 64-bit words with its
    saturation, \<open>Milliseconds\<close>, \<open>Format\<close>; \<open>json.Marshal\<close> and \<open>MarshalIndent\<close> of the
    record, with string escaping; and a JSON reader, used only to state round trips.
  \<^item> \<open>Formatter\<close>: the blocks of \<open>logMessage\<close> that build the display parts, the
    spinner's suffix and the record (\<open>part_001\<close> lines 128--166 and their copies).
  \<^item> \<open>FileSystem\<close>: the \<open>os\<close> and \<open>path/filepath\<close> calls of the sinks over an explicit
    file-system state \<open>fs\<close> (a tree of directories and byte files, read-only nodes, free
    space, a working directory).
  \<^item> \<open>Sink\<close>: \<open>saveToFile\<close> of \<open>part_001\<close>, \<open>part_002\<close>, \<open>part_004\<close> and \<open>main.go\<close>, call
    by call, with \<open>fileExists\<close>.
  \<^item> \<open>Logger\<close>: \<open>logMessage\<close> and the entry points of all six variants, acting on a
    \<open>world\<close> (file system, standard output, whether it is a terminal); \<open>New\<close>,
    \<open>SetDefaultFileLog\<close>, \<open>checkSaveLogOption\<close>.
  \<^item> \<open>Scripts\<close>: the test methods \<open>Test\<close>, \<open>TestWithPanic\<close>, \<open>TestWithFatal\<close> of
    \<open>part_001\<close> as sequences of calls (\<open>call_001\<close>) performed by \<open>run_001\<close>, which stops
    at the first call that ends the process; \<open>script_saves_001\<close> is the abstract sequence of
    sink calls such a sequence makes.

  \<^bold>\<open>Correspondence.\<close> Each Go function is one definition with the function's name and the
  variant's suffix (\<open>logMessage_001\<close>, \<open>saveToFile_002\<close>, ...); \<open>part_002\<close> and
  \<open>part_004\<close> share \<open>logMessage_sv\<close>, which takes the variant's \<open>saveToFile\<close>.  Structs are
  records (\<open>LogOptions\<close> extended per variant), the level constants a datatype.  The three
  \<open>time.Now()\<close> readings of a call are inputs (the record \<open>clock\<close>), as is the terminal
  test of the spinner; \<open>time.Sleep\<close> only moves those readings.  An error return is a
  value \<open>Inl e\<close>; \<open>os.Exit(1)\<close> and \<open>panic\<close> are the outcomes of \<open>exit_status\<close>.

  \<^bold>\<open>What is proved.\<close> The formatter builds the record and the display line from the same
  optional fields in the source's order, with the duration as the elapsed milliseconds,
  within 64 bits and non-negative for ordered readings (\<open>Formatter\<close>).  Every sink, after
  any number of calls on a fresh file, leaves a file that parses back to the records in call
  order; \<open>part_002\<close> corrupts an existing empty file; the newline-delimited sinks only
  append (\<open>Sink\<close>).  \<open>part_001\<close> refines the tagged view of its \<open>FileLog\<close> setting, and
  the precedence of its setting over \<open>SetDefaultFileLog\<close>, the save and error paths and final
  lines of the file-writing variants, the variants' equivalences and \<open>Fatal\<close>'s
  save-before-exit are given (\<open>Logger\<close>).  A sequence of calls refines the sequence of saves
  its settings name and stops at \<open>Fatal\<close> and \<open>Panic\<close>; \<open>TestWithPanic\<close> recovers its
  panic and logs the recovery, \<open>TestWithFatal\<close> exits (\<open>Scripts\<close>).  Below: the
  newline-delimited variants never lose logged data, where \<open>part_001\<close>'s in-place edit of its
  array loses the whole log when an append runs out of space (\<open>Sink\<close>).

  \<^bold>\<open>Bounds.\<close> No fuel is used: every definition is total.  The program's own code has no
  loop and no recursion, so no property of its termination is stated; the only recursion
  it reaches is the library's \<open>os.MkdirAll\<close>, which recurses on a strictly shorter prefix of
  its path (termination by the measure \<open>length\<close>).  Sequences of calls and of saves are
  structural recursion on lists.  Durations are 64-bit
  words with Go's saturation, and writes are bounded by the free space of the device, so the
  round-trip theorems assume enough space for the records they write.

  \<^bold>\<open>Not modelled.\<close> The spinner's animation between \<open>Start\<close> and \<open>Stop\<close> (timed terminal
  output; only the final line is kept); the demo \<open>main\<close> of \<open>part_001\<close>, which sits in a
  doc comment; the marshaling error branch of \<open>saveToFile\<close>
  (a struct of strings always marshals); symbolic links and concurrent writers of the log file.
\<close>

section \<open>Properties across components\<close>

text \<open>C27: the newline-delimited variants (\<open>part_004\<close> and \<open>main.go\<close>) never lose logged data:
  after any call, whatever its outcome, every directory is still there and every file's old
  content is a prefix of its new one.  (\<open>part_001\<close> has no such guarantee: an append
  that fails for lack of space leaves its array truncated.)\<close>

theorem ndjson_loggers_append_only:
  "fs_extends (w_fs w) (w_fs (snd (logMessage_004 l lv msg options clk w)))
   \<and> fs_extends (w_fs w) (w_fs (snd (logMessage_main lv msg o2 clk w)))"
  by (simp add: logMessage_004_def logMessage_sv_keeps logMessage_main_keeps
      saveToFile_004_extends saveToFile_main_extends)

end
